(* ===== verification/Prelude.thy ===== *)
theory Prelude
  imports Complex_Main "HOL-Library.Word" "HOL-Library.Multiset"
begin

text \<open>
  Shared vocabulary of the development: the machine types of the C++ sources, the collections
  of rewrite rules the component theories extend, the text formatting the sources take from
  the C++ standard library (\<open>std::to_string\<close>, \<open>std::hex\<close> with \<open>std::setw\<close> and
  \<open>std::setfill\<close>), the fixed width little-endian byte order, and a list lemma used by
  more than one component.
\<close>

unbundle bit_operations_syntax

type_synonym u8 = "8 word"
type_synonym u16 = "16 word"
type_synonym u32 = "32 word"
type_synonym u64 = "64 word"
type_synonym i16 = "16 word" \<comment> \<open>read with \<open>sint\<close>\<close>
type_synonym bytes = "8 word list"

text \<open>
  The collections: \<open>text_defs\<close> unfolds the text formatting, \<open>encode_defs\<close> the
  encoders of the control calls, \<open>placed_defs\<close> the sessions that have a simulated
  device at a given address.
\<close>

named_theorems text_defs
named_theorems encode_defs
named_theorems placed_defs

subsection \<open>Bounds of the fixed width integers\<close>

abbreviation INT16_MIN :: int where "INT16_MIN \<equiv> - 32768"
abbreviation INT16_MAX :: int where "INT16_MAX \<equiv> 32767"
abbreviation UINT16_MAX :: nat where "UINT16_MAX \<equiv> 65535"
abbreviation UINT8_MAX :: nat where "UINT8_MAX \<equiv> 255"
abbreviation INT_MAX :: int where "INT_MAX \<equiv> 2147483647"
abbreviation UINT32_MAX :: u32 where "UINT32_MAX \<equiv> 4294967295"

subsection \<open>Text: decimal and hexadecimal numbers\<close>

definition digit_char :: "nat \<Rightarrow> char" where
  [text_defs]: "digit_char d = ''0123456789ABCDEF'' ! d"

fun digits_base :: "nat \<Rightarrow> nat \<Rightarrow> string" where
  "digits_base b n =
     (if n < b \<or> b < 2 then [digit_char n] else digits_base b (n div b) @ [digit_char (n mod b)])"

declare digits_base.simps [simp del]

text \<open>\<open>std::to_string\<close> on unsigned and on signed integers.\<close>

definition nat_to_string :: "nat \<Rightarrow> string" where
  [text_defs]: "nat_to_string n = digits_base 10 n"

definition int_to_string :: "int \<Rightarrow> string" where
  [text_defs]: "int_to_string i =
     (if i < 0 then ''-'' @ digits_base 10 (nat (- i)) else digits_base 10 (nat i))"

text \<open>\<open>out << std::uppercase << std::hex << std::setw(w) << std::setfill('0') << n\<close>.\<close>

definition hex_padded :: "nat \<Rightarrow> nat \<Rightarrow> string" where
  [text_defs]: "hex_padded w n =
     (let s = digits_base 16 n in replicate (w - length s) CHR ''0'' @ s)"

lemma digit_char_inj:
  assumes "m < 16" "n < 16" "digit_char m = digit_char n"
  shows "m = n"
proof -
  have "distinct (''0123456789ABCDEF'' :: string)" by simp
  moreover have "length (''0123456789ABCDEF'' :: string) = 16" by simp
  ultimately show ?thesis
    using assms nth_eq_iff_index_eq [of "''0123456789ABCDEF''" m n] by (simp add: digit_char_def)
qed

lemma digits_base_nonempty [simp]: "digits_base b n \<noteq> []"
  by (subst digits_base.simps) simp

lemma digits_base_inj:
  assumes b: "2 \<le> b" "b \<le> 16"
  shows "digits_base b m = digits_base b n \<Longrightarrow> m = n"
proof (induction m arbitrary: n rule: less_induct)
  case (less m)
  have step: "digits_base b k =
      (if k < b then [digit_char k] else digits_base b (k div b) @ [digit_char (k mod b)])" for k
    using b by (subst digits_base.simps) auto
  have low: "k mod b < 16" for k
    using b by (meson less_le_trans mod_less_divisor pos2 zero_less_numeral order_less_le_trans)
  show ?case
  proof (cases "m < b \<or> n < b")
    case True
    have single: "[] \<noteq> digits_base b k" for k
      by (metis digits_base_nonempty)
    from True less.prems single have "m < b" "n < b" "digit_char m = digit_char n"
      by (auto simp: step [of m] step [of n] split: if_splits)
    with b show ?thesis by (auto intro: digit_char_inj)
  next
    case False
    with less.prems have *: "digits_base b (m div b) = digits_base b (n div b)"
      and **: "digit_char (m mod b) = digit_char (n mod b)"
      by (auto simp: step [of m] step [of n])
    from False b have "m div b < m" by (simp add: div_less_dividend)
    from this * have "m div b = n div b" by (rule less.IH)
    moreover from ** have "m mod b = n mod b" by (rule digit_char_inj [OF low low])
    ultimately show ?thesis by (metis div_mult_mod_eq)
  qed
qed

lemma nat_to_string_inj: "nat_to_string m = nat_to_string n \<Longrightarrow> m = n"
  using digits_base_inj [of 10 m n] by (simp add: nat_to_string_def)

subsection \<open>Little-endian bytes\<close>

text \<open>
  The two bytes of a 16-bit value in wire order, and the value two bytes stand for. A signed
  16-bit value is the same bit pattern (\<open>static_cast<uint16_t>\<close>).
\<close>

definition le_bytes :: "u16 \<Rightarrow> bytes" where
  "le_bytes v = [ucast (v AND 0xFF), ucast (drop_bit 8 v)]"

definition le_value :: "u8 \<Rightarrow> u8 \<Rightarrow> u16" where
  "le_value lo hi = ucast lo OR push_bit 8 (ucast hi)"

lemma le_value_bytes: "le_value (ucast (v AND 0xFF)) (ucast (drop_bit 8 v)) = v"
proof (rule bit_word_eqI)
  have low_mask: "(0xFF :: u16) = mask 8"
    by (simp add: mask_eq_exp_minus_1)
  fix n assume "n < LENGTH(16)"
  then show "bit (le_value (ucast (v AND 0xFF)) (ucast (drop_bit 8 v))) n = bit v n"
    unfolding le_value_def
    by (cases "n < 8") (auto simp: low_mask bit_simps intro: arg_cong [where f = "bit v"])
qed

lemma length_le_bytes [simp]: "length (le_bytes v) = 2"
  by (simp add: le_bytes_def)

lemma sint_word_of_int_16: "INT16_MIN \<le> i \<Longrightarrow> i \<le> INT16_MAX \<Longrightarrow> sint (word_of_int i :: i16) = i"
  by (simp add: int_word_sint)

subsection \<open>Lists\<close>

lemma ball_if: "\<forall>x \<in> set xs. P x \<Longrightarrow> \<forall>x \<in> set (if b then xs else []). P x"
  by simp

end
