(* ===== verification/Contracts.thy ===== *)
theory Contracts
  imports Prelude
begin

text \<open>
  The two C libraries the provider is compiled against, CRUMBS and bread-crumbs-contracts, are
  not part of the repository: the build fetches them. Everything the sources take from them is
  a field of the record \<open>contracts\<close> and so an argument of the definitions that use it: the
  macros (opcodes, type ids, modes, capability bits, limits) as three functions from the
  macro's name to its value, the C functions as functions. An integer status of a C function
  that the sources only compare with 0 is \<open>option\<close>, the out parameters being the \<open>Some\<close>
  value.

  What the sources rely on is stated as named predicates (\<open>labels_distinct\<close>,
  \<open>codec_ok\<close>, \<open>ack_ok\<close>, \<open>parsers_ok\<close>); a theorem that needs one has it as
  a hypothesis. \<open>sample_contracts\<close> is a concrete record that satisfies all of them, used
  only to show that the hypotheses can hold together; it is no model of the libraries.
\<close>

subsection \<open>The macros, by name\<close>

datatype byte_name =
    RLHT_TYPE_ID | RLHT_MODULE_VER_MAJOR | RLHT_MODULE_VER_MINOR | RLHT_MODULE_VER_PATCH
  | RLHT_OP_SET_MODE | RLHT_OP_SET_SETPOINTS | RLHT_OP_SET_PID | RLHT_OP_SET_PERIODS
  | RLHT_OP_SET_TC_SELECT | RLHT_OP_SET_OPEN_DUTY | RLHT_OP_GET_STATE
  | RLHT_MODE_CLOSED_LOOP | RLHT_MODE_OPEN_LOOP
  | RLHT_FLAG_RELAY1_ON | RLHT_FLAG_RELAY2_ON | RLHT_FLAG_ESTOP | RLHT_CAP_LEVEL_1
  | DCMT_TYPE_ID | DCMT_MODULE_VER_MAJOR | DCMT_MODULE_VER_MINOR | DCMT_MODULE_VER_PATCH
  | DCMT_OP_SET_OPEN_LOOP | DCMT_OP_SET_BRAKE | DCMT_OP_SET_MODE | DCMT_OP_SET_SETPOINT
  | DCMT_OP_SET_PID | DCMT_OP_GET_STATE
  | DCMT_MODE_OPEN_LOOP | DCMT_MODE_CLOSED_POSITION | DCMT_MODE_CLOSED_SPEED
  | DCMT_PID_LOOP_POSITION | DCMT_PID_LOOP_SPEED | DCMT_CAP_LEVEL_1 | DCMT_CAP_LEVEL_3
  | BREAD_CAPS_SCHEMA_V1 | BREAD_OP_GET_CAPS | BREAD_OP_SET_WATCHDOG | BREAD_OP_GET_WATCHDOG
  | BREAD_OP_CLEAR_WATCHDOG_TRIP
  | BREAD_REFUSE_ESTOP | BREAD_REFUSE_WATCHDOG_TRIP | BREAD_REFUSE_WRONG_MODE
  | BREAD_REFUSE_MALFORMED | BREAD_REFUSE_UNDEFINED_VALUE | BREAD_REFUSE_UNKNOWN_OP
  | BREAD_REFUSE_NOT_BUILT
  | CRUMBS_CMD_GET_ACK | CRUMBS_ACK_APPLIED | CRUMBS_ACK_REFUSED | CRUMBS_ACK_REJECTED
  | CRUMBS_ACK_REJECT_NO_HANDLER | CRUMBS_ACK_REJECT_TYPE

datatype cap_name =
    RLHT_CAP_MODE_CONTROL | RLHT_CAP_SETPOINT_CONTROL | RLHT_CAP_PID_TUNING
  | RLHT_CAP_PERIOD_CONTROL | RLHT_CAP_TC_SELECT | RLHT_CAP_OPEN_DUTY_CONTROL
  | RLHT_CAP_CMD_WATCHDOG | RLHT_CAP_CLEAR_WATCHDOG_TRIP | RLHT_CAP_ESTOP_COUNT
  | RLHT_CAP_REFUSES | RLHT_CAP_BASELINE_FLAGS
  | DCMT_CAP_OPEN_LOOP_CONTROL | DCMT_CAP_BRAKE_CONTROL | DCMT_CAP_CLOSED_LOOP_POSITION
  | DCMT_CAP_CLOSED_LOOP_SPEED | DCMT_CAP_PID_TUNING | DCMT_CAP_CMD_WATCHDOG
  | DCMT_CAP_CLEAR_WATCHDOG_TRIP | DCMT_CAP_REFUSES | DCMT_CAP_BASELINE_FLAGS

datatype num_name =
    RLHT_PERIOD_MIN_MS | RLHT_PERIOD_MAX_MS | RLHT_STATE_OFF_ESTOP_COUNT
  | BREAD_WATCHDOG_CLEAR_TRIP_PAYLOAD_LEN
  | CRUMBS_VERSION | CRUMBS_ACK_MIN_VERSION | CRUMBS_ACK_READ_ATTEMPTS
  | CRUMBS_MAX_PAYLOAD | CRUMBS_MESSAGE_MAX_SIZE

subsection \<open>The C structs\<close>

record crumbs_message =
  m_type_id :: u8
  m_opcode :: u8
  m_data :: bytes \<comment> \<open>the first \<open>data_len\<close> bytes of \<open>data\<close>\<close>

record crumbs_ack =
  ack_counter :: u8
  ack_opcode :: u8
  ack_status :: u8
  ack_reason :: u8

text \<open>What \<open>crumbs_ack_classify\<close> returns: the case labels of its one caller, and any other value.\<close>

datatype ack_outcome =
    CRUMBS_SET_APPLIED | CRUMBS_SET_REFUSED | CRUMBS_SET_REJECTED | CRUMBS_SET_NOT_ADVANCED
  | CRUMBS_RX_ACK_MISMATCH | CRUMBS_RX_ACK_UNKNOWN | CRUMBS_RX_ACK_INVALID

record rlht_state_result =
  rr_mode :: u8
  rr_flags :: u8
  rr_t1_deci_c :: i16
  rr_t2_deci_c :: i16
  rr_sp1_deci_c :: i16
  rr_sp2_deci_c :: i16
  rr_on1_ms :: u16
  rr_on2_ms :: u16
  rr_period1_ms :: u16
  rr_period2_ms :: u16
  rr_tc1 :: u8
  rr_tc2 :: u8
  rr_estop_count :: u8

record dcmt_state_result =
  dr_mode :: u8
  dr_m1_pwm :: i16
  dr_m2_pwm :: i16
  dr_sp1 :: i16
  dr_sp2 :: i16
  dr_pos1 :: i16
  dr_pos2 :: i16
  dr_spd1 :: i16
  dr_spd2 :: i16
  dr_brakes :: u8
  dr_estop :: u8
  dr_estop_count :: u8

record watchdog_result =
  wr_armed :: u8
  wr_timeout_ms :: u16
  wr_tripped :: u8
  wr_trip_count :: u8

record dcmt_set_pid =
  pid_loop :: u8
  pid_kp1 :: u16
  pid_ki1 :: u16
  pid_kd1 :: u16
  pid_kp2 :: u16
  pid_ki2 :: u16
  pid_kd2 :: u16

subsection \<open>The libraries\<close>

record contracts =
  byte_of :: "byte_name \<Rightarrow> u8"
  cap_of :: "cap_name \<Rightarrow> u32"
  num_of :: "num_name \<Rightarrow> nat"
  BREAD_INVALID_I16 :: i16
  bread_is_valid_i16 :: "i16 \<Rightarrow> bool"
  bread_parse_version :: "bytes \<Rightarrow> (u16 \<times> u8 \<times> u8 \<times> u8) option"
  bread_check_crumbs_compat :: "u16 \<Rightarrow> bool"
  bread_check_module_compat :: "u8 \<Rightarrow> u8 \<Rightarrow> u8 \<Rightarrow> u8 \<Rightarrow> bool"
  bread_caps_parse_payload :: "bytes \<Rightarrow> (u8 \<times> u8 \<times> u32) option"
  bread_watchdog_parse_payload :: "bytes \<Rightarrow> watchdog_result option"
  rlht_parse_state_payload :: "bytes \<Rightarrow> rlht_state_result option"
  dcmt_parse_state_payload :: "bytes \<Rightarrow> dcmt_state_result option"
  dcmt_set_pid_pack :: "dcmt_set_pid \<Rightarrow> bytes"
  crumbs_encode_message :: "crumbs_message \<Rightarrow> bytes" \<comment> \<open>\<open>[]\<close> where it returns 0\<close>
  crumbs_frame_length :: "bytes \<Rightarrow> nat option"
  crumbs_decode_message :: "bytes \<Rightarrow> int + crumbs_message" \<comment> \<open>\<open>Inl rc\<close> where \<open>rc \<noteq> 0\<close>\<close>
  crumbs_ack_decode :: "crumbs_message \<Rightarrow> crumbs_ack option"
  crumbs_ack_classify :: "crumbs_ack \<Rightarrow> crumbs_ack \<Rightarrow> u8 \<Rightarrow> ack_outcome"

subsection \<open>What the sources rely on\<close>

text \<open>
  Two case labels of one C++ \<open>switch\<close> are different values, or the program would not
  compile. The labels: the type ids (\<open>try_parse_bread_type\<close>), the DCMT modes
  (\<open>parse_state\<close>), the refusal reasons (\<open>refusal_for\<close>), the reject reasons
  (\<open>reject_name\<close>).
\<close>

definition labels_distinct :: "contracts \<Rightarrow> bool" where
  "labels_distinct ct \<longleftrightarrow>
     distinct (map (byte_of ct) [RLHT_TYPE_ID, DCMT_TYPE_ID]) \<and>
     distinct (map (byte_of ct)
       [DCMT_MODE_OPEN_LOOP, DCMT_MODE_CLOSED_POSITION, DCMT_MODE_CLOSED_SPEED]) \<and>
     distinct (map (byte_of ct)
       [BREAD_REFUSE_ESTOP, BREAD_REFUSE_WATCHDOG_TRIP, BREAD_REFUSE_WRONG_MODE,
        BREAD_REFUSE_MALFORMED, BREAD_REFUSE_UNDEFINED_VALUE, BREAD_REFUSE_UNKNOWN_OP,
        BREAD_REFUSE_NOT_BUILT]) \<and>
     distinct (map (byte_of ct) [CRUMBS_ACK_REJECT_NO_HANDLER, CRUMBS_ACK_REJECT_TYPE])"

text \<open>
  The CRUMBS codec: a message of at most 27 data bytes encodes to a nonempty frame that fits
  the message buffer, the header tells the frame's length whatever padding follows it, and the
  frame decodes to the message.
\<close>

definition codec_ok :: "contracts \<Rightarrow> bool" where
  "codec_ok ct \<longleftrightarrow>
     num_of ct CRUMBS_MAX_PAYLOAD = 27 \<and>
     (\<forall>m. length (m_data m) \<le> 27 \<longrightarrow>
        (let frame = crumbs_encode_message ct m in
           frame \<noteq> [] \<and> length frame \<le> num_of ct CRUMBS_MESSAGE_MAX_SIZE \<and>
           crumbs_decode_message ct frame = Inr m \<and>
           (\<forall>pad. crumbs_frame_length ct (frame @ pad) = Some (length frame))))"

text \<open>
  The acknowledgement: a GET_ACK reply carries counter, opcode, status and reason; a record
  whose counter is one past the baseline's, for the opcode sent, is classified by its status; a
  record of an earlier command that equals the baseline has not advanced. At least one read of
  it is made.
\<close>

definition ack_ok :: "contracts \<Rightarrow> bool" where
  "ack_ok ct \<longleftrightarrow>
     0 < num_of ct CRUMBS_ACK_READ_ATTEMPTS \<and>
     distinct (map (byte_of ct) [CRUMBS_ACK_APPLIED, CRUMBS_ACK_REFUSED, CRUMBS_ACK_REJECTED]) \<and>
     (\<forall>t c op st r. crumbs_ack_decode ct
        \<lparr>m_type_id = t, m_opcode = byte_of ct CRUMBS_CMD_GET_ACK, m_data = [c, op, st, r]\<rparr>
        = Some \<lparr>ack_counter = c, ack_opcode = op, ack_status = st, ack_reason = r\<rparr>) \<and>
     (\<forall>before after. ack_counter after = ack_counter before + 1 \<longrightarrow>
        (ack_status after = byte_of ct CRUMBS_ACK_APPLIED \<longrightarrow>
           crumbs_ack_classify ct before after (ack_opcode after) = CRUMBS_SET_APPLIED) \<and>
        (ack_status after = byte_of ct CRUMBS_ACK_REFUSED \<longrightarrow>
           crumbs_ack_classify ct before after (ack_opcode after) = CRUMBS_SET_REFUSED) \<and>
        (ack_status after = byte_of ct CRUMBS_ACK_REJECTED \<longrightarrow>
           crumbs_ack_classify ct before after (ack_opcode after) = CRUMBS_SET_REJECTED)) \<and>
     (\<forall>ack op. ack_status ack \<in> byte_of ct ` {CRUMBS_ACK_APPLIED, CRUMBS_ACK_REFUSED, CRUMBS_ACK_REJECTED}
        \<longrightarrow> crumbs_ack_classify ct ack ack op = CRUMBS_SET_NOT_ADVANCED)"

text \<open>
  The state layouts the canned bus writes and the adapters' comments give: DCMT 20 bytes
  (\<open>[mode][m1_pwm][m2_pwm][sp1][sp2][pos1][pos2][spd1][spd2][brakes][estop][estop_count]\<close>),
  RLHT 19 bytes with both thermocouple selections in the last one, watchdog 5 bytes.
\<close>

definition parsers_ok :: "contracts \<Rightarrow> bool" where
  "parsers_ok ct \<longleftrightarrow>
     (\<forall>m a b c d e f g h br es n.
        dcmt_parse_state_payload ct
          ([m] @ le_bytes a @ le_bytes b @ le_bytes c @ le_bytes d @ le_bytes e @ le_bytes f @
           le_bytes g @ le_bytes h @ [br, es, n]) =
        Some \<lparr>dr_mode = m, dr_m1_pwm = a, dr_m2_pwm = b, dr_sp1 = c, dr_sp2 = d, dr_pos1 = e,
              dr_pos2 = f, dr_spd1 = g, dr_spd2 = h, dr_brakes = br, dr_estop = es,
              dr_estop_count = n\<rparr>) \<and>
     (\<forall>m fl t1 t2 s1 s2 o1 o2 p1 p2 tc.
        rlht_parse_state_payload ct
          ([m, fl] @ le_bytes t1 @ le_bytes t2 @ le_bytes s1 @ le_bytes s2 @ le_bytes o1 @
           le_bytes o2 @ le_bytes p1 @ le_bytes p2 @ [tc]) =
        Some \<lparr>rr_mode = m, rr_flags = fl, rr_t1_deci_c = t1, rr_t2_deci_c = t2,
              rr_sp1_deci_c = s1, rr_sp2_deci_c = s2, rr_on1_ms = o1, rr_on2_ms = o2,
              rr_period1_ms = p1, rr_period2_ms = p2, rr_tc1 = tc AND 3,
              rr_tc2 = drop_bit 2 tc AND 3, rr_estop_count = 0\<rparr>) \<and>
     (\<forall>a t tr n. bread_watchdog_parse_payload ct ([a] @ le_bytes t @ [tr, n]) =
        Some \<lparr>wr_armed = a, wr_timeout_ms = t, wr_tripped = tr, wr_trip_count = n\<rparr>)"

text \<open>
  The opcodes of one family, with those every family shares, are different values, and none is
  SET_REPLY (0xFE).
\<close>

definition shared_opcodes :: "byte_name list" where
  "shared_opcodes = [BREAD_OP_SET_WATCHDOG, BREAD_OP_GET_WATCHDOG, BREAD_OP_CLEAR_WATCHDOG_TRIP,
     CRUMBS_CMD_GET_ACK]"

definition opcodes_ok :: "contracts \<Rightarrow> bool" where
  "opcodes_ok ct \<longleftrightarrow>
     distinct (map (byte_of ct) ([RLHT_OP_SET_MODE, RLHT_OP_SET_SETPOINTS, RLHT_OP_SET_PID,
       RLHT_OP_SET_PERIODS, RLHT_OP_SET_TC_SELECT, RLHT_OP_SET_OPEN_DUTY, RLHT_OP_GET_STATE] @
       shared_opcodes) @ [0xFE]) \<and>
     distinct (map (byte_of ct) ([DCMT_OP_SET_OPEN_LOOP, DCMT_OP_SET_BRAKE, DCMT_OP_SET_MODE,
       DCMT_OP_SET_SETPOINT, DCMT_OP_SET_PID, DCMT_OP_GET_STATE] @ shared_opcodes) @ [0xFE])"

lemma opcodes_okD:
  assumes "opcodes_ok ct"
  shows "byte_of ct DCMT_OP_SET_MODE \<noteq> byte_of ct DCMT_OP_SET_OPEN_LOOP"
    and "byte_of ct DCMT_OP_SET_MODE \<noteq> byte_of ct DCMT_OP_SET_SETPOINT"
    and "0xFE \<notin> byte_of ct ` {RLHT_OP_SET_MODE, RLHT_OP_SET_SETPOINTS, RLHT_OP_SET_PID,
       RLHT_OP_SET_PERIODS, RLHT_OP_SET_TC_SELECT, RLHT_OP_SET_OPEN_DUTY, RLHT_OP_GET_STATE}"
    and "0xFE \<notin> byte_of ct ` {DCMT_OP_SET_OPEN_LOOP, DCMT_OP_SET_BRAKE, DCMT_OP_SET_MODE,
       DCMT_OP_SET_SETPOINT, DCMT_OP_SET_PID, DCMT_OP_GET_STATE}"
    and "0xFE \<notin> byte_of ct ` set shared_opcodes"
  using assms unfolding opcodes_ok_def by (auto simp: image_iff)

lemma labels_distinctD:
  assumes "labels_distinct ct"
  shows "byte_of ct RLHT_TYPE_ID \<noteq> byte_of ct DCMT_TYPE_ID"
    and "byte_of ct DCMT_MODE_OPEN_LOOP \<noteq> byte_of ct DCMT_MODE_CLOSED_POSITION"
    and "byte_of ct DCMT_MODE_OPEN_LOOP \<noteq> byte_of ct DCMT_MODE_CLOSED_SPEED"
    and "byte_of ct DCMT_MODE_CLOSED_POSITION \<noteq> byte_of ct DCMT_MODE_CLOSED_SPEED"
  using assms by (auto simp: labels_distinct_def)

lemma codec_okD:
  assumes "codec_ok ct" "length (m_data m) \<le> 27"
  shows "crumbs_encode_message ct m \<noteq> []"
    and "length (crumbs_encode_message ct m) \<le> num_of ct CRUMBS_MESSAGE_MAX_SIZE"
    and "crumbs_decode_message ct (crumbs_encode_message ct m) = Inr m"
    and "crumbs_frame_length ct (crumbs_encode_message ct m @ pad) =
           Some (length (crumbs_encode_message ct m))"
    and "num_of ct CRUMBS_MAX_PAYLOAD = 27"
  using assms by (auto simp: codec_ok_def Let_def)

subsection \<open>A concrete instance\<close>

fun sample_byte :: "byte_name \<Rightarrow> u8" where
  "sample_byte RLHT_TYPE_ID = 1"
| "sample_byte DCMT_TYPE_ID = 2"
| "sample_byte RLHT_MODULE_VER_MAJOR = 1"
| "sample_byte DCMT_MODULE_VER_MAJOR = 2"
| "sample_byte RLHT_OP_SET_MODE = 1"
| "sample_byte RLHT_OP_SET_SETPOINTS = 2"
| "sample_byte RLHT_OP_SET_PID = 3"
| "sample_byte RLHT_OP_SET_PERIODS = 4"
| "sample_byte RLHT_OP_SET_TC_SELECT = 5"
| "sample_byte RLHT_OP_SET_OPEN_DUTY = 6"
| "sample_byte RLHT_OP_GET_STATE = 0x80"
| "sample_byte RLHT_MODE_OPEN_LOOP = 1"
| "sample_byte RLHT_FLAG_RELAY1_ON = 1"
| "sample_byte RLHT_FLAG_RELAY2_ON = 2"
| "sample_byte RLHT_FLAG_ESTOP = 4"
| "sample_byte RLHT_CAP_LEVEL_1 = 1"
| "sample_byte DCMT_OP_SET_OPEN_LOOP = 1"
| "sample_byte DCMT_OP_SET_BRAKE = 2"
| "sample_byte DCMT_OP_SET_MODE = 3"
| "sample_byte DCMT_OP_SET_SETPOINT = 4"
| "sample_byte DCMT_OP_SET_PID = 5"
| "sample_byte DCMT_OP_GET_STATE = 0x80"
| "sample_byte DCMT_MODE_CLOSED_POSITION = 1"
| "sample_byte DCMT_MODE_CLOSED_SPEED = 2"
| "sample_byte DCMT_PID_LOOP_SPEED = 1"
| "sample_byte DCMT_CAP_LEVEL_1 = 1"
| "sample_byte DCMT_CAP_LEVEL_3 = 3"
| "sample_byte BREAD_CAPS_SCHEMA_V1 = 1"
| "sample_byte BREAD_OP_GET_CAPS = 0x7F"
| "sample_byte BREAD_OP_GET_WATCHDOG = 0x7E"
| "sample_byte BREAD_OP_SET_WATCHDOG = 0x7D"
| "sample_byte BREAD_OP_CLEAR_WATCHDOG_TRIP = 0x7C"
| "sample_byte BREAD_REFUSE_ESTOP = 1"
| "sample_byte BREAD_REFUSE_WATCHDOG_TRIP = 2"
| "sample_byte BREAD_REFUSE_WRONG_MODE = 3"
| "sample_byte BREAD_REFUSE_MALFORMED = 4"
| "sample_byte BREAD_REFUSE_UNDEFINED_VALUE = 5"
| "sample_byte BREAD_REFUSE_UNKNOWN_OP = 6"
| "sample_byte BREAD_REFUSE_NOT_BUILT = 7"
| "sample_byte CRUMBS_CMD_GET_ACK = 0xFD"
| "sample_byte CRUMBS_ACK_APPLIED = 1"
| "sample_byte CRUMBS_ACK_REFUSED = 2"
| "sample_byte CRUMBS_ACK_REJECTED = 3"
| "sample_byte CRUMBS_ACK_REJECT_NO_HANDLER = 1"
| "sample_byte CRUMBS_ACK_REJECT_TYPE = 2"
| "sample_byte _ = 0"

fun sample_cap :: "cap_name \<Rightarrow> u32" where
  "sample_cap RLHT_CAP_MODE_CONTROL = 0x1"
| "sample_cap RLHT_CAP_SETPOINT_CONTROL = 0x2"
| "sample_cap RLHT_CAP_PID_TUNING = 0x4"
| "sample_cap RLHT_CAP_PERIOD_CONTROL = 0x8"
| "sample_cap RLHT_CAP_TC_SELECT = 0x10"
| "sample_cap RLHT_CAP_OPEN_DUTY_CONTROL = 0x20"
| "sample_cap RLHT_CAP_CMD_WATCHDOG = 0x40"
| "sample_cap RLHT_CAP_CLEAR_WATCHDOG_TRIP = 0x80"
| "sample_cap RLHT_CAP_ESTOP_COUNT = 0x100"
| "sample_cap RLHT_CAP_REFUSES = 0x200"
| "sample_cap RLHT_CAP_BASELINE_FLAGS = 0x3F"
| "sample_cap DCMT_CAP_OPEN_LOOP_CONTROL = 0x1"
| "sample_cap DCMT_CAP_BRAKE_CONTROL = 0x2"
| "sample_cap DCMT_CAP_CLOSED_LOOP_POSITION = 0x4"
| "sample_cap DCMT_CAP_CLOSED_LOOP_SPEED = 0x8"
| "sample_cap DCMT_CAP_PID_TUNING = 0x10"
| "sample_cap DCMT_CAP_CMD_WATCHDOG = 0x40"
| "sample_cap DCMT_CAP_CLEAR_WATCHDOG_TRIP = 0x80"
| "sample_cap DCMT_CAP_REFUSES = 0x100"
| "sample_cap DCMT_CAP_BASELINE_FLAGS = 0x3"

fun sample_num :: "num_name \<Rightarrow> nat" where
  "sample_num RLHT_PERIOD_MIN_MS = 100"
| "sample_num RLHT_PERIOD_MAX_MS = 60000"
| "sample_num RLHT_STATE_OFF_ESTOP_COUNT = 19"
| "sample_num BREAD_WATCHDOG_CLEAR_TRIP_PAYLOAD_LEN = 0"
| "sample_num CRUMBS_VERSION = 1600"
| "sample_num CRUMBS_ACK_MIN_VERSION = 1600"
| "sample_num CRUMBS_ACK_READ_ATTEMPTS = 2"
| "sample_num CRUMBS_MAX_PAYLOAD = 27"
| "sample_num CRUMBS_MESSAGE_MAX_SIZE = 31"

text \<open>A frame of the instance: type id, opcode, length, data and a sum over all of them.\<close>

definition sample_encode :: "crumbs_message \<Rightarrow> bytes" where
  "sample_encode m =
     (if 27 < length (m_data m) then []
      else let body = [m_type_id m, m_opcode m, of_nat (length (m_data m))] @ m_data m
           in body @ [sum_list body])"

definition sample_frame_length :: "bytes \<Rightarrow> nat option" where
  "sample_frame_length bs =
     (case bs of t # c # n # rest \<Rightarrow>
        if unat n \<le> 27 \<and> unat n < length rest then Some (unat n + 4) else None
      | _ \<Rightarrow> None)"

definition sample_decode :: "bytes \<Rightarrow> int + crumbs_message" where
  "sample_decode bs =
     (case bs of t # c # n # rest \<Rightarrow>
        if 27 < unat n \<or> length rest \<noteq> unat n + 1 then Inl (-1)
        else if last rest \<noteq> sum_list (t # c # n # butlast rest) then Inl (-2)
        else Inr \<lparr>m_type_id = t, m_opcode = c, m_data = butlast rest\<rparr>
      | _ \<Rightarrow> Inl (-1))"

definition sample_ack_decode :: "crumbs_message \<Rightarrow> crumbs_ack option" where
  "sample_ack_decode m =
     (if m_opcode m \<noteq> 0xFD then None
      else case m_data m of
        [c, p, s, r] \<Rightarrow> Some \<lparr>ack_counter = c, ack_opcode = p, ack_status = s, ack_reason = r\<rparr>
      | _ \<Rightarrow> None)"

definition sample_ack_classify :: "crumbs_ack \<Rightarrow> crumbs_ack \<Rightarrow> u8 \<Rightarrow> ack_outcome" where
  "sample_ack_classify before after p =
     (if ack_counter after = ack_counter before then
        (if ack_status after = 0 then CRUMBS_RX_ACK_UNKNOWN else CRUMBS_SET_NOT_ADVANCED)
      else if ack_counter after \<noteq> ack_counter before + 1 then CRUMBS_RX_ACK_UNKNOWN
      else if ack_opcode after \<noteq> p then CRUMBS_RX_ACK_MISMATCH
      else if ack_status after = 1 then CRUMBS_SET_APPLIED
      else if ack_status after = 2 then CRUMBS_SET_REFUSED
      else if ack_status after = 3 then CRUMBS_SET_REJECTED
      else CRUMBS_RX_ACK_INVALID)"

definition sample_dcmt_state :: "bytes \<Rightarrow> dcmt_state_result option" where
  "sample_dcmt_state bs =
     (case bs of
        [m, a0, a1, b0, b1, c0, c1, d0, d1, e0, e1, f0, f1, g0, g1, h0, h1, br, es, n] \<Rightarrow>
          Some \<lparr>dr_mode = m, dr_m1_pwm = le_value a0 a1, dr_m2_pwm = le_value b0 b1,
                dr_sp1 = le_value c0 c1, dr_sp2 = le_value d0 d1, dr_pos1 = le_value e0 e1,
                dr_pos2 = le_value f0 f1, dr_spd1 = le_value g0 g1, dr_spd2 = le_value h0 h1,
                dr_brakes = br, dr_estop = es, dr_estop_count = n\<rparr>
      | _ \<Rightarrow> None)"

definition sample_rlht_state :: "bytes \<Rightarrow> rlht_state_result option" where
  "sample_rlht_state bs =
     (case bs of
        m # fl # a0 # a1 # b0 # b1 # c0 # c1 # d0 # d1 # e0 # e1 # f0 # f1 # g0 # g1 # h0 # h1
          # tc # rest \<Rightarrow>
          Some \<lparr>rr_mode = m, rr_flags = fl, rr_t1_deci_c = le_value a0 a1,
                rr_t2_deci_c = le_value b0 b1, rr_sp1_deci_c = le_value c0 c1,
                rr_sp2_deci_c = le_value d0 d1, rr_on1_ms = le_value e0 e1,
                rr_on2_ms = le_value f0 f1, rr_period1_ms = le_value g0 g1,
                rr_period2_ms = le_value h0 h1, rr_tc1 = tc AND 3, rr_tc2 = drop_bit 2 tc AND 3,
                rr_estop_count = (case rest of [] \<Rightarrow> 0 | n # _ \<Rightarrow> n)\<rparr>
      | _ \<Rightarrow> None)"

definition sample_watchdog :: "bytes \<Rightarrow> watchdog_result option" where
  "sample_watchdog bs =
     (case bs of [a, t0, t1, tr, n] \<Rightarrow>
        Some \<lparr>wr_armed = a, wr_timeout_ms = le_value t0 t1, wr_tripped = tr, wr_trip_count = n\<rparr>
      | _ \<Rightarrow> None)"

definition sample_contracts :: contracts where
  "sample_contracts =
     \<lparr>byte_of = sample_byte, cap_of = sample_cap, num_of = sample_num,
      BREAD_INVALID_I16 = 0x8000, bread_is_valid_i16 = (\<lambda>v. v \<noteq> 0x8000),
      bread_parse_version = (\<lambda>bs. case bs of c0 # c1 # mj # mn # pt # _ \<Rightarrow>
          Some (le_value c0 c1, mj, mn, pt) | _ \<Rightarrow> None),
      bread_check_crumbs_compat = (\<lambda>v. 1200 \<le> v),
      bread_check_module_compat = (\<lambda>mj mn emj emn. mj = emj),
      bread_caps_parse_payload = (\<lambda>bs. case bs of s # l # a # b # c # d # _ \<Rightarrow>
          Some (s, l, ucast (le_value a b) OR push_bit 16 (ucast (le_value c d))) | _ \<Rightarrow> None),
      bread_watchdog_parse_payload = sample_watchdog,
      rlht_parse_state_payload = sample_rlht_state,
      dcmt_parse_state_payload = sample_dcmt_state,
      dcmt_set_pid_pack = (\<lambda>p. pid_loop p # concat (map (\<lambda>f. le_bytes (f p))
          [pid_kp1, pid_ki1, pid_kd1, pid_kp2, pid_ki2, pid_kd2])),
      crumbs_encode_message = sample_encode, crumbs_frame_length = sample_frame_length,
      crumbs_decode_message = sample_decode, crumbs_ack_decode = sample_ack_decode,
      crumbs_ack_classify = sample_ack_classify\<rparr>"

lemma sample_simps [simp]:
  "byte_of sample_contracts = sample_byte"
  "cap_of sample_contracts = sample_cap"
  "num_of sample_contracts = sample_num"
  "BREAD_INVALID_I16 sample_contracts = 0x8000"
  "bread_is_valid_i16 sample_contracts v = (v \<noteq> 0x8000)"
  "bread_check_crumbs_compat sample_contracts w = (1200 \<le> w)"
  "bread_check_module_compat sample_contracts mj mn emj emn = (mj = emj)"
  "bread_watchdog_parse_payload sample_contracts = sample_watchdog"
  "rlht_parse_state_payload sample_contracts = sample_rlht_state"
  "dcmt_parse_state_payload sample_contracts = sample_dcmt_state"
  "crumbs_encode_message sample_contracts = sample_encode"
  "crumbs_frame_length sample_contracts = sample_frame_length"
  "crumbs_decode_message sample_contracts = sample_decode"
  "crumbs_ack_decode sample_contracts = sample_ack_decode"
  "crumbs_ack_classify sample_contracts = sample_ack_classify"
  by (simp_all add: sample_contracts_def)

lemma sample_labels_distinct: "labels_distinct sample_contracts"
  by (simp add: labels_distinct_def)

lemma sample_opcodes_ok: "opcodes_ok sample_contracts"
  by (simp add: opcodes_ok_def shared_opcodes_def)

lemma sample_codec_ok: "codec_ok sample_contracts"
proof -
  have len: "unat (of_nat n :: u8) = n" if "n \<le> 27" for n
    using that by (simp add: unat_of_nat)
  show ?thesis
    by (auto simp: codec_ok_def sample_encode_def sample_decode_def sample_frame_length_def
        Let_def len butlast_append add_ac)
qed

lemma sample_ack_ok: "ack_ok sample_contracts"
  by (simp add: ack_ok_def sample_ack_decode_def sample_ack_classify_def)

lemma sample_parsers_ok: "parsers_ok sample_contracts"
  by (simp add: parsers_ok_def sample_dcmt_state_def sample_rlht_state_def sample_watchdog_def
      le_bytes_def le_value_bytes)

end
