(* ===== verification/Provider_Config.thy ===== *)
theory Provider_Config
  imports Prelude
begin

text \<open>
  \<open>src/config/provider_config\<close> and \<open>src/devices/common/device_type.hpp\<close>: the configuration
  types, the conversions between the enumerations and their config text, and \<open>load_config\<close>.
  A thrown \<open>std::runtime_error\<close> is \<open>Inl\<close> of its message.

  yaml-cpp and the SDK's config toolkit are not in the repository. A parsed document is a
  \<open>yaml\<close> value; the file read, the validator bound to \<open>provider_schema()\<close>, the typed
  extraction helpers and \<open>std::filesystem::absolute\<close> are the fields of
  \<open>config_toolkit\<close>.
\<close>

subsection \<open>Types\<close>

datatype device_type = Rlht | Dcmt

datatype discovery_mode = Scan | Manual

datatype outputs_on_startup = Safe | Leave

record device_spec =
  spec_id :: string
  spec_type :: device_type
  spec_label :: string
  spec_address :: int
  spec_command_watchdog_ms :: int
  spec_encoders :: bool

definition default_device_spec :: device_spec where
  "default_device_spec =
     \<lparr>spec_id = [], spec_type = Rlht, spec_label = [], spec_address = 0,
      spec_command_watchdog_ms = 0, spec_encoders = True\<rparr>"

record provider_config =
  config_file_path :: string
  provider_name :: string
  outputs_policy :: outputs_on_startup
  bus_path :: string
  query_delay_us :: int
  timeout_ms :: int
  retry_count :: int
  max_bus_hz :: "u32 option"
  mode_of_discovery :: discovery_mode
  manual_addresses :: "int list"
  config_devices :: "device_spec list"

definition default_provider_config :: provider_config where
  "default_provider_config =
     \<lparr>config_file_path = [], provider_name = ''anolis-provider-bread'', outputs_policy = Safe,
      bus_path = [], query_delay_us = 10000, timeout_ms = 100, retry_count = 2,
      max_bus_hz = None, mode_of_discovery = Manual, manual_addresses = [],
      config_devices = []\<rparr>"

subsection \<open>Enumerations and their text\<close>

definition parse_discovery_mode :: "string \<Rightarrow> string + discovery_mode" where
  "parse_discovery_mode v =
     (if v = ''scan'' then Inr Scan
      else if v = ''manual'' then Inr Manual
      else Inl (''Invalid discovery.mode: '' @ [CHR 0x27] @ v @ [CHR 0x27]))"

definition parse_outputs_on_startup :: "string \<Rightarrow> string + outputs_on_startup" where
  "parse_outputs_on_startup v =
     (if v = ''safe'' then Inr Safe
      else if v = ''leave'' then Inr Leave
      else Inl (''Invalid provider.outputs_on_startup: '' @ [CHR 0x27] @ v @ [CHR 0x27]))"

definition parse_device_type :: "string \<Rightarrow> string + device_type" where
  "parse_device_type v =
     (if v = ''rlht'' then Inr Rlht
      else if v = ''dcmt'' then Inr Dcmt
      else Inl (''Invalid devices[].type: '' @ [CHR 0x27] @ v @ [CHR 0x27]))"

fun discovery_mode_to_string :: "discovery_mode \<Rightarrow> string" where
  "discovery_mode_to_string Scan = ''scan''"
| "discovery_mode_to_string Manual = ''manual''"

fun outputs_on_startup_to_string :: "outputs_on_startup \<Rightarrow> string" where
  "outputs_on_startup_to_string Safe = ''safe''"
| "outputs_on_startup_to_string Leave = ''leave''"

fun device_type_to_string :: "device_type \<Rightarrow> string" where
  "device_type_to_string Rlht = ''rlht''"
| "device_type_to_string Dcmt = ''dcmt''"

text \<open>
  The contract of an enumeration with a config text: the text of a value parses to the value,
  and nothing else does.
\<close>

locale config_enum =
  fixes show_enum :: "'a \<Rightarrow> string"
    and parse_enum :: "string \<Rightarrow> string + 'a"
  assumes parse_show: "parse_enum (show_enum x) = Inr x"
    and show_parse: "parse_enum s = Inr x \<Longrightarrow> s = show_enum x"
begin

lemma show_inj: "show_enum x = show_enum y \<longleftrightarrow> x = y"
  by (metis parse_show sum.inject(2))

lemma parse_iff: "parse_enum s = Inr x \<longleftrightarrow> s = show_enum x"
  using parse_show show_parse by auto

lemma parse_error_iff: "isl (parse_enum s) \<longleftrightarrow> s \<notin> range show_enum"
proof (cases "parse_enum s")
  case (Inl e)
  then have "s \<notin> range show_enum" using parse_show by auto
  with Inl show ?thesis by simp
next
  case (Inr x)
  then have "s = show_enum x" by (rule show_parse)
  with Inr show ?thesis by simp
qed

end

interpretation discovery_enum: config_enum discovery_mode_to_string parse_discovery_mode
proof
  show "parse_discovery_mode (discovery_mode_to_string x) = Inr x" for x
    by (cases x) (simp_all add: parse_discovery_mode_def)
  show "s = discovery_mode_to_string x" if "parse_discovery_mode s = Inr x" for s x
    using that by (auto simp: parse_discovery_mode_def split: if_splits)
qed

interpretation outputs_enum: config_enum outputs_on_startup_to_string parse_outputs_on_startup
proof
  show "parse_outputs_on_startup (outputs_on_startup_to_string x) = Inr x" for x
    by (cases x) (simp_all add: parse_outputs_on_startup_def)
  show "s = outputs_on_startup_to_string x" if "parse_outputs_on_startup s = Inr x" for s x
    using that by (auto simp: parse_outputs_on_startup_def split: if_splits)
qed

interpretation device_type_enum: config_enum device_type_to_string parse_device_type
proof
  show "parse_device_type (device_type_to_string x) = Inr x" for x
    by (cases x) (simp_all add: parse_device_type_def)
  show "s = device_type_to_string x" if "parse_device_type s = Inr x" for s x
    using that by (auto simp: parse_device_type_def split: if_splits)
qed

subsection \<open>Addresses as text\<close>

text \<open>\<open>std::hex\<close> writes a negative \<open>int\<close> as its 32-bit two's complement.\<close>

definition format_i2c_address :: "int \<Rightarrow> string" where
  [text_defs]: "format_i2c_address address =
     ''0x'' @ hex_padded 2 (unat (word_of_int address :: u32))"

subsection \<open>Loading a config\<close>

datatype yaml = YNull | YScalar string | YSeq "yaml list" | YMap "(string \<times> yaml) list"

text \<open>
  A node that a lookup may not find is a \<open>yaml option\<close>: \<open>None\<close> is yaml-cpp's undefined
  node. A mapping has each key once.
\<close>

fun yaml_get :: "yaml \<Rightarrow> string \<Rightarrow> yaml option" where
  "yaml_get (YMap kvs) k = map_of kvs k"
| "yaml_get _ k = None"

definition yaml_at :: "yaml option \<Rightarrow> string \<Rightarrow> yaml option" where
  "yaml_at n k = Option.bind n (\<lambda>y. yaml_get y k)"

fun yaml_remove :: "string \<Rightarrow> yaml \<Rightarrow> yaml" where
  "yaml_remove k (YMap kvs) = YMap (filter (\<lambda>(k', _). k' \<noteq> k) kvs)"
| "yaml_remove k y = y"

record config_toolkit =
  yaml_load_file :: "string \<Rightarrow> string + yaml"
  validate_schema :: "yaml \<Rightarrow> string list"
  format_errors :: "string list \<Rightarrow> string"
  as_string :: "yaml option \<Rightarrow> string option"
  as_int64 :: "yaml option \<Rightarrow> int option"
  as_bool :: "yaml option \<Rightarrow> bool option"
  parse_i2c_address :: "yaml option \<Rightarrow> int option"
  absolute_path :: "string \<Rightarrow> string"

definition drops_encoders :: "yaml \<Rightarrow> bool" where
  "drops_encoders device \<longleftrightarrow>
     yaml_get device ''encoders'' \<noteq> None \<and> yaml_get device ''type'' = Some (YScalar ''rlht'')"

definition drop_device_encoders :: "yaml \<Rightarrow> yaml" where
  "drop_device_encoders device =
     (if drops_encoders device then yaml_remove ''encoders'' device else device)"

fun drop_rlht_encoders :: "yaml \<Rightarrow> yaml" where
  "drop_rlht_encoders (YMap kvs) =
     (case map_of kvs ''devices'' of
        Some (YSeq ds) \<Rightarrow>
          YMap (map (\<lambda>(k, v). if k = ''devices'' then (k, YSeq (map drop_device_encoders ds))
                             else (k, v)) kvs)
      | _ \<Rightarrow> YMap kvs)"
| "drop_rlht_encoders y = y"

text \<open>\<open>static_cast<int>\<close> of an \<open>int64_t\<close>, and one device entry of the document.\<close>

definition int32_of :: "int \<Rightarrow> int" where
  "int32_of v = sint (word_of_int v :: 32 word)"

definition load_device :: "config_toolkit \<Rightarrow> yaml \<Rightarrow> string + device_spec" where
  "load_device tk node =
     (let field = (\<lambda>k. yaml_get node k);
          s0 = default_device_spec;
          s1 = (case as_string tk (field ''id'') of None \<Rightarrow> s0 | Some v \<Rightarrow> s0\<lparr>spec_id := v\<rparr>)
      in case (case as_string tk (field ''type'') of
                 None \<Rightarrow> Inr (spec_type s1) | Some t \<Rightarrow> parse_device_type t) of
           Inl e \<Rightarrow> Inl e
         | Inr t \<Rightarrow>
             let s2 = s1\<lparr>spec_type := t\<rparr>;
                 s3 = s2\<lparr>spec_label := (case as_string tk (field ''label'') of
                                         None \<Rightarrow> spec_id s2 | Some v \<Rightarrow> v)\<rparr>;
                 s4 = (case parse_i2c_address tk (field ''address'') of
                         None \<Rightarrow> s3 | Some a \<Rightarrow> s3\<lparr>spec_address := a\<rparr>);
                 s5 = (case as_int64 tk (field ''command_watchdog_ms'') of
                         None \<Rightarrow> s4 | Some w \<Rightarrow> s4\<lparr>spec_command_watchdog_ms := int32_of w\<rparr>);
                 s6 = (case as_bool tk (field ''encoders'') of
                         None \<Rightarrow> s5 | Some b \<Rightarrow> s5\<lparr>spec_encoders := b\<rparr>)
             in Inr s6)"

fun load_devices :: "config_toolkit \<Rightarrow> yaml list \<Rightarrow> string + device_spec list" where
  "load_devices tk [] = Inr []"
| "load_devices tk (d # ds) =
     (case load_device tk d of
        Inl e \<Rightarrow> Inl e
      | Inr s \<Rightarrow> (case load_devices tk ds of Inl e \<Rightarrow> Inl e | Inr ss \<Rightarrow> Inr (s # ss)))"

definition yaml_items :: "yaml option \<Rightarrow> yaml list" where
  "yaml_items n = (case n of Some (YSeq ys) \<Rightarrow> ys | _ \<Rightarrow> [])"

definition load_hardware :: "config_toolkit \<Rightarrow> yaml option \<Rightarrow> provider_config \<Rightarrow> provider_config" where
  "load_hardware tk hw c0 =
     (let c1 = (case as_string tk (yaml_at hw ''bus_path'') of
                  None \<Rightarrow> c0 | Some v \<Rightarrow> c0\<lparr>bus_path := v\<rparr>);
          c2 = (case as_int64 tk (yaml_at hw ''query_delay_us'') of
                  None \<Rightarrow> c1 | Some v \<Rightarrow> c1\<lparr>query_delay_us := int32_of v\<rparr>);
          c3 = (case as_int64 tk (yaml_at hw ''timeout_ms'') of
                  None \<Rightarrow> c2 | Some v \<Rightarrow> c2\<lparr>timeout_ms := int32_of v\<rparr>);
          c4 = (case as_int64 tk (yaml_at hw ''retry_count'') of
                  None \<Rightarrow> c3 | Some v \<Rightarrow> c3\<lparr>retry_count := int32_of v\<rparr>)
      in case as_int64 tk (yaml_at hw ''max_bus_hz'') of
           None \<Rightarrow> c4 | Some v \<Rightarrow> c4\<lparr>max_bus_hz := Some (word_of_int v)\<rparr>)"

definition load_config :: "config_toolkit \<Rightarrow> string \<Rightarrow> string + provider_config" where
  "load_config tk path =
     (case yaml_load_file tk path of
        Inl what \<Rightarrow> Inl (''Failed to parse config '' @ [CHR 0x27] @ path @ [CHR 0x27] @ '': '' @ what)
      | Inr loaded \<Rightarrow>
          let root = drop_rlht_encoders loaded;
              errors = validate_schema tk root
          in if errors \<noteq> [] then
               Inl (''Invalid config '' @ [CHR 0x27] @ path @ [CHR 0x27, CHR '':'', CHR 0x0A] @
                    format_errors tk errors)
             else
               let c0 = default_provider_config\<lparr>config_file_path := absolute_path tk path\<rparr>;
                   provider = yaml_get root ''provider'';
                   c1 = (case as_string tk (yaml_at provider ''name'') of
                           None \<Rightarrow> c0 | Some v \<Rightarrow> c0\<lparr>provider_name := v\<rparr>)
               in case (case as_string tk (yaml_at provider ''outputs_on_startup'') of
                          None \<Rightarrow> Inr (outputs_policy c1) | Some v \<Rightarrow> parse_outputs_on_startup v) of
                    Inl e \<Rightarrow> Inl e
                  | Inr policy \<Rightarrow>
                      let c2 = load_hardware tk (yaml_get root ''hardware'')
                                 (c1\<lparr>outputs_policy := policy\<rparr>);
                          discovery = yaml_get root ''discovery''
                      in case (case as_string tk (yaml_at discovery ''mode'') of
                                 None \<Rightarrow> Inr (mode_of_discovery c2) | Some v \<Rightarrow> parse_discovery_mode v) of
                           Inl e \<Rightarrow> Inl e
                         | Inr mode \<Rightarrow>
                             let c3 = c2\<lparr>mode_of_discovery := mode,
                                         manual_addresses := List.map_filter
                                           (\<lambda>n. parse_i2c_address tk (Some n))
                                           (yaml_items (yaml_at discovery ''addresses''))\<rparr>
                             in case load_devices tk (yaml_items (yaml_get root ''devices'')) of
                                  Inl e \<Rightarrow> Inl e
                                | Inr specs \<Rightarrow> Inr (c3\<lparr>config_devices := specs\<rparr>))"

fun join_text :: "string \<Rightarrow> string list \<Rightarrow> string" where
  "join_text sep [] = []"
| "join_text sep [s] = s"
| "join_text sep (s # ss) = s @ sep @ join_text sep ss"

definition summarize_config :: "provider_config \<Rightarrow> string" where
  [text_defs]: "summarize_config c =
     ''provider.name='' @ provider_name c @
     '', provider.outputs_on_startup='' @ outputs_on_startup_to_string (outputs_policy c) @
     '', hardware.bus_path='' @ bus_path c @
     '', hardware.query_delay_us='' @ int_to_string (query_delay_us c) @
     '', hardware.timeout_ms='' @ int_to_string (timeout_ms c) @
     '', hardware.retry_count='' @ int_to_string (retry_count c) @
     (case max_bus_hz c of None \<Rightarrow> []
      | Some hz \<Rightarrow> '', hardware.max_bus_hz='' @ nat_to_string (unat hz)) @
     '', discovery.mode='' @ discovery_mode_to_string (mode_of_discovery c) @
     '', devices='' @ nat_to_string (length (config_devices c)) @
     (if mode_of_discovery c = Manual then
        '', discovery.addresses=['' @
        join_text '', '' (map format_i2c_address (manual_addresses c)) @ '']''
      else [])"

subsection \<open>The encoders exception\<close>

lemma map_of_remove_key:
  "map_of (filter (\<lambda>(k', _). k' \<noteq> k) kvs) k' = (if k' = k then None else map_of kvs k')"
  by (induction kvs) auto

lemma yaml_get_remove:
  "yaml_get (yaml_remove k y) k' = (if k' = k then None else yaml_get y k')"
  by (cases y) (auto simp: map_of_remove_key)

lemma drops_encoders_drop [simp]: "\<not> drops_encoders (drop_device_encoders d)"
  by (simp add: drop_device_encoders_def drops_encoders_def yaml_get_remove)

lemma map_of_set_key:
  "map_of (map (\<lambda>(k, v). if k = key then (k, w) else (k, v)) kvs) k' =
     (if k' = key then map_option (\<lambda>_. w) (map_of kvs key) else map_of kvs k')"
  by (induction kvs) auto

lemma yaml_get_drop:
  "yaml_get (drop_rlht_encoders y) k =
     (if k = ''devices'' then
        (case yaml_get y k of Some (YSeq ds) \<Rightarrow> Some (YSeq (map drop_device_encoders ds)) | r \<Rightarrow> r)
      else yaml_get y k)"
  by (cases y) (auto simp: map_of_set_key split: option.splits yaml.splits)

text \<open>\<open>drop_rlht_encoders\<close> removes exactly the \<open>encoders\<close> key of RLHT entries and nothing else.\<close>

lemma drop_rlht_encoders_exact:
  "(\<forall>d \<in> set (yaml_items (yaml_get (drop_rlht_encoders y) ''devices'')). \<not> drops_encoders d) \<and>
   length (yaml_items (yaml_get (drop_rlht_encoders y) ''devices'')) =
     length (yaml_items (yaml_get y ''devices'')) \<and>
   (\<forall>i k. i < length (yaml_items (yaml_get y ''devices'')) \<longrightarrow>
      (let before = yaml_items (yaml_get y ''devices'') ! i;
           after = yaml_items (yaml_get (drop_rlht_encoders y) ''devices'') ! i
       in yaml_get after k =
            (if k = ''encoders'' \<and> yaml_get before ''type'' = Some (YScalar ''rlht'') then None
             else yaml_get before k))) \<and>
   (\<forall>k. k \<noteq> ''devices'' \<longrightarrow> yaml_get (drop_rlht_encoders y) k = yaml_get y k)"
proof -
  have items: "yaml_items (yaml_get (drop_rlht_encoders y) ''devices'') =
      map drop_device_encoders (yaml_items (yaml_get y ''devices''))"
    by (auto simp: yaml_get_drop yaml_items_def split: option.splits yaml.splits)
  have fields: "yaml_get (drop_device_encoders d) k =
      (if k = ''encoders'' \<and> yaml_get d ''type'' = Some (YScalar ''rlht'') then None
       else yaml_get d k)" for d k
    by (auto simp: drop_device_encoders_def drops_encoders_def yaml_get_remove)
  show ?thesis
    unfolding items by (simp add: Let_def fields yaml_get_drop)
qed

subsection \<open>A validated document loads\<close>

text \<open>
  What the schema's \<open>enum_value\<close> declarations make the validator check: a document with no
  errors has, for each of the three enumerations, either no text or one of the declared ones.
\<close>

definition enums_validated :: "config_toolkit \<Rightarrow> bool" where
  "enums_validated tk \<longleftrightarrow>
     (\<forall>y. validate_schema tk y = [] \<longrightarrow>
        (\<forall>v. as_string tk (yaml_at (yaml_get y ''provider'') ''outputs_on_startup'') = Some v \<longrightarrow>
           v \<in> range outputs_on_startup_to_string) \<and>
        (\<forall>v. as_string tk (yaml_at (yaml_get y ''discovery'') ''mode'') = Some v \<longrightarrow>
           v \<in> range discovery_mode_to_string) \<and>
        (\<forall>d \<in> set (yaml_items (yaml_get y ''devices'')).
           \<forall>v. as_string tk (yaml_get d ''type'') = Some v \<longrightarrow> v \<in> range device_type_to_string))"

lemma load_device_Inr:
  assumes "\<And>v. as_string tk (yaml_get d ''type'') = Some v \<Longrightarrow> v \<in> range device_type_to_string"
  obtains s where "load_device tk d = Inr s"
    and "spec_label s = (case as_string tk (yaml_get d ''label'') of None \<Rightarrow> spec_id s | Some v \<Rightarrow> v)"
proof (cases "as_string tk (yaml_get d ''type'')")
  case None
  then show ?thesis
    by (intro that) (auto simp: load_device_def Let_def split: option.splits)
next
  case (Some v)
  with assms obtain t where "parse_device_type v = Inr t"
    using device_type_enum.parse_iff by blast
  with Some show ?thesis
    by (intro that) (auto simp: load_device_def Let_def split: option.splits)
qed

lemma load_devices_Inr:
  assumes "\<forall>d \<in> set ds. \<forall>v. as_string tk (yaml_get d ''type'') = Some v \<longrightarrow>
             v \<in> range device_type_to_string"
  shows "\<exists>ss. load_devices tk ds = Inr ss \<and> list_all2 (\<lambda>d s. load_device tk d = Inr s) ds ss"
  using assms
proof (induction ds)
  case (Cons d ds)
  then obtain ss where "load_devices tk ds = Inr ss" "list_all2 (\<lambda>d s. load_device tk d = Inr s) ds ss"
    by auto
  moreover from Cons.prems obtain s where "load_device tk d = Inr s"
    by (metis list.set_intros(1) load_device_Inr)
  ultimately show ?case by simp
qed simp

text \<open>
  C37: a document that parses and that the validator accepts always loads: the enumeration
  parsers cannot throw after validation, and there is one device per entry of \<open>devices\<close>, in
  order.
\<close>

theorem load_config_after_validation:
  assumes "enums_validated tk"
    and "yaml_load_file tk path = Inr y"
    and "validate_schema tk (drop_rlht_encoders y) = []"
  shows "\<exists>c. load_config tk path = Inr c \<and>
     list_all2 (\<lambda>d s. load_device tk d = Inr s)
       (yaml_items (yaml_get (drop_rlht_encoders y) ''devices'')) (config_devices c)"
proof -
  let ?r = "drop_rlht_encoders y"
  from assms(1,3) have
      out: "\<And>v. as_string tk (yaml_at (yaml_get ?r ''provider'') ''outputs_on_startup'') = Some v \<Longrightarrow>
             v \<in> range outputs_on_startup_to_string"
    and mode: "\<And>v. as_string tk (yaml_at (yaml_get ?r ''discovery'') ''mode'') = Some v \<Longrightarrow>
             v \<in> range discovery_mode_to_string"
    and dev: "\<forall>d \<in> set (yaml_items (yaml_get ?r ''devices'')).
             \<forall>v. as_string tk (yaml_get d ''type'') = Some v \<longrightarrow> v \<in> range device_type_to_string"
    unfolding enums_validated_def by blast+
  from load_devices_Inr [OF dev] obtain ss
    where ss: "load_devices tk (yaml_items (yaml_get ?r ''devices'')) = Inr ss"
      "list_all2 (\<lambda>d s. load_device tk d = Inr s) (yaml_items (yaml_get ?r ''devices'')) ss"
    by blast
  show ?thesis
    using assms(2,3) ss out mode
    by (auto simp: load_config_def Let_def outputs_enum.parse_show discovery_enum.parse_show
        split: option.splits sum.splits)
qed

text \<open>A toolkit over documents of scalars that checks the enumerations, for the witness.\<close>

definition sample_text :: "yaml option \<Rightarrow> string option" where
  "sample_text n = (case n of Some (YScalar s) \<Rightarrow> Some s | _ \<Rightarrow> None)"

definition sample_validate :: "yaml \<Rightarrow> string list" where
  "sample_validate y =
     (if case_option True (\<lambda>v. v = ''safe'' \<or> v = ''leave'')
           (sample_text (yaml_at (yaml_get y ''provider'') ''outputs_on_startup'')) \<and>
         case_option True (\<lambda>v. v = ''scan'' \<or> v = ''manual'')
           (sample_text (yaml_at (yaml_get y ''discovery'') ''mode'')) \<and>
         list_all (\<lambda>d. case_option True (\<lambda>v. v = ''rlht'' \<or> v = ''dcmt'')
           (sample_text (yaml_get d ''type''))) (yaml_items (yaml_get y ''devices''))
      then [] else [''unknown enum value''])"

definition sample_document :: yaml where
  "sample_document =
     YMap [(''discovery'', YMap [(''mode'', YScalar ''scan'')]),
           (''devices'', YSeq [YMap [(''id'', YScalar ''h0''), (''type'', YScalar ''rlht''),
                                     (''encoders'', YScalar ''true'')],
                               YMap [(''id'', YScalar ''m0''), (''type'', YScalar ''dcmt'')]])]"

definition sample_toolkit :: config_toolkit where
  "sample_toolkit =
     \<lparr>yaml_load_file = (\<lambda>_. Inr sample_document), validate_schema = sample_validate,
      format_errors = concat, as_string = sample_text, as_int64 = (\<lambda>_. None),
      as_bool = (\<lambda>_. None), parse_i2c_address = (\<lambda>_. None), absolute_path = (\<lambda>p. p)\<rparr>"

lemma sample_enums_validated: "enums_validated sample_toolkit"
proof -
  have "range outputs_on_startup_to_string = {''safe'', ''leave''}"
    by (auto simp: image_iff) (metis outputs_on_startup.exhaust outputs_on_startup_to_string.simps)+
  moreover have "range discovery_mode_to_string = {''scan'', ''manual''}"
    by (auto simp: image_iff) (metis discovery_mode.exhaust discovery_mode_to_string.simps)+
  moreover have "range device_type_to_string = {''rlht'', ''dcmt''}"
    by (auto simp: image_iff) (metis device_type.exhaust device_type_to_string.simps)+
  ultimately show ?thesis
    by (auto simp: enums_validated_def sample_toolkit_def sample_validate_def list_all_iff
        split: option.splits if_splits)
qed

theorem load_config_after_validation_witness:
  "\<exists>c. load_config sample_toolkit ''bread.yaml'' = Inr c \<and>
     list_all2 (\<lambda>d s. load_device sample_toolkit d = Inr s)
       (yaml_items (yaml_get (drop_rlht_encoders sample_document) ''devices'')) (config_devices c)"
proof (rule load_config_after_validation [OF sample_enums_validated])
  show "yaml_load_file sample_toolkit ''bread.yaml'' = Inr sample_document"
    by (simp add: sample_toolkit_def)
  show "validate_schema sample_toolkit (drop_rlht_encoders sample_document) = []"
    by (simp add: sample_toolkit_def sample_validate_def sample_document_def sample_text_def
        yaml_at_def yaml_items_def drop_device_encoders_def drops_encoders_def)
qed

end
