(* ===== verification/Crumbs_Session.thy ===== *)
theory Crumbs_Session
  imports Provider_Config
begin

text \<open>
  \<open>src/crumbs/session\<close>: the serialized CRUMBS session over a transport. The transport is an
  abstract class with several implementations (and fakes in the tests), so it is a record of
  operations on a state \<open>'w\<close> that stands for the transport and the bus behind it; the
  clocks of \<open>std::chrono\<close> read the same state. A session operation takes the session and
  returns its result with the new session; an out parameter is passed in and returned.

  The session mutex is held for the whole of each public operation, so each definition below
  is one atomic step of a concurrent run. Log lines are not modelled.
\<close>

subsection \<open>Codes, statuses, frames\<close>

definition kSetReplyOpcode :: u8 where "kSetReplyOpcode = 0xFE"
definition kMaxPayloadBytes :: nat where "kMaxPayloadBytes = 27"
definition kMinI2cAddress :: u8 where "kMinI2cAddress = 0x08"
definition kMaxI2cAddress :: u8 where "kMaxI2cAddress = 0x77"

datatype session_error_code =
    Ok | InvalidArgument | NotOpen | AlreadyOpen | OpenFailed | ScanFailed | WriteFailed
  | ReadFailed | Timeout | DecodeFailed | TransportError

record session_status =
  st_code :: session_error_code
  st_message :: string
  st_native_code :: int
  st_attempts :: int

definition status_ok :: "session_status \<Rightarrow> bool" where
  "status_ok st \<longleftrightarrow> st_code st = Ok"

definition success :: session_status where
  "success = \<lparr>st_code = Ok, st_message = [], st_native_code = 0, st_attempts = 0\<rparr>"

definition failure :: "session_error_code \<Rightarrow> string \<Rightarrow> int \<Rightarrow> session_status" where
  "failure code message native =
     \<lparr>st_code = code, st_message = message, st_native_code = native, st_attempts = 0\<rparr>"

record raw_frame =
  fr_type_id :: u8
  fr_opcode :: u8
  fr_payload :: bytes

definition empty_frame :: raw_frame where
  "empty_frame = \<lparr>fr_type_id = 0, fr_opcode = 0, fr_payload = []\<rparr>"

record scan_result =
  sr_address :: u8
  sr_has_type_id :: bool
  sr_type_id :: u8

record address_stats =
  n_ok :: u64
  n_failed :: u64
  n_retried_attempts :: u64
  n_rejected :: u64
  has_success :: bool
  last_success :: int

definition zero_stats :: address_stats where
  "zero_stats = \<lparr>n_ok = 0, n_failed = 0, n_retried_attempts = 0, n_rejected = 0,
                 has_success = False, last_success = 0\<rparr>"

record session_options =
  opt_bus_path :: string
  opt_query_delay_us :: u32
  opt_timeout_ms :: u32
  opt_retry_count :: int

record scan_options =
  start_address :: u8
  end_address :: u8
  strict :: bool
  max_results :: nat

definition default_scan_options :: scan_options where
  "default_scan_options =
     \<lparr>start_address = kMinI2cAddress, end_address = kMaxI2cAddress, strict = False, max_results = 32\<rparr>"

text \<open>The transport's virtual functions, and the two clocks.\<close>

record 'w transport =
  tr_open :: "session_options \<Rightarrow> 'w \<Rightarrow> session_status \<times> 'w"
  tr_close :: "'w \<Rightarrow> 'w"
  tr_is_open :: "'w \<Rightarrow> bool"
  tr_scan :: "scan_options \<Rightarrow> scan_result list \<Rightarrow> 'w \<Rightarrow> session_status \<times> scan_result list \<times> 'w"
  tr_send :: "u8 \<Rightarrow> raw_frame \<Rightarrow> 'w \<Rightarrow> session_status \<times> 'w"
  tr_read :: "u8 \<Rightarrow> u32 \<Rightarrow> raw_frame \<Rightarrow> 'w \<Rightarrow> session_status \<times> raw_frame \<times> 'w"
  tr_delay_us :: "u32 \<Rightarrow> 'w \<Rightarrow> 'w"
  system_now :: "'w \<Rightarrow> int"
  steady_now :: "'w \<Rightarrow> int"

record 'w session =
  s_transport :: 'w
  s_options :: session_options
  s_stats :: "u8 \<rightharpoonup> address_stats"
  s_last_op_failed :: "u8 set"
  s_recovery_pending :: "u8 set"

definition new_session :: "'w \<Rightarrow> session_options \<Rightarrow> 'w session" where
  "new_session w opts =
     \<lparr>s_transport = w, s_options = opts, s_stats = Map.empty, s_last_op_failed = {},
      s_recovery_pending = {}\<rparr>"

subsection \<open>The retry loop\<close>

definition ETIMEDOUT :: int where "ETIMEDOUT = 110"

fun is_retryable :: "session_error_code \<Rightarrow> bool" where
  "is_retryable ScanFailed = True"
| "is_retryable WriteFailed = True"
| "is_retryable ReadFailed = True"
| "is_retryable Timeout = True"
| "is_retryable DecodeFailed = True"
| "is_retryable TransportError = True"
| "is_retryable Ok = False"
| "is_retryable InvalidArgument = False"
| "is_retryable NotOpen = False"
| "is_retryable AlreadyOpen = False"
| "is_retryable OpenFailed = False"

fun session_error_to_string :: "session_error_code \<Rightarrow> string" where
  "session_error_to_string Ok = ''ok''"
| "session_error_to_string InvalidArgument = ''invalid_argument''"
| "session_error_to_string NotOpen = ''not_open''"
| "session_error_to_string AlreadyOpen = ''already_open''"
| "session_error_to_string OpenFailed = ''open_failed''"
| "session_error_to_string ScanFailed = ''scan_failed''"
| "session_error_to_string WriteFailed = ''write_failed''"
| "session_error_to_string ReadFailed = ''read_failed''"
| "session_error_to_string Timeout = ''timeout''"
| "session_error_to_string DecodeFailed = ''decode_failed''"
| "session_error_to_string TransportError = ''transport_error''"

text \<open>
  \<open>retry_count + 1\<close> is an addition of 32-bit \<open>int\<close>s; outside their range it is
  undefined behaviour in C++, taken here as two's complement. That is the count \<open>INT_MAX\<close>, which the
  schema admits, alone; no property rests on it.
\<close>

definition max_attempts :: "session_options \<Rightarrow> int" where
  "max_attempts opts = max 1 (int32_of (opt_retry_count opts + 1))"

definition gives_up :: "session_status \<Rightarrow> bool" where
  "gives_up st \<longleftrightarrow> \<not> is_retryable (st_code st) \<or> st_native_code st = ETIMEDOUT"

function retry_loop ::
  "int \<Rightarrow> ('s \<Rightarrow> session_status \<times> 's) \<Rightarrow> int \<Rightarrow> session_status \<Rightarrow> 's \<Rightarrow> session_status \<times> 's" where
  "retry_loop max_n fn attempt prev s =
     (if attempt \<le> max_n then
        (let (st, s') = fn s; cur = st\<lparr>st_attempts := attempt\<rparr> in
         if status_ok cur then (cur, s')
         else if gives_up cur \<or> attempt = max_n then (cur, s')
         else retry_loop max_n fn (attempt + 1) cur s')
      else (prev, s))"
  by pat_completeness auto
termination
  by (relation "measure (\<lambda>(max_n, fn, attempt, prev, s). nat (max_n + 1 - attempt))") auto

declare retry_loop.simps [simp del]

definition execute_with_retry ::
  "session_options \<Rightarrow> string \<Rightarrow> ('s \<Rightarrow> session_status \<times> 's) \<Rightarrow> 's \<Rightarrow> session_status \<times> 's" where
  "execute_with_retry opts operation fn s =
     retry_loop (max_attempts opts) fn 1
       (failure TransportError (operation @ '' did not run'') 0) s"

subsection \<open>Statistics and the recovery flag\<close>

definition stats_of :: "'w session \<Rightarrow> u8 \<Rightarrow> address_stats" where
  "stats_of ss a = (case s_stats ss a of None \<Rightarrow> zero_stats | Some st \<Rightarrow> st)"

definition stats_for :: "'w session \<Rightarrow> u8 \<Rightarrow> address_stats" where
  "stats_for ss a = stats_of ss a"

definition record_rejection :: "u8 \<Rightarrow> 'w session \<Rightarrow> 'w session" where
  "record_rejection a ss =
     ss\<lparr>s_stats := (s_stats ss)(a \<mapsto> (stats_of ss a)\<lparr>n_rejected := n_rejected (stats_of ss a) + 1\<rparr>)\<rparr>"

definition record_outcome ::
  "'w transport \<Rightarrow> u8 \<Rightarrow> session_status \<Rightarrow> 'w session \<Rightarrow> 'w session" where
  "record_outcome tr a st ss =
     (let stats0 = stats_of ss a;
          stats1 = (if 1 < st_attempts st
                    then stats0\<lparr>n_retried_attempts :=
                           n_retried_attempts stats0 + word_of_int (st_attempts st - 1)\<rparr>
                    else stats0)
      in if status_ok st then
           let stats2 = stats1\<lparr>n_ok := n_ok stats1 + 1, has_success := True,
                               last_success := system_now tr (s_transport ss)\<rparr>;
               ss' = ss\<lparr>s_stats := (s_stats ss)(a \<mapsto> stats2)\<rparr>
           in if a \<in> s_last_op_failed ss
              then ss'\<lparr>s_last_op_failed := s_last_op_failed ss - {a},
                       s_recovery_pending := insert a (s_recovery_pending ss)\<rparr>
              else ss'
         else
           ss\<lparr>s_stats := (s_stats ss)(a \<mapsto> stats1\<lparr>n_failed := n_failed stats1 + 1\<rparr>),
              s_last_op_failed := insert a (s_last_op_failed ss)\<rparr>)"

definition take_recovery :: "u8 \<Rightarrow> 'w session \<Rightarrow> bool \<times> 'w session" where
  "take_recovery a ss =
     (a \<in> s_recovery_pending ss, ss\<lparr>s_recovery_pending := s_recovery_pending ss - {a}\<rparr>)"

definition last_op_failed :: "'w session \<Rightarrow> u8 \<Rightarrow> bool" where
  "last_op_failed ss a \<longleftrightarrow> a \<in> s_last_op_failed ss"

subsection \<open>Validation\<close>

definition validate_open_options :: "session_options \<Rightarrow> session_status" where
  "validate_open_options opts =
     (if opt_bus_path opts = [] then
        failure InvalidArgument ''session bus_path must not be empty'' 0
      else if opt_retry_count opts < 0 then
        failure InvalidArgument ''session retry_count must be non-negative'' 0
      else success)"

definition validate_scan_options :: "scan_options \<Rightarrow> session_status" where
  "validate_scan_options o' =
     (if start_address o' < kMinI2cAddress \<or> kMaxI2cAddress < start_address o' then
        failure InvalidArgument ''scan start_address is outside the supported I2C range'' 0
      else if end_address o' < kMinI2cAddress \<or> kMaxI2cAddress < end_address o' then
        failure InvalidArgument ''scan end_address is outside the supported I2C range'' 0
      else if end_address o' < start_address o' then
        failure InvalidArgument ''scan start_address must be <= end_address'' 0
      else if max_results o' = 0 then
        failure InvalidArgument ''scan max_results must be greater than zero'' 0
      else success)"

definition validate_address :: "u8 \<Rightarrow> session_status" where
  "validate_address a =
     (if a < kMinI2cAddress \<or> kMaxI2cAddress < a then
        failure InvalidArgument ''I2C address is outside the supported range'' 0
      else success)"

definition session_validate_frame :: "raw_frame \<Rightarrow> session_status" where
  "session_validate_frame frame =
     (if kMaxPayloadBytes < length (fr_payload frame) then
        failure InvalidArgument ''CRUMBS payload exceeds 27 byte maximum'' 0
      else success)"

definition not_open :: session_status where
  "not_open = failure NotOpen ''CRUMBS session is not open'' 0"

subsection \<open>The operations\<close>

definition session_is_open :: "'w transport \<Rightarrow> 'w session \<Rightarrow> bool" where
  "session_is_open tr ss = tr_is_open tr (s_transport ss)"

definition session_open :: "'w transport \<Rightarrow> 'w session \<Rightarrow> session_status \<times> 'w session" where
  "session_open tr ss =
     (if tr_is_open tr (s_transport ss) then
        (failure AlreadyOpen ''CRUMBS session is already open'' 0, ss)
      else
        let v = validate_open_options (s_options ss) in
        if \<not> status_ok v then (v, ss)
        else let (st, w) = tr_open tr (s_options ss) (s_transport ss)
             in (st\<lparr>st_attempts := 1\<rparr>, ss\<lparr>s_transport := w\<rparr>))"

definition session_close :: "'w transport \<Rightarrow> 'w session \<Rightarrow> 'w session" where
  "session_close tr ss = ss\<lparr>s_transport := tr_close tr (s_transport ss)\<rparr>"

definition session_scan ::
  "'w transport \<Rightarrow> scan_options \<Rightarrow> scan_result list \<Rightarrow> 'w session \<Rightarrow>
   session_status \<times> scan_result list \<times> 'w session" where
  "session_scan tr o' out ss =
     (let v = validate_scan_options o' in
      if \<not> status_ok v then (v, out, ss)
      else if \<not> tr_is_open tr (s_transport ss) then (not_open, out, ss)
      else let (st, (out', w)) =
             execute_with_retry (s_options ss) ''scan''
               (\<lambda>(out, w). tr_scan tr o' out w) ([], s_transport ss)
           in (st, out', ss\<lparr>s_transport := w\<rparr>))"

definition session_send ::
  "'w transport \<Rightarrow> u8 \<Rightarrow> raw_frame \<Rightarrow> 'w session \<Rightarrow> session_status \<times> 'w session" where
  "session_send tr a frame ss =
     (let va = validate_address a; vf = session_validate_frame frame in
      if \<not> status_ok va then (va, ss)
      else if \<not> status_ok vf then (vf, ss)
      else if \<not> tr_is_open tr (s_transport ss) then (not_open, ss)
      else let (st, w) = execute_with_retry (s_options ss) ''send'' (tr_send tr a frame) (s_transport ss)
           in (st, record_outcome tr a st (ss\<lparr>s_transport := w\<rparr>)))"

definition read_timeout_us :: "session_options \<Rightarrow> u32" where
  "read_timeout_us opts =
     (if UINT32_MAX div 1000 < opt_timeout_ms opts then UINT32_MAX else opt_timeout_ms opts * 1000)"

definition session_read ::
  "'w transport \<Rightarrow> u8 \<Rightarrow> raw_frame \<Rightarrow> 'w session \<Rightarrow> session_status \<times> raw_frame \<times> 'w session" where
  "session_read tr a frame ss =
     (let va = validate_address a in
      if \<not> status_ok va then (va, frame, ss)
      else if \<not> tr_is_open tr (s_transport ss) then (not_open, frame, ss)
      else let (st, (frame', w)) =
             execute_with_retry (s_options ss) ''read''
               (\<lambda>(f, w). tr_read tr a (read_timeout_us (s_options ss)) f w) (frame, s_transport ss)
           in (st, frame', record_outcome tr a st (ss\<lparr>s_transport := w\<rparr>)))"

definition query_frame :: "u8 \<Rightarrow> raw_frame" where
  "query_frame reply_opcode =
     \<lparr>fr_type_id = 0, fr_opcode = kSetReplyOpcode, fr_payload = [reply_opcode]\<rparr>"

text \<open>One attempt of \<open>query_read\<close>: send SET_REPLY, wait, read.\<close>

definition query_attempt ::
  "'w transport \<Rightarrow> session_options \<Rightarrow> u8 \<Rightarrow> u8 \<Rightarrow> raw_frame \<times> 'w \<Rightarrow> session_status \<times> raw_frame \<times> 'w" where
  "query_attempt tr opts a reply_opcode = (\<lambda>(out, w).
     let (st, w1) = tr_send tr a (query_frame reply_opcode) w in
     if \<not> status_ok st then (st, out, w1)
     else tr_read tr a (read_timeout_us opts) out (tr_delay_us tr (opt_query_delay_us opts) w1))"

definition query_read ::
  "'w transport \<Rightarrow> u8 \<Rightarrow> u8 \<Rightarrow> raw_frame \<Rightarrow> 'w session \<Rightarrow> session_status \<times> raw_frame \<times> 'w session" where
  "query_read tr a reply_opcode out ss =
     (let va = validate_address a in
      if \<not> status_ok va then (va, out, ss)
      else if \<not> tr_is_open tr (s_transport ss) then (not_open, out, ss)
      else let (st, (out', w)) =
             execute_with_retry (s_options ss) ''query_read''
               (query_attempt tr (s_options ss) a reply_opcode) (out, s_transport ss)
           in (st, out', record_outcome tr a st (ss\<lparr>s_transport := w\<rparr>)))"

definition make_session_options :: "provider_config \<Rightarrow> session_options" where
  "make_session_options c =
     \<lparr>opt_bus_path = bus_path c, opt_query_delay_us = word_of_int (query_delay_us c),
      opt_timeout_ms = word_of_int (timeout_ms c), opt_retry_count = retry_count c\<rparr>"

subsection \<open>The retry loop runs a bounded prefix of the attempts\<close>

lemmas validation_defs =
  validate_address_def session_validate_frame_def validate_open_options_def
  validate_scan_options_def not_open_def failure_def success_def

lemma status_ok_simps [simp]:
  "status_ok (st\<lparr>st_attempts := n\<rparr>) = status_ok st"
  "gives_up (st\<lparr>st_attempts := n\<rparr>) = gives_up st"
  "status_ok success" "\<not> status_ok not_open"
  by (simp_all add: status_ok_def gives_up_def validation_defs)

lemma status_ok_failure [simp]: "status_ok (failure code msg n) \<longleftrightarrow> code = Ok"
  by (simp add: status_ok_def failure_def)

lemma max_attempts_pos [simp]: "1 \<le> max_attempts opts"
  by (simp add: max_attempts_def)

text \<open>The state before the attempt with index \<open>k\<close> (from 0).\<close>

definition state_before :: "('s \<Rightarrow> session_status \<times> 's) \<Rightarrow> nat \<Rightarrow> 's \<Rightarrow> 's" where
  "state_before fn k s = ((\<lambda>s. snd (fn s)) ^^ k) s"

lemma state_before_simps [simp]:
  "state_before fn 0 s = s"
  "state_before fn (Suc k) s = state_before fn k (snd (fn s))"
  by (simp_all add: state_before_def funpow_Suc_right del: funpow.simps)

lemma retry_loop_spec:
  assumes "attempt \<le> max_n"
  shows "\<exists>k. attempt + int k \<le> max_n \<and>
     (\<forall>j < k. let st = fst (fn (state_before fn j s)) in \<not> status_ok st \<and> \<not> gives_up st) \<and>
     (let r = fn (state_before fn k s) in
        retry_loop max_n fn attempt prev s = ((fst r)\<lparr>st_attempts := attempt + int k\<rparr>, snd r) \<and>
        (status_ok (fst r) \<or> gives_up (fst r) \<or> attempt + int k = max_n))"
  using assms
proof (induction max_n fn attempt prev s rule: retry_loop.induct)
  case (1 max_n fn attempt prev s)
  obtain st s' where fn: "fn s = (st, s')" by fastforce
  show ?case
  proof (cases "status_ok st \<or> gives_up st \<or> attempt = max_n")
    case True
    with "1.prems" show ?thesis
      by (intro exI [of _ 0]) (auto simp: retry_loop.simps [of max_n fn attempt] fn Let_def)
  next
    case False
    with "1.prems" have less: "attempt + 1 \<le> max_n" by simp
    from "1.IH" [OF "1.prems" fn [symmetric] refl] False less
    obtain k where k: "attempt + 1 + int k \<le> max_n"
      "\<forall>j < k. let st = fst (fn (state_before fn j s')) in \<not> status_ok st \<and> \<not> gives_up st"
      "let r = fn (state_before fn k s') in
        retry_loop max_n fn (attempt + 1) (st\<lparr>st_attempts := attempt\<rparr>) s' =
          ((fst r)\<lparr>st_attempts := attempt + 1 + int k\<rparr>, snd r) \<and>
        (status_ok (fst r) \<or> gives_up (fst r) \<or> attempt + 1 + int k = max_n)"
      by auto
    have loop: "retry_loop max_n fn attempt prev s =
        retry_loop max_n fn (attempt + 1) (st\<lparr>st_attempts := attempt\<rparr>) s'"
      using False "1.prems" by (subst retry_loop.simps) (simp add: fn)
    show ?thesis
    proof (intro exI [of _ "Suc k"] conjI)
      show "attempt + int (Suc k) \<le> max_n" using k(1) by simp
      show "\<forall>j < Suc k. let st = fst (fn (state_before fn j s)) in \<not> status_ok st \<and> \<not> gives_up st"
        using k(2) False by (auto simp: less_Suc_eq_0_disj fn Let_def)
      show "let r = fn (state_before fn (Suc k) s) in
          retry_loop max_n fn attempt prev s =
            ((fst r)\<lparr>st_attempts := attempt + int (Suc k)\<rparr>, snd r) \<and>
          (status_ok (fst r) \<or> gives_up (fst r) \<or> attempt + int (Suc k) = max_n)"
        using k(3) by (simp add: loop fn Let_def add.assoc)
    qed
  qed
qed

lemma execute_with_retry_run:
  "\<exists>k. int k < max_attempts opts \<and>
     (\<forall>j < k. let st = fst (fn (state_before fn j s)) in \<not> status_ok st \<and> \<not> gives_up st) \<and>
     (let r = fn (state_before fn k s) in
        execute_with_retry opts operation fn s = ((fst r)\<lparr>st_attempts := 1 + int k\<rparr>, snd r) \<and>
        (status_ok (fst r) \<or> gives_up (fst r) \<or> 1 + int k = max_attempts opts))"
proof -
  from retry_loop_spec [of 1 "max_attempts opts" fn s
      "failure TransportError (operation @ '' did not run'') 0"]
  obtain k where "1 + int k \<le> max_attempts opts" and k:
    "\<forall>j < k. let st = fst (fn (state_before fn j s)) in \<not> status_ok st \<and> \<not> gives_up st"
    "let r = fn (state_before fn k s) in
        execute_with_retry opts operation fn s = ((fst r)\<lparr>st_attempts := 1 + int k\<rparr>, snd r) \<and>
        (status_ok (fst r) \<or> gives_up (fst r) \<or> 1 + int k = max_attempts opts)"
    unfolding execute_with_retry_def by auto
  then have "int k < max_attempts opts" by linarith
  with k show ?thesis by blast
qed

lemma execute_with_retry_cases:
  obtains k where "int k < max_attempts opts"
    and "\<forall>j < k. \<not> status_ok (fst (fn (state_before fn j s))) \<and>
                \<not> gives_up (fst (fn (state_before fn j s)))"
    and "execute_with_retry opts operation fn s =
           ((fst (fn (state_before fn k s)))\<lparr>st_attempts := 1 + int k\<rparr>, snd (fn (state_before fn k s)))"
    and "status_ok (fst (fn (state_before fn k s))) \<or> gives_up (fst (fn (state_before fn k s))) \<or>
         1 + int k = max_attempts opts"
  using execute_with_retry_run [of opts fn s operation] unfolding Let_def by metis

text \<open>
  C11: \<open>execute_with_retry\<close> runs the operation on successive states and returns the result of
  the first attempt that succeeds, or fails with an error that is not retried (an argument or
  state error, or a bus ETIMEDOUT), or is the last of \<open>max(1, retry_count + 1)\<close> attempts;
  every attempt before it failed with a retryable error, and the status carries the number of
  attempts made.
\<close>

theorem execute_with_retry_spec:
  "\<exists>k. int k < max_attempts opts \<and>
     (\<forall>j < k. let st = fst (fn (state_before fn j s)) in \<not> status_ok st \<and> \<not> gives_up st) \<and>
     (let r = fn (state_before fn k s) in
        execute_with_retry opts operation fn s = ((fst r)\<lparr>st_attempts := 1 + int k\<rparr>, snd r) \<and>
        (status_ok (fst r) \<or> gives_up (fst r) \<or> 1 + int k = max_attempts opts))"
  by (rule execute_with_retry_run)

lemma int32_of_id: "- 2147483648 \<le> v \<Longrightarrow> v \<le> INT_MAX \<Longrightarrow> int32_of v = v"
  by (simp add: int32_of_def int_word_sint)

lemma max_attempts_eq: "0 \<le> opt_retry_count opts \<Longrightarrow> opt_retry_count opts < INT_MAX \<Longrightarrow> max_attempts opts = opt_retry_count opts + 1"
  by (simp add: max_attempts_def int32_of_id)

text \<open>A transport whose first \<open>n\<close> sends fail with the given code and errno, for the witnesses.\<close>

definition flaky_transport :: "session_error_code \<Rightarrow> int \<Rightarrow> nat transport" where
  "flaky_transport code errno =
     \<lparr>tr_open = (\<lambda>_ n. (success, n)), tr_close = (\<lambda>n. n), tr_is_open = (\<lambda>_. True),
      tr_scan = (\<lambda>_ out n. (success, out, n)),
      tr_send = (\<lambda>_ _ n. if n = 0 then (success, 0) else (failure code ''io'' errno, n - 1)),
      tr_read = (\<lambda>_ _ f n. (success, f, n)), tr_delay_us = (\<lambda>_ n. n),
      system_now = (\<lambda>n. int n), steady_now = (\<lambda>n. int n)\<rparr>"

definition sample_options :: session_options where
  "sample_options = \<lparr>opt_bus_path = ''mock://t'', opt_query_delay_us = 10000,
     opt_timeout_ms = 100, opt_retry_count = 2\<rparr>"

lemma max_attempts_sample [simp]: "max_attempts sample_options = 3"
  by (simp add: max_attempts_def sample_options_def int32_of_id)

theorem execute_with_retry_spec_witness:
  "st_attempts (fst (execute_with_retry sample_options ''send''
     (tr_send (flaky_transport WriteFailed 5) 8 empty_frame) 2)) \<le> 3"
proof -
  from execute_with_retry_spec [of sample_options "tr_send (flaky_transport WriteFailed 5) 8 empty_frame"
      2 "''send''"]
  obtain k where "int k < 3" "execute_with_retry sample_options ''send''
      (tr_send (flaky_transport WriteFailed 5) 8 empty_frame) 2 =
      ((fst (tr_send (flaky_transport WriteFailed 5) 8 empty_frame
          (state_before (tr_send (flaky_transport WriteFailed 5) 8 empty_frame) k 2)))
        \<lparr>st_attempts := 1 + int k\<rparr>,
       snd (tr_send (flaky_transport WriteFailed 5) 8 empty_frame
          (state_before (tr_send (flaky_transport WriteFailed 5) 8 empty_frame) k 2)))"
    by (auto simp: Let_def)
  then show ?thesis by simp
qed

subsection \<open>Timeouts in microseconds saturate\<close>

text \<open>The read timeout in microseconds, capped at the largest 32-bit value.\<close>

lemma read_timeout_saturates:
  "unat (read_timeout_us opts) = min (unat (opt_timeout_ms opts) * 1000) 4294967295"
proof -
  have bound: "unat (opt_timeout_ms opts) < 4294967296"
    using unsigned_less [of "opt_timeout_ms opts"] by simp
  have "(4294967 < opt_timeout_ms opts) = (4294967 < unat (opt_timeout_ms opts))"
    by (simp add: word_less_nat_alt)
  then show ?thesis
    using bound by (auto simp: read_timeout_us_def unat_word_ariths min_def)
qed

subsection \<open>Every operation that reaches the transport is counted once\<close>

text \<open>
  What one completed operation with final status \<open>st\<close> does to the session's bookkeeping of
  the address \<open>a\<close>, and that it leaves every other address alone.
\<close>

definition counted_once :: "u8 \<Rightarrow> session_status \<Rightarrow> 'w session \<Rightarrow> 'w session \<Rightarrow> bool" where
  "counted_once a st ss ss' \<longleftrightarrow>
     s_options ss' = s_options ss \<and>
     (\<forall>b. b \<noteq> a \<longrightarrow> s_stats ss' b = s_stats ss b \<and>
        (b \<in> s_last_op_failed ss' \<longleftrightarrow> b \<in> s_last_op_failed ss) \<and>
        (b \<in> s_recovery_pending ss' \<longleftrightarrow> b \<in> s_recovery_pending ss)) \<and>
     n_ok (stats_for ss' a) = n_ok (stats_for ss a) + (if status_ok st then 1 else 0) \<and>
     n_failed (stats_for ss' a) = n_failed (stats_for ss a) + (if status_ok st then 0 else 1) \<and>
     n_retried_attempts (stats_for ss' a) =
       n_retried_attempts (stats_for ss a) + word_of_int (st_attempts st - 1) \<and>
     n_rejected (stats_for ss' a) = n_rejected (stats_for ss a) \<and>
     (last_op_failed ss' a \<longleftrightarrow> \<not> status_ok st) \<and>
     (a \<in> s_recovery_pending ss' \<longleftrightarrow>
        a \<in> s_recovery_pending ss \<or> status_ok st \<and> last_op_failed ss a)"

lemma record_outcome_other:
  assumes "b \<noteq> a"
  shows "s_stats (record_outcome tr a st ss) b = s_stats ss b"
    and "b \<in> s_last_op_failed (record_outcome tr a st ss) \<longleftrightarrow> b \<in> s_last_op_failed ss"
    and "b \<in> s_recovery_pending (record_outcome tr a st ss) \<longleftrightarrow> b \<in> s_recovery_pending ss"
  using assms by (simp_all add: record_outcome_def Let_def)

lemma record_outcome_counters:
  "n_ok (stats_for (record_outcome tr a st ss) a) =
     n_ok (stats_for ss a) + (if status_ok st then 1 else 0)"
  "n_failed (stats_for (record_outcome tr a st ss) a) =
     n_failed (stats_for ss a) + (if status_ok st then 0 else 1)"
  "n_retried_attempts (stats_for (record_outcome tr a st ss) a) = n_retried_attempts (stats_for ss a) +
     (if 1 < st_attempts st then word_of_int (st_attempts st - 1) else 0)"
  "n_rejected (stats_for (record_outcome tr a st ss) a) = n_rejected (stats_for ss a)"
  by (simp_all add: record_outcome_def Let_def stats_for_def stats_of_def)

lemma record_outcome_flags:
  "last_op_failed (record_outcome tr a st ss) a \<longleftrightarrow> \<not> status_ok st"
  "a \<in> s_recovery_pending (record_outcome tr a st ss) \<longleftrightarrow>
     a \<in> s_recovery_pending ss \<or> status_ok st \<and> last_op_failed ss a"
  by (simp_all add: record_outcome_def Let_def last_op_failed_def)

lemma stats_for_transport [simp]: "stats_for (ss\<lparr>s_transport := w\<rparr>) a = stats_for ss a"
  by (simp add: stats_for_def stats_of_def)

lemma last_op_failed_transport [simp]: "last_op_failed (ss\<lparr>s_transport := w\<rparr>) a = last_op_failed ss a"
  by (simp add: last_op_failed_def)

lemma record_outcome_transport [simp]:
  "s_transport (record_outcome tr a st ss) = s_transport ss"
  "s_options (record_outcome tr a st ss) = s_options ss"
  by (simp_all add: record_outcome_def Let_def)

lemma record_outcome_counted:
  assumes "1 \<le> st_attempts st"
  shows "counted_once a st ss (record_outcome tr a st (ss\<lparr>s_transport := w\<rparr>))"
proof -
  have "(if 1 < st_attempts st then word_of_int (st_attempts st - 1) else 0) =
      (word_of_int (st_attempts st - 1) :: u64)"
    using assms by auto
  then show ?thesis
    by (simp add: counted_once_def record_outcome_other record_outcome_counters record_outcome_flags)
qed

lemma execute_with_retry_attempts:
  assumes "execute_with_retry opts operation fn s = (st, s')"
  shows "1 \<le> st_attempts st" and "st_attempts st \<le> max_attempts opts"
proof -
  obtain k where "int k < max_attempts opts" "execute_with_retry opts operation fn s =
      ((fst (fn (state_before fn k s)))\<lparr>st_attempts := 1 + int k\<rparr>, snd (fn (state_before fn k s)))"
    by (rule execute_with_retry_cases)
  with assms have "st_attempts st = 1 + int k" "int k < max_attempts opts" by auto
  then show "1 \<le> st_attempts st" "st_attempts st \<le> max_attempts opts" by simp_all
qed

text \<open>An operation that validation or a closed transport refuses; it is not I/O.\<close>

definition not_io :: "session_status \<Rightarrow> bool" where
  "not_io st \<longleftrightarrow> st_code st \<in> {InvalidArgument, NotOpen} \<and> st_attempts st = 0"

lemma not_io_simps [simp]:
  "not_io not_open" "not_io (failure InvalidArgument m n)"
  by (simp_all add: not_io_def not_open_def failure_def)

lemma validation_not_io:
  "\<not> status_ok (validate_address a) \<Longrightarrow> not_io (validate_address a)"
  "\<not> status_ok (session_validate_frame f) \<Longrightarrow> not_io (session_validate_frame f)"
  by (auto simp: validate_address_def session_validate_frame_def split: if_splits)

lemma session_send_cases:
  assumes "session_send tr a frame ss = (st, ss')"
  shows "ss' = ss \<and> not_io st \<or>
    (\<exists>w. execute_with_retry (s_options ss) ''send'' (tr_send tr a frame) (s_transport ss) = (st, w) \<and>
         ss' = record_outcome tr a st (ss\<lparr>s_transport := w\<rparr>))"
  using assms validation_not_io
  by (auto simp: session_send_def Let_def split: if_splits prod.splits)

lemma session_read_cases:
  assumes "session_read tr a frame ss = (st, frame', ss')"
  shows "ss' = ss \<and> frame' = frame \<and> not_io st \<or>
    (\<exists>w. execute_with_retry (s_options ss) ''read''
           (\<lambda>(f, w). tr_read tr a (read_timeout_us (s_options ss)) f w) (frame, s_transport ss) =
           (st, frame', w) \<and>
         ss' = record_outcome tr a st (ss\<lparr>s_transport := w\<rparr>))"
  using assms validation_not_io
  by (auto simp: session_read_def Let_def split: if_splits prod.splits)

lemma query_read_cases:
  assumes "query_read tr a p out ss = (st, out', ss')"
  shows "ss' = ss \<and> out' = out \<and> not_io st \<or>
    (\<exists>w. execute_with_retry (s_options ss) ''query_read''
           (query_attempt tr (s_options ss) a p) (out, s_transport ss) = (st, out', w) \<and>
         ss' = record_outcome tr a st (ss\<lparr>s_transport := w\<rparr>))"
  using assms validation_not_io
  by (auto simp: query_read_def Let_def split: if_splits prod.splits)

lemma counted_run:
  assumes "execute_with_retry (s_options ss) operation fn x = (st, y)"
  shows "counted_once a st ss (record_outcome tr a st (ss\<lparr>s_transport := w\<rparr>)) \<and>
    1 \<le> st_attempts st \<and> st_attempts st \<le> max_attempts (s_options ss)"
  using record_outcome_counted [OF execute_with_retry_attempts(1) [OF assms]]
    execute_with_retry_attempts [OF assms] by simp

text \<open>
  C24: \<open>send\<close>, \<open>read\<close> and \<open>query_read\<close> either are refused before any I/O (bad
  address, oversized payload, closed transport) and leave the session exactly as it was, or are
  counted exactly once for their address: one of the ok and failed counters moves by one, every
  attempt after the first is added to the retry counter, the last-failed flag follows the
  outcome, a success directly after a failure sets the recovery flag, and no other address is
  touched.
\<close>

theorem session_operations_accounting:
  "(let (st, ss') = session_send tr a frame ss in
      ss' = ss \<and> not_io st \<or>
      counted_once a st ss ss' \<and> 1 \<le> st_attempts st \<and> st_attempts st \<le> max_attempts (s_options ss)) \<and>
   (let (st, frame', ss') = session_read tr a frame ss in
      ss' = ss \<and> frame' = frame \<and> not_io st \<or>
      counted_once a st ss ss' \<and> 1 \<le> st_attempts st \<and> st_attempts st \<le> max_attempts (s_options ss)) \<and>
   (let (st, frame', ss') = query_read tr a p frame ss in
      ss' = ss \<and> frame' = frame \<and> not_io st \<or>
      counted_once a st ss ss' \<and> 1 \<le> st_attempts st \<and> st_attempts st \<le> max_attempts (s_options ss))"
proof -
  obtain st1 ss1 where 1: "session_send tr a frame ss = (st1, ss1)" by fastforce
  obtain st2 f2 ss2 where 2: "session_read tr a frame ss = (st2, f2, ss2)" by (metis prod_cases3)
  obtain st3 f3 ss3 where 3: "query_read tr a p frame ss = (st3, f3, ss3)" by (metis prod_cases3)
  show ?thesis
    using session_send_cases [OF 1] session_read_cases [OF 2] query_read_cases [OF 3]
    unfolding 1 2 3 Let_def prod.case by (metis counted_run)
qed

subsection \<open>The recovery flag against the history of outcomes\<close>

datatype session_event = Outcome session_status | Take | Reject

fun apply_event :: "'w transport \<Rightarrow> u8 \<Rightarrow> 'w session \<Rightarrow> session_event \<Rightarrow> 'w session" where
  "apply_event tr a ss (Outcome st) = record_outcome tr a st ss"
| "apply_event tr a ss Take = snd (take_recovery a ss)"
| "apply_event tr a ss Reject = record_rejection a ss"

definition failed_event :: "session_event \<Rightarrow> bool" where
  "failed_event e \<longleftrightarrow> (\<exists>st. e = Outcome st \<and> \<not> status_ok st)"

definition ok_event :: "session_event \<Rightarrow> bool" where
  "ok_event e \<longleftrightarrow> (\<exists>st. e = Outcome st \<and> status_ok st)"

text \<open>The last outcome of a history was a failure.\<close>

definition ends_failed :: "session_event list \<Rightarrow> bool" where
  "ends_failed es \<longleftrightarrow>
     (\<exists>pre f post. es = pre @ f # post \<and> failed_event f \<and> (\<forall>e \<in> set post. \<not> ok_event e \<and> \<not> failed_event e))"

text \<open>A success whose preceding outcome was a failure, not yet taken.\<close>

definition recovered :: "session_event list \<Rightarrow> bool" where
  "recovered es \<longleftrightarrow>
     (\<exists>pre s post. es = pre @ s # post \<and> ends_failed pre \<and> ok_event s \<and> Take \<notin> set post)"

lemma ends_failed_snoc:
  "ends_failed (es @ [e]) \<longleftrightarrow> failed_event e \<or> \<not> ok_event e \<and> ends_failed es"
proof
  assume "ends_failed (es @ [e])"
  then obtain pre f post where *: "es @ [e] = pre @ f # post" "failed_event f"
    "\<forall>e \<in> set post. \<not> ok_event e \<and> \<not> failed_event e" by (auto simp: ends_failed_def)
  show "failed_event e \<or> \<not> ok_event e \<and> ends_failed es"
  proof (cases post rule: rev_exhaust)
    case Nil with * show ?thesis by simp
  next
    case (snoc post' e')
    with * show ?thesis by (auto simp: ends_failed_def)
  qed
next
  assume "failed_event e \<or> \<not> ok_event e \<and> ends_failed es"
  then show "ends_failed (es @ [e])"
  proof
    assume "failed_event e"
    then have "es @ [e] = es @ e # []" by simp
    with \<open>failed_event e\<close> show ?thesis unfolding ends_failed_def by (metis empty_iff list.set(1))
  next
    assume "\<not> ok_event e \<and> ends_failed es"
    then obtain pre f post where "es = pre @ f # post" "failed_event f" "\<not> ok_event e"
      "\<forall>e \<in> set post. \<not> ok_event e \<and> \<not> failed_event e" by (auto simp: ends_failed_def)
    then show ?thesis
      by (cases "failed_event e")
         (force simp: ends_failed_def intro: exI [of _ "pre"] exI [of _ es])+
  qed
qed

lemma recovered_snoc:
  "recovered (es @ [e]) \<longleftrightarrow> ok_event e \<and> ends_failed es \<or> e \<noteq> Take \<and> recovered es"
proof
  assume "recovered (es @ [e])"
  then obtain pre s post where *: "es @ [e] = pre @ s # post" "ends_failed pre" "ok_event s"
    "Take \<notin> set post" by (auto simp: recovered_def)
  show "ok_event e \<and> ends_failed es \<or> e \<noteq> Take \<and> recovered es"
  proof (cases post rule: rev_exhaust)
    case Nil with * show ?thesis by simp
  next
    case (snoc post' e')
    with * show ?thesis by (auto simp: recovered_def)
  qed
next
  assume "ok_event e \<and> ends_failed es \<or> e \<noteq> Take \<and> recovered es"
  then show "recovered (es @ [e])"
  proof
    assume "ok_event e \<and> ends_failed es"
    then show ?thesis unfolding recovered_def
      by (intro exI [of _ es] exI [of _ e] exI [of _ "[]"]) simp
  next
    assume "e \<noteq> Take \<and> recovered es"
    then obtain pre s post where "es = pre @ s # post" "ends_failed pre" "ok_event s"
      "Take \<notin> set post" "e \<noteq> Take" by (auto simp: recovered_def)
    then show ?thesis unfolding recovered_def
      by (intro exI [of _ pre] exI [of _ s] exI [of _ "post @ [e]"]) simp
  qed
qed

lemma event_simps [simp]:
  "failed_event (Outcome st) \<longleftrightarrow> \<not> status_ok st" "ok_event (Outcome st) \<longleftrightarrow> status_ok st"
  "\<not> failed_event Take" "\<not> ok_event Take" "\<not> failed_event Reject" "\<not> ok_event Reject"
  by (auto simp: failed_event_def ok_event_def)

text \<open>
  C25: over any sequence of outcomes, consumptions of the recovery flag and rejections for one
  address, starting from a new session, \<open>last_op_failed\<close> holds exactly when the last outcome
  was a failure, \<open>take_recovery\<close> returns true exactly when some success directly followed a
  failure since the flag was last taken, and the ok, failed and rejected counters are the
  numbers of those events.
\<close>

theorem recovery_flag_history:
  fixes es :: "session_event list"
  shows "let ss = foldl (apply_event tr a) (new_session w opts) es in
     (last_op_failed ss a \<longleftrightarrow> ends_failed es) \<and>
     (fst (take_recovery a ss) \<longleftrightarrow> recovered es) \<and>
     n_ok (stats_for ss a) = of_nat (length (filter ok_event es)) \<and>
     n_failed (stats_for ss a) = of_nat (length (filter failed_event es)) \<and>
     n_rejected (stats_for ss a) = of_nat (length (filter (\<lambda>e. e = Reject) es))"
proof (induction es rule: rev_induct)
  case Nil
  show ?case
    by (simp add: new_session_def last_op_failed_def take_recovery_def stats_for_def stats_of_def
        zero_stats_def ends_failed_def recovered_def)
next
  case (snoc e es)
  then show ?case
    by (cases e)
       (auto simp: Let_def ends_failed_snoc recovered_snoc record_outcome_def record_rejection_def
        take_recovery_def last_op_failed_def stats_for_def stats_of_def split: option.splits)
qed

subsection \<open>What reaches the bus\<close>

text \<open>
  A transport that also records the calls made on it, in order. All definitions over a
  transport apply to it unchanged, so a statement about the record of calls is one about the
  traffic the code under \<open>session\<close> puts on the wire.
\<close>

datatype bus_event =
    EvOpen | EvClose | EvScan scan_options | EvSend u8 raw_frame | EvRead u8 u32 | EvDelay u32

definition traced :: "'w transport \<Rightarrow> ('w \<times> bus_event list) transport" where
  "traced tr =
     \<lparr>tr_open = (\<lambda>o' (w, es). let (st, w') = tr_open tr o' w in (st, w', es @ [EvOpen])),
      tr_close = (\<lambda>(w, es). (tr_close tr w, es @ [EvClose])),
      tr_is_open = (\<lambda>(w, es). tr_is_open tr w),
      tr_scan = (\<lambda>o' out (w, es). let (st, out', w') = tr_scan tr o' out w
                                in (st, out', w', es @ [EvScan o'])),
      tr_send = (\<lambda>a f (w, es). let (st, w') = tr_send tr a f w in (st, w', es @ [EvSend a f])),
      tr_read = (\<lambda>a t f (w, es). let (st, f', w') = tr_read tr a t f w
                                in (st, f', w', es @ [EvRead a t])),
      tr_delay_us = (\<lambda>d (w, es). (tr_delay_us tr d w, es @ [EvDelay d])),
      system_now = (\<lambda>(w, es). system_now tr w), steady_now = (\<lambda>(w, es). steady_now tr w)\<rparr>"

lemma traced_simps [simp]:
  "tr_is_open (traced tr) x = tr_is_open tr (fst x)"
  "tr_send (traced tr) a f x =
     (fst (tr_send tr a f (fst x)), snd (tr_send tr a f (fst x)), snd x @ [EvSend a f])"
  "tr_read (traced tr) a t g x =
     (fst (tr_read tr a t g (fst x)), fst (snd (tr_read tr a t g (fst x))),
      snd (snd (tr_read tr a t g (fst x))), snd x @ [EvRead a t])"
  "tr_delay_us (traced tr) d x = (tr_delay_us tr d (fst x), snd x @ [EvDelay d])"
  "system_now (traced tr) x = system_now tr (fst x)"
  "steady_now (traced tr) x = steady_now tr (fst x)"
  by (simp_all add: traced_def split: prod.splits)

text \<open>The call of every attempt appends a block to the record, and so does the retry loop.\<close>

lemma state_before_blocks:
  assumes "\<And>x. \<exists>b. R (fst (fn x)) b \<and> ev (snd (fn x)) = ev x @ b"
  shows "\<exists>bs. length bs = k \<and> (\<forall>j < k. R (fst (fn (state_before fn j s))) (bs ! j)) \<and>
     ev (state_before fn k s) = ev s @ concat bs"
proof (induction k arbitrary: s)
  case (Suc k)
  from assms obtain b where b: "R (fst (fn s)) b" "ev (snd (fn s)) = ev s @ b" by blast
  from Suc obtain bs where bs: "length bs = k"
    "\<forall>j < k. R (fst (fn (state_before fn j (snd (fn s))))) (bs ! j)"
    "ev (state_before fn k (snd (fn s))) = ev (snd (fn s)) @ concat bs" by blast
  have "\<forall>j < Suc k. R (fst (fn (state_before fn j s))) ((b # bs) ! j)"
    using b(1) bs(2) by (auto simp: less_Suc_eq_0_disj)
  then show ?case
    using bs b(2) by (intro exI [of _ "b # bs"]) simp
qed simp

lemma execute_with_retry_blocks:
  assumes blocks: "\<And>x. \<exists>b. R (fst (fn x)) b \<and> ev (snd (fn x)) = ev x @ b"
    and R: "\<And>st b n. R (st\<lparr>st_attempts := n\<rparr>) b = R st b"
    and run: "execute_with_retry opts operation fn s = (st, s')"
  shows "\<exists>bs. int (length bs) = st_attempts st \<and> R st (last bs) \<and>
     (\<forall>b \<in> set (butlast bs). \<exists>st. \<not> status_ok st \<and> R st b) \<and> ev s' = ev s @ concat bs"
proof -
  obtain k where fail: "\<forall>j < k. \<not> status_ok (fst (fn (state_before fn j s))) \<and>
      \<not> gives_up (fst (fn (state_before fn j s)))"
    and res: "execute_with_retry opts operation fn s =
      ((fst (fn (state_before fn k s)))\<lparr>st_attempts := 1 + int k\<rparr>, snd (fn (state_before fn k s)))"
    by (rule execute_with_retry_cases)
  from state_before_blocks [where R = R and fn = fn and ev = ev, OF blocks] obtain bs where bs:
    "length bs = Suc k" "\<forall>j < Suc k. R (fst (fn (state_before fn j s))) (bs ! j)"
    "ev (state_before fn (Suc k) s) = ev s @ concat bs" by blast
  have step: "state_before fn (Suc k) s = snd (fn (state_before fn k s))" for k
    by (induction k arbitrary: s) simp_all
  have "last bs = bs ! k" using bs(1) by (metis diff_Suc_1 last_conv_nth list.size(3) nat.simps(3))
  moreover have "\<exists>st. \<not> status_ok st \<and> R st b" if "b \<in> set (butlast bs)" for b
  proof -
    from that bs(1) obtain j where "j < k" "b = bs ! j"
      by (auto simp: in_set_conv_nth nth_butlast)
    with bs(2) fail show ?thesis by (metis less_SucI)
  qed
  ultimately show ?thesis
    using bs res run R step [of k] by (intro exI [of _ bs]) auto
qed

definition full_query :: "session_options \<Rightarrow> u8 \<Rightarrow> u8 \<Rightarrow> bus_event list" where
  "full_query opts a p =
     [EvSend a (query_frame p), EvDelay (opt_query_delay_us opts), EvRead a (read_timeout_us opts)]"

definition query_block :: "session_options \<Rightarrow> u8 \<Rightarrow> u8 \<Rightarrow> session_status \<Rightarrow> bus_event list \<Rightarrow> bool" where
  "query_block opts a p st b \<longleftrightarrow>
     b = full_query opts a p \<or> \<not> status_ok st \<and> b = [EvSend a (query_frame p)]"

lemma query_attempt_block:
  "\<exists>b. query_block opts a p (fst (query_attempt (traced tr) opts a p x)) b \<and>
     snd (snd (snd (query_attempt (traced tr) opts a p x))) = snd (snd x) @ b"
  by (cases x) (simp add: query_attempt_def Let_def query_block_def full_query_def split: if_splits)

lemma not_io_attempts: "not_io st \<Longrightarrow> st_attempts st = 0"
  by (simp add: not_io_def)

lemma query_read_traffic:
  assumes "query_read (traced tr) a p out ss = (st, out', ss')"
  shows "\<exists>bs. int (length bs) = st_attempts st \<and> 
     set bs \<subseteq> {full_query (s_options ss) a p, [EvSend a (query_frame p)]} \<and>
     (status_ok st \<longrightarrow> bs \<noteq> [] \<and> last bs = full_query (s_options ss) a p) \<and>
     snd (s_transport ss') = snd (s_transport ss) @ concat bs"
  using query_read_cases [OF assms]
proof (elim disjE exE conjE)
  assume "ss' = ss" "not_io st"
  then show ?thesis by (intro exI [of _ "[]"]) (auto simp: not_io_def status_ok_def)
next
  fix w
  assume run: "execute_with_retry (s_options ss) ''query_read''
      (query_attempt (traced tr) (s_options ss) a p) (out, s_transport ss) = (st, out', w)"
    and ss': "ss' = record_outcome (traced tr) a st (ss\<lparr>s_transport := w\<rparr>)"
  have "\<exists>bs. int (length bs) = st_attempts st \<and> query_block (s_options ss) a p st (last bs) \<and>
     (\<forall>b \<in> set (butlast bs). \<exists>st. \<not> status_ok st \<and> query_block (s_options ss) a p st b) \<and>
     snd (snd (out', w)) = snd (snd (out, s_transport ss)) @ concat bs"
    by (rule execute_with_retry_blocks [OF _ _ run, where ev = "\<lambda>x. snd (snd x)"])
       (simp_all only: query_attempt_block, simp add: query_block_def)
  then obtain bs where bs: "int (length bs) = st_attempts st" "query_block (s_options ss) a p st (last bs)"
     "\<forall>b \<in> set (butlast bs). \<exists>st. \<not> status_ok st \<and> query_block (s_options ss) a p st b"
     "snd w = snd (s_transport ss) @ concat bs" by auto
  have ne: "bs \<noteq> []" using bs(1) execute_with_retry_attempts(1) [OF run] by auto
  then have "set bs = insert (last bs) (set (butlast bs))"
    by (metis append_butlast_last_id list.simps(15) rotate1.simps(2) set_rotate1)
  with bs ne show ?thesis
    by (intro exI [of _ bs]) (auto simp: ss' query_block_def)
qed

lemma session_send_traffic:
  assumes "session_send (traced tr) a frame ss = (st, ss')"
  shows "snd (s_transport ss') =
     snd (s_transport ss) @ replicate (nat (st_attempts st)) (EvSend a frame)"
  using session_send_cases [OF assms]
proof (elim disjE exE conjE)
  assume "ss' = ss" "not_io st"
  then show ?thesis by (simp add: not_io_def)
next
  fix w
  assume run: "execute_with_retry (s_options ss) ''send'' (tr_send (traced tr) a frame)
      (s_transport ss) = (st, w)"
    and ss': "ss' = record_outcome (traced tr) a st (ss\<lparr>s_transport := w\<rparr>)"
  have "\<exists>bs. int (length bs) = st_attempts st \<and> last bs = [EvSend a frame] \<and>
     (\<forall>b \<in> set (butlast bs). \<exists>st. \<not> status_ok st \<and> b = [EvSend a frame]) \<and>
     snd w = snd (s_transport ss) @ concat bs"
    by (rule execute_with_retry_blocks [OF _ _ run, where ev = snd]) simp_all
  then obtain bs where bs: "int (length bs) = st_attempts st" "last bs = [EvSend a frame]"
     "\<forall>b \<in> set (butlast bs). b = [EvSend a frame]"
     "snd w = snd (s_transport ss) @ concat bs" by blast
  have ne: "bs \<noteq> []" using bs(1) execute_with_retry_attempts(1) [OF run] by auto
  then have "bs = butlast bs @ [last bs]" by simp
  with bs(2,3) have "\<forall>b \<in> set bs. b = [EvSend a frame]"
    by (metis Un_iff empty_iff list.set(1) set_ConsD set_append)
  then have "bs = replicate (length bs) [EvSend a frame]" by (metis replicate_length_same)
  moreover have "concat (replicate n [e]) = replicate n e" for n and e :: bus_event
    by (induction n) auto
  ultimately have "concat bs = replicate (length bs) (EvSend a frame)" by metis
  with bs show ?thesis by (simp add: ss' flip: bs(1))
qed

text \<open>
  C26: the traffic of a query is a sequence of whole attempts, one per counted attempt: each is
  SET_REPLY, the configured delay, one read of the same address, or SET_REPLY alone when that
  write failed; a query that succeeds ends with a whole attempt. A send is its own frame,
  written once per counted attempt. A refused operation puts nothing on the bus.
\<close>

theorem session_traffic:
  "(let (st, ss') = session_send (traced tr) a frame ss in
      snd (s_transport ss') =
        snd (s_transport ss) @ replicate (nat (st_attempts st)) (EvSend a frame)) \<and>
   (let (st, out', ss') = query_read (traced tr) a p out ss in
      \<exists>bs. int (length bs) = st_attempts st \<and>
        set bs \<subseteq> {full_query (s_options ss) a p, [EvSend a (query_frame p)]} \<and>
        (status_ok st \<longrightarrow> bs \<noteq> [] \<and> last bs = full_query (s_options ss) a p) \<and>
        snd (s_transport ss') = snd (s_transport ss) @ concat bs)"
proof -
  obtain st1 ss1 where 1: "session_send (traced tr) a frame ss = (st1, ss1)" by fastforce
  obtain st3 f3 ss3 where 3: "query_read (traced tr) a p out ss = (st3, f3, ss3)"
    by (metis prod_cases3)
  show ?thesis
    using session_send_traffic [OF 1] query_read_traffic [OF 3] unfolding 1 3 Let_def prod.case
    by blast
qed

theorem session_traffic_witness:
  "let (st, ss') = session_send (traced (flaky_transport WriteFailed 5)) 8 empty_frame
         (new_session (2, []) sample_options)
   in snd (s_transport ss') = replicate (nat (st_attempts st)) (EvSend 8 empty_frame)"
  using conjunct1 [OF session_traffic [where tr = "flaky_transport WriteFailed 5" and a = 8
      and frame = empty_frame and ss = "new_session (2, []) sample_options"]]
  by (simp add: new_session_def split: prod.splits)

subsection \<open>The transport contract\<close>

text \<open>
  What every transport promises its session: only \<open>open\<close> and \<open>close\<close> change whether it is
  open, a successful \<open>open\<close> leaves it open and \<open>close\<close> leaves it closed.
\<close>

locale transport_contract =
  fixes tr :: "'w transport"
  assumes send_keeps_open: "tr_is_open tr (snd (tr_send tr a f w)) = tr_is_open tr w"
    and read_keeps_open: "tr_is_open tr (snd (snd (tr_read tr a t g w))) = tr_is_open tr w"
    and scan_keeps_open: "tr_is_open tr (snd (snd (tr_scan tr o' out w))) = tr_is_open tr w"
    and delay_keeps_open: "tr_is_open tr (tr_delay_us tr d w) = tr_is_open tr w"
    and open_opens: "status_ok (fst (tr_open tr opts w)) \<Longrightarrow> tr_is_open tr (snd (tr_open tr opts w))"
    and close_closes: "\<not> tr_is_open tr (tr_close tr w)"
begin

lemma retry_keeps:
  assumes "\<And>x. P (snd (fn x)) = P x"
  shows "P (snd (execute_with_retry opts operation fn s)) = P s"
proof -
  have "P (state_before fn k s) = P s" for k
    using assms by (induction k arbitrary: s) simp_all
  then show ?thesis
    using execute_with_retry_run [of opts fn s operation] assms by (auto simp: Let_def)
qed

lemma send_keeps_session_open:
  "session_is_open tr (snd (session_send tr a frame ss)) = session_is_open tr ss"
  using retry_keeps [where P = "tr_is_open tr" and fn = "tr_send tr a frame", OF send_keeps_open]
  by (auto simp: session_send_def session_is_open_def Let_def split: prod.splits)
     (metis snd_conv)+

lemma read_keeps_session_open:
  "session_is_open tr (snd (snd (session_read tr a frame ss))) = session_is_open tr ss"
  using retry_keeps [where P = "\<lambda>x. tr_is_open tr (snd x)"
      and fn = "\<lambda>(f, w). tr_read tr a (read_timeout_us (s_options ss)) f w"] read_keeps_open
  by (auto simp: session_read_def session_is_open_def Let_def split: prod.splits)
     (metis snd_conv)+

lemma query_attempt_keeps_open:
  "tr_is_open tr (snd (snd (query_attempt tr opts a p x))) = tr_is_open tr (snd x)"
proof (cases x)
  case (Pair out w)
  obtain st w1 where s: "tr_send tr a (query_frame p) w = (st, w1)" by fastforce
  have "tr_is_open tr w1 = tr_is_open tr w"
    using send_keeps_open [of a "query_frame p" w] by (simp add: s)
  then show ?thesis
    by (simp add: Pair query_attempt_def s Let_def read_keeps_open delay_keeps_open)
qed

lemma query_keeps_session_open:
  "session_is_open tr (snd (snd (query_read tr a p out ss))) = session_is_open tr ss"
  using retry_keeps [where P = "\<lambda>x. tr_is_open tr (snd x)"
      and fn = "query_attempt tr (s_options ss) a p", OF query_attempt_keeps_open]
  by (auto simp: query_read_def session_is_open_def Let_def split: prod.splits)
     (metis snd_conv)+

lemma open_session_opens:
  "status_ok (fst (session_open tr ss)) \<Longrightarrow> session_is_open tr (snd (session_open tr ss))"
  using open_opens [of "s_options ss" "s_transport ss"]
  by (auto simp: session_open_def session_is_open_def Let_def split: prod.splits if_splits)

lemma closed_session_refuses:
  assumes "ss' = session_close tr ss" "status_ok (validate_address a)"
  shows "query_read tr a p out ss' = (not_open, out, ss')"
    and "session_read tr a f ss' = (not_open, f, ss')"
    and "status_ok (session_validate_frame f) \<Longrightarrow> session_send tr a f ss' = (not_open, ss')"
  using assms close_closes [of "s_transport ss"]
  by (simp_all add: query_read_def session_read_def session_send_def session_close_def)

lemma traced_contract: "transport_contract (traced tr)"
  by unfold_locales
    (simp_all add: traced_def case_prod_beta Let_def send_keeps_open read_keeps_open scan_keeps_open
      delay_keeps_open close_closes open_opens)

end

text \<open>Where an operation is not refused: a valid address, on an open session.\<close>

definition serves :: "'w transport \<Rightarrow> u8 \<Rightarrow> 'w session \<Rightarrow> bool" where
  "serves tr a ss \<longleftrightarrow> status_ok (validate_address a) \<and> session_is_open tr ss"

lemma query_read_asks:
  assumes "query_read (traced tr) a p out ss = (st, out', ss')" "serves (traced tr) a ss"
  shows "\<exists>es. snd (s_transport ss') = snd (s_transport ss) @ EvSend a (query_frame p) # es"
proof -
  from query_read_traffic [OF assms(1)] obtain bs where bs: "int (length bs) = st_attempts st"
    "set bs \<subseteq> {full_query (s_options ss) a p, [EvSend a (query_frame p)]}"
    "snd (s_transport ss') = snd (s_transport ss) @ concat bs" by blast
  obtain st1 out1 w where run: "execute_with_retry (s_options ss) ''query_read''
      (query_attempt (traced tr) (s_options ss) a p) (out, s_transport ss) = (st1, out1, w)" by (metis prod_cases3)
  with assms have "st = st1" by (simp add: query_read_def serves_def session_is_open_def)
  with execute_with_retry_attempts(1) [OF run] bs(1) obtain b bs' where "bs = b # bs'" by (cases bs) simp_all
  with bs(2,3) show ?thesis by (auto simp: full_query_def)
qed

context transport_contract
begin

lemma serves_keeps:
  "query_read tr a p g ss = (st, out, ss') \<Longrightarrow> serves tr b ss' = serves tr b ss"
  "session_send tr a f ss = (st, ss') \<Longrightarrow> serves tr b ss' = serves tr b ss"
  using query_keeps_session_open [of a p g ss] send_keeps_session_open [of a f ss] by (simp_all add: serves_def)

end

end
