(* ===== verification/Crumbs_Transport.thy ===== *)
theory Crumbs_Transport
  imports Contracts Crumbs_Session
begin

text \<open>
  \<open>src/crumbs/crumbs_transport\<close>: the transport that puts CRUMBS frames on the SDK's
  \<open>I2cBus\<close>. The bus is an abstract class of the SDK, which the build fetches, so it is a
  record of operations on a bus state \<open>'b\<close>; the controller scan is a function of the CRUMBS
  library and an argument. A raw pointer with a length is a byte list; the bytes a bus read
  leaves in the caller's buffer are its result.
\<close>

subsection \<open>The SDK bus\<close>

datatype i2c_error = I2cTimeout | I2cNotOpen | I2cInvalidArgument | I2cBusError | I2cOtherError nat

datatype i2c_status = I2cOk | I2cFailure i2c_error string int \<comment> \<open>code, message, native errno\<close>

fun i2c_ok :: "i2c_status \<Rightarrow> bool" where
  "i2c_ok I2cOk = True"
| "i2c_ok (I2cFailure _ _ _) = False"

record 'b i2c_bus =
  bus_open :: "'b \<Rightarrow> i2c_status \<times> 'b"
  bus_close :: "'b \<Rightarrow> 'b"
  bus_write :: "u8 \<Rightarrow> bytes \<Rightarrow> 'b \<Rightarrow> i2c_status \<times> 'b"
  bus_read :: "u8 \<Rightarrow> nat \<Rightarrow> u32 \<Rightarrow> 'b \<Rightarrow> i2c_status \<times> bytes \<times> 'b"
  bus_delay_us :: "u32 \<Rightarrow> 'b \<Rightarrow> 'b"
  bus_system_now :: "'b \<Rightarrow> int" \<comment> \<open>the clocks of \<open>std::chrono\<close>\<close>
  bus_steady_now :: "'b \<Rightarrow> int"

text \<open>
  \<open>crumbs_controller_scan_for_crumbs_with_types\<close>: the callbacks, the address range, strict,
  the room in the two result buffers, the probe timeout; it returns a count or a negative
  error, and the two buffers.
\<close>

type_synonym 'b controller_scan =
  "(u8 \<Rightarrow> bytes \<Rightarrow> 'b \<Rightarrow> int \<times> 'b) \<Rightarrow> (u8 \<Rightarrow> nat \<Rightarrow> u32 \<Rightarrow> 'b \<Rightarrow> int \<times> bytes \<times> 'b) \<Rightarrow>
   u8 \<Rightarrow> u8 \<Rightarrow> bool \<Rightarrow> nat \<Rightarrow> u32 \<Rightarrow> 'b \<Rightarrow> int \<times> u8 list \<times> u8 list \<times> 'b"

subsection \<open>The transport\<close>

record 'b crumbs_transport =
  ct_bus :: "'b option" \<comment> \<open>a \<open>unique_ptr\<close>\<close>
  ct_scan_timeout_us :: u32
  ct_open :: bool

definition new_crumbs_transport :: "'b option \<Rightarrow> 'b crumbs_transport" where
  "new_crumbs_transport b = \<lparr>ct_bus = b, ct_scan_timeout_us = 0, ct_open = False\<rparr>"

definition kMinScanProbeTimeoutUs :: u32 where "kMinScanProbeTimeoutUs = 2000"

definition scan_probe_timeout_us :: "session_options \<Rightarrow> u32" where
  "scan_probe_timeout_us opts =
     (if kMinScanProbeTimeoutUs < opt_query_delay_us opts then opt_query_delay_us opts
      else kMinScanProbeTimeoutUs)"

definition validate_frame :: "contracts \<Rightarrow> raw_frame \<Rightarrow> session_status" where
  "validate_frame ct frame =
     (if num_of ct CRUMBS_MAX_PAYLOAD < length (fr_payload frame) then
        failure InvalidArgument ''CRUMBS payload exceeds 27 byte maximum'' 0
      else success)"

definition populate_message :: "raw_frame \<Rightarrow> crumbs_message" where
  "populate_message frame =
     \<lparr>m_type_id = fr_type_id frame, m_opcode = fr_opcode frame, m_data = fr_payload frame\<rparr>"

definition to_raw_frame :: "crumbs_message \<Rightarrow> raw_frame" where
  "to_raw_frame m =
     \<lparr>fr_type_id = m_type_id m, fr_opcode = m_opcode m, fr_payload = m_data m\<rparr>"

fun status_from_i2c :: "session_error_code \<Rightarrow> string \<Rightarrow> i2c_status \<Rightarrow> session_status" where
  "status_from_i2c code context (I2cFailure _ msg errno) =
     failure code (if msg \<noteq> [] then context @ '': '' @ msg else context) errno"
| "status_from_i2c code context I2cOk = failure code context 0"

definition bus_write_fn :: "'b i2c_bus \<Rightarrow> u8 \<Rightarrow> bytes \<Rightarrow> 'b \<Rightarrow> int \<times> 'b" where
  "bus_write_fn bus a bs b =
     (let (st, b') = bus_write bus a bs b in (if i2c_ok st then 0 else - 1, b'))"

definition bus_read_fn :: "'b i2c_bus \<Rightarrow> u8 \<Rightarrow> nat \<Rightarrow> u32 \<Rightarrow> 'b \<Rightarrow> int \<times> bytes \<times> 'b" where
  "bus_read_fn bus a n t b =
     (let (st, received, b') = bus_read bus a n t b in
      if \<not> i2c_ok st then (- 1, received, b') else (int (length received), received, b'))"

definition transport_open ::
  "'b i2c_bus \<Rightarrow> session_options \<Rightarrow> 'b crumbs_transport \<Rightarrow> session_status \<times> 'b crumbs_transport" where
  "transport_open bus opts t =
     (if opt_bus_path opts = [] then
        (failure InvalidArgument ''session bus_path must not be empty'' 0, t)
      else if ct_open t then (failure AlreadyOpen ''CRUMBS transport is already open'' 0, t)
      else case ct_bus t of
        None \<Rightarrow> (failure OpenFailed ''CRUMBS transport has no bus'' 0, t)
      | Some b \<Rightarrow>
          let (st, b') = bus_open bus b in
          if \<not> i2c_ok st then
            (status_from_i2c OpenFailed
               (''failed to open I2C bus '' @ [CHR 0x27] @ opt_bus_path opts @ [CHR 0x27]) st,
             t\<lparr>ct_bus := Some b'\<rparr>)
          else
            (success, t\<lparr>ct_bus := Some b', ct_scan_timeout_us := scan_probe_timeout_us opts,
                        ct_open := True\<rparr>))"

definition transport_close :: "'b i2c_bus \<Rightarrow> 'b crumbs_transport \<Rightarrow> 'b crumbs_transport" where
  "transport_close bus t =
     (if \<not> ct_open t then t
      else t\<lparr>ct_bus := map_option (bus_close bus) (ct_bus t), ct_scan_timeout_us := 0,
             ct_open := False\<rparr>)"

definition transport_not_open :: session_status where
  "transport_not_open = failure NotOpen ''CRUMBS transport is not open'' 0"

text \<open>
  An open transport has a bus (\<open>transport_wf\<close> below); what the code would do through a null
  pointer is left unspecified. \<open>rc\<close> results are taken from the two buffers.
\<close>

definition transport_scan ::
  "'b i2c_bus \<Rightarrow> 'b controller_scan \<Rightarrow> scan_options \<Rightarrow> scan_result list \<Rightarrow> 'b crumbs_transport \<Rightarrow>
   session_status \<times> scan_result list \<times> 'b crumbs_transport" where
  "transport_scan bus scan o' out t =
     (if \<not> ct_open t then (transport_not_open, out, t)
      else case ct_bus t of
        None \<Rightarrow> (undefined, undefined, t)
      | Some b \<Rightarrow>
          let (rc, addresses, types, b') =
                scan (bus_write_fn bus) (bus_read_fn bus) (start_address o') (end_address o')
                  (strict o') (max_results o') (ct_scan_timeout_us t) b;
              t' = t\<lparr>ct_bus := Some b'\<rparr>
          in if rc < 0 then (failure ScanFailed ''failed to scan CRUMBS devices'' rc, out, t')
             else (success,
                   map (\<lambda>(a, ty). \<lparr>sr_address = a, sr_has_type_id = True, sr_type_id = ty\<rparr>)
                     (take (nat rc) (zip addresses types)), t'))"

definition transport_send ::
  "contracts \<Rightarrow> 'b i2c_bus \<Rightarrow> u8 \<Rightarrow> raw_frame \<Rightarrow> 'b crumbs_transport \<Rightarrow>
   session_status \<times> 'b crumbs_transport" where
  "transport_send ct bus a frame t =
     (if \<not> ct_open t then (transport_not_open, t)
      else if \<not> status_ok (validate_frame ct frame) then (validate_frame ct frame, t)
      else
        let encoded = crumbs_encode_message ct (populate_message frame) in
        if encoded = [] then
          (failure WriteFailed
             (''failed to encode CRUMBS frame for '' @ format_i2c_address (uint a)) 0, t)
        else case ct_bus t of
          None \<Rightarrow> (undefined, t)
        | Some b \<Rightarrow>
            let (st, b') = bus_write bus a encoded b; t' = t\<lparr>ct_bus := Some b'\<rparr> in
            if \<not> i2c_ok st then
              (status_from_i2c WriteFailed
                 (''failed to send CRUMBS frame to '' @ format_i2c_address (uint a)) st, t')
            else (success, t'))"

text \<open>
  The buffer is zeroed before the read; the header tells how much of what was received is the
  frame, and only that is decoded.
\<close>

fun is_timeout :: "i2c_status \<Rightarrow> bool" where
  "is_timeout (I2cFailure I2cTimeout _ _) = True"
| "is_timeout _ = False"

definition decode_received :: "contracts \<Rightarrow> u8 \<Rightarrow> bytes \<Rightarrow> raw_frame \<Rightarrow> session_status \<times> raw_frame" where
  "decode_received ct a received frame =
     (case crumbs_frame_length ct received of
        None \<Rightarrow>
          (failure ReadFailed
             (''invalid or truncated CRUMBS frame from '' @ format_i2c_address (uint a))
             (int (length received)), frame)
      | Some frame_len \<Rightarrow>
          let buffer = received @ replicate (num_of ct CRUMBS_MESSAGE_MAX_SIZE - length received) 0 in
          case crumbs_decode_message ct (take frame_len buffer) of
            Inl rc \<Rightarrow>
              (failure (if rc = - 2 then DecodeFailed else ReadFailed)
                 (''failed to decode CRUMBS reply from '' @ format_i2c_address (uint a)) rc, frame)
          | Inr m \<Rightarrow> (success, to_raw_frame m))"

definition transport_read ::
  "contracts \<Rightarrow> 'b i2c_bus \<Rightarrow> u8 \<Rightarrow> u32 \<Rightarrow> raw_frame \<Rightarrow> 'b crumbs_transport \<Rightarrow>
   session_status \<times> raw_frame \<times> 'b crumbs_transport" where
  "transport_read ct bus a timeout_us frame t =
     (if \<not> ct_open t then (transport_not_open, frame, t)
      else case ct_bus t of
        None \<Rightarrow> (undefined, undefined, t)
      | Some b \<Rightarrow>
          let (st, received, b') = bus_read bus a (num_of ct CRUMBS_MESSAGE_MAX_SIZE) timeout_us b;
              t' = t\<lparr>ct_bus := Some b'\<rparr>
          in if \<not> i2c_ok st then
               (status_from_i2c (if is_timeout st then Timeout else ReadFailed)
                  (''failed to read CRUMBS frame from '' @ format_i2c_address (uint a)) st, frame, t')
             else let (st', frame') = decode_received ct a received frame in (st', frame', t'))"

definition transport_delay_us :: "'b i2c_bus \<Rightarrow> u32 \<Rightarrow> 'b crumbs_transport \<Rightarrow> 'b crumbs_transport" where
  "transport_delay_us bus d t = t\<lparr>ct_bus := map_option (bus_delay_us bus d) (ct_bus t)\<rparr>"

text \<open>The class as an implementation of the session's transport; a clock reads the bus state.\<close>

definition crumbs_over_i2c ::
  "contracts \<Rightarrow> 'b i2c_bus \<Rightarrow> 'b controller_scan \<Rightarrow> 'b crumbs_transport transport" where
  "crumbs_over_i2c ct bus scan =
     \<lparr>tr_open = transport_open bus, tr_close = transport_close bus, tr_is_open = ct_open,
      tr_scan = transport_scan bus scan, tr_send = transport_send ct bus,
      tr_read = transport_read ct bus, tr_delay_us = transport_delay_us bus,
      system_now = (\<lambda>t. case ct_bus t of None \<Rightarrow> 0 | Some b \<Rightarrow> bus_system_now bus b),
      steady_now = (\<lambda>t. case ct_bus t of None \<Rightarrow> 0 | Some b \<Rightarrow> bus_steady_now bus b)\<rparr>"

lemma crumbs_over_i2c_simps [simp]:
  "tr_open (crumbs_over_i2c ct bus scan) = transport_open bus"
  "tr_close (crumbs_over_i2c ct bus scan) = transport_close bus"
  "tr_is_open (crumbs_over_i2c ct bus scan) = ct_open"
  "tr_scan (crumbs_over_i2c ct bus scan) = transport_scan bus scan"
  "tr_send (crumbs_over_i2c ct bus scan) = transport_send ct bus"
  "tr_read (crumbs_over_i2c ct bus scan) = transport_read ct bus"
  "tr_delay_us (crumbs_over_i2c ct bus scan) = transport_delay_us bus"
  by (simp_all add: crumbs_over_i2c_def)

subsection \<open>The transport keeps the contract, over any bus\<close>

interpretation crumbs_tr: transport_contract "crumbs_over_i2c ct bus scan"
proof
  show "\<not> tr_is_open (crumbs_over_i2c ct bus scan) (tr_close (crumbs_over_i2c ct bus scan) w)" for w
    by (simp add: transport_close_def)
  show "tr_is_open (crumbs_over_i2c ct bus scan) (snd (tr_open (crumbs_over_i2c ct bus scan) opts w))"
    if "status_ok (fst (tr_open (crumbs_over_i2c ct bus scan) opts w))" for opts w
    using that
    by (cases "fst (bus_open bus (the (ct_bus w)))")
       (auto simp: transport_open_def Let_def split: if_splits option.splits prod.splits)
qed (simp_all add: transport_send_def transport_read_def transport_scan_def transport_delay_us_def
      Let_def split: option.splits prod.splits)

definition transport_wf :: "'b crumbs_transport \<Rightarrow> bool" where
  "transport_wf t \<longleftrightarrow>
     (ct_open t \<longrightarrow> ct_bus t \<noteq> None \<and> kMinScanProbeTimeoutUs \<le> ct_scan_timeout_us t)"

lemma scan_probe_timeout_min: "kMinScanProbeTimeoutUs \<le> scan_probe_timeout_us opts"
  by (simp add: scan_probe_timeout_us_def less_imp_le)

text \<open>
  An open transport always has a bus and probes with at least 2 ms per address: so it is for a new
  transport, and every operation of the class keeps it, whatever the bus does.
\<close>

lemma transport_wf_invariant:
  "transport_wf (new_crumbs_transport b) \<and>
   (transport_wf t \<longrightarrow>
      transport_wf (snd (transport_open bus opts t)) \<and> transport_wf (transport_close bus t) \<and>
      transport_wf (snd (snd (transport_scan bus scan o' out t))) \<and>
      transport_wf (snd (transport_send ct bus a frame t)) \<and>
      transport_wf (snd (snd (transport_read ct bus a n g t))) \<and>
      transport_wf (transport_delay_us bus d t))"
  by (intro conjI impI)
     (auto simp: transport_wf_def new_crumbs_transport_def transport_open_def transport_close_def
       transport_scan_def transport_send_def transport_read_def transport_delay_us_def Let_def
       scan_probe_timeout_min split: option.splits prod.splits)

subsection \<open>A frame survives encoding, padding and decoding\<close>

lemma to_raw_populate [simp]: "to_raw_frame (populate_message f) = f"
  by (simp add: to_raw_frame_def populate_message_def)

lemma populate_to_raw [simp]: "populate_message (to_raw_frame m) = m"
  by (simp add: to_raw_frame_def populate_message_def)

lemma decode_received_padded:
  assumes "codec_ok ct" "length (m_data m) \<le> 27"
  shows "decode_received ct a (crumbs_encode_message ct m @ pad) g = (success, to_raw_frame m)"
  using codec_okD [OF assms] by (simp add: decode_received_def)

text \<open>
  C29: whatever padding a fixed-count bus read leaves after the frame, decoding what was received
  gives back the frame that was encoded, for every frame of at most 27 payload bytes.
\<close>

theorem frame_round_trip:
  assumes "codec_ok ct" "length (fr_payload f) \<le> 27"
  shows "decode_received ct a (crumbs_encode_message ct (populate_message f) @ pad) g = (success, f)"
  using decode_received_padded [OF assms(1), of "populate_message f"] assms(2)
  by (simp add: populate_message_def to_raw_frame_def)

theorem frame_round_trip_witness:
  "decode_received sample_contracts 8
     (crumbs_encode_message sample_contracts (populate_message (query_frame 3)) @ [255, 255])
     empty_frame = (success, query_frame 3)"
  by (rule frame_round_trip [OF sample_codec_ok]) (simp add: query_frame_def)

subsection \<open>Buses that answer in frames\<close>

text \<open>
  The SDK bus promises that a read returns no more bytes than asked for; then the zeroed buffer
  is filled within its bounds.
\<close>

locale i2c_bus_contract =
  fixes bus :: "'b i2c_bus"
  assumes read_bound: "length (fst (snd (bus_read bus a n t b))) \<le> n"
begin

lemma buffer_in_bounds:
  "length (fst (snd (bus_read bus a (num_of ct CRUMBS_MESSAGE_MAX_SIZE) t b)) @
     replicate (num_of ct CRUMBS_MESSAGE_MAX_SIZE -
       length (fst (snd (bus_read bus a (num_of ct CRUMBS_MESSAGE_MAX_SIZE) t b)))) 0)
   = num_of ct CRUMBS_MESSAGE_MAX_SIZE"
  using read_bound [of a "num_of ct CRUMBS_MESSAGE_MAX_SIZE" t b] by simp

end

text \<open>
  A bus with CRUMBS devices behind it: \<open>answer a b\<close> is the message the device at \<open>a\<close> would
  stage next and the state after it was read, \<open>accept\<close> what a written frame does.
\<close>

locale framed_bus = i2c_bus_contract bus for bus :: "'b i2c_bus" +
  fixes ct :: contracts
    and up :: "'b \<Rightarrow> bool"
    and answer :: "u8 \<Rightarrow> 'b \<Rightarrow> (crumbs_message \<times> 'b) option"
    and accept :: "u8 \<Rightarrow> crumbs_message \<Rightarrow> 'b \<Rightarrow> 'b"
  assumes answer_fits: "answer a b = Some (m, b') \<Longrightarrow> length (m_data m) \<le> 27"
    and read_answer: "codec_ok ct \<Longrightarrow> up b \<Longrightarrow> answer a b = Some (m, b') \<Longrightarrow>
      \<exists>pad. bus_read bus a (num_of ct CRUMBS_MESSAGE_MAX_SIZE) t b =
              (I2cOk, crumbs_encode_message ct m @ pad, b')"
    and read_silent: "up b \<Longrightarrow> answer a b = None \<Longrightarrow>
      \<not> i2c_ok (fst (bus_read bus a (num_of ct CRUMBS_MESSAGE_MAX_SIZE) t b))"
    and write_accept: "codec_ok ct \<Longrightarrow> up b \<Longrightarrow> length (m_data m) \<le> 27 \<Longrightarrow>
      bus_write bus a (crumbs_encode_message ct m) b = (I2cOk, accept a m b)"
    and accept_up: "up (accept a m b) = up b"
    and delay_up: "bus_delay_us bus d b = b"
begin

lemma transport_read_answer:
  assumes codec: "codec_ok ct"
    and t: "ct_open t" "ct_bus t = Some b" "up b" "answer a b = Some (m, b')"
  shows "transport_read ct bus a timeout g t = (success, to_raw_frame m, t\<lparr>ct_bus := Some b'\<rparr>)"
proof -
  obtain pad where "bus_read bus a (num_of ct CRUMBS_MESSAGE_MAX_SIZE) timeout b =
      (I2cOk, crumbs_encode_message ct m @ pad, b')"
    using read_answer codec t(3,4) by blast
  with t show ?thesis
    by (simp add: transport_read_def decode_received_padded [OF codec answer_fits [OF t(4)]])
qed

lemma transport_send_accept:
  assumes codec: "codec_ok ct"
    and "ct_open t" "ct_bus t = Some b" "up b" "length (fr_payload f) \<le> 27"
  shows "transport_send ct bus a f t =
    (success, t\<lparr>ct_bus := Some (accept a (populate_message f) b)\<rparr>)"
  using assms codec_okD [OF codec, of "populate_message f"] write_accept [of b "populate_message f"]
  by (simp add: transport_send_def validate_frame_def populate_message_def)

lemma delay_same: "ct_bus t = Some b \<Longrightarrow> transport_delay_us bus d t = t"
  by (simp add: transport_delay_us_def delay_up)

end

subsection \<open>Sessions over such a bus\<close>

lemma execute_with_retry_first:
  assumes "fn s = (st, s')" "status_ok st"
  shows "execute_with_retry opts operation fn s = (st\<lparr>st_attempts := 1\<rparr>, s')"
  unfolding execute_with_retry_def
  by (subst retry_loop.simps) (simp add: assms)

definition ok_once :: session_status where
  "ok_once = success\<lparr>st_attempts := 1\<rparr>"

lemma ok_once_simps [simp]: "status_ok ok_once" "st_attempts ok_once = 1" "st_message ok_once = []"
  by (simp_all add: ok_once_def success_def status_ok_def)

definition on_bus :: "'b crumbs_transport session \<Rightarrow> 'b \<Rightarrow> bool" where
  "on_bus ss b \<longleftrightarrow> ct_open (s_transport ss) \<and> ct_bus (s_transport ss) = Some b"

lemma record_outcome_on_bus [simp]: "on_bus (record_outcome tr a st ss) b = on_bus ss b"
  by (simp add: on_bus_def)

context framed_bus
begin

text \<open>A send reaches the device, once; a query returns the answer the device stages for it.\<close>

lemma session_send_accept:
  assumes "codec_ok ct" "on_bus ss b" "up b" "status_ok (validate_address a)"
    and "length (fr_payload f) \<le> 27"
  shows "\<exists>ss'. session_send (crumbs_over_i2c ct bus scan) a f ss = (ok_once, ss') \<and>
     s_options ss' = s_options ss \<and> on_bus ss' (accept a (populate_message f) b)"
proof -
  let ?t = "s_transport ss"
  have "transport_send ct bus a f ?t =
      (success, ?t\<lparr>ct_bus := Some (accept a (populate_message f) b)\<rparr>)"
    using assms by (intro transport_send_accept) (auto simp: on_bus_def)
  then have "execute_with_retry (s_options ss) ''send'' (transport_send ct bus a f) ?t =
      (ok_once, ?t\<lparr>ct_bus := Some (accept a (populate_message f) b)\<rparr>)"
    by (simp add: execute_with_retry_first ok_once_def)
  then show ?thesis
    using assms by (simp add: session_send_def session_validate_frame_def kMaxPayloadBytes_def
        on_bus_def)
qed

lemma query_read_answer:
  assumes "codec_ok ct" "on_bus ss b" "up b" "status_ok (validate_address a)"
    and "answer a (accept a (populate_message (query_frame p)) b) = Some (m, b')"
  shows "\<exists>ss'. query_read (crumbs_over_i2c ct bus scan) a p g ss = (ok_once, to_raw_frame m, ss') \<and>
     s_options ss' = s_options ss \<and> on_bus ss' b'"
proof -
  let ?t = "s_transport ss" and ?b1 = "accept a (populate_message (query_frame p)) b"
  let ?t1 = "?t\<lparr>ct_bus := Some ?b1\<rparr>"
  have s: "transport_send ct bus a (query_frame p) ?t = (success, ?t1)"
    using assms by (intro transport_send_accept) (auto simp: on_bus_def query_frame_def)
  have d: "transport_delay_us bus (opt_query_delay_us (s_options ss)) ?t1 = ?t1"
    by (simp add: delay_same)
  have r: "transport_read ct bus a (read_timeout_us (s_options ss)) g ?t1 =
      (success, to_raw_frame m, ?t1\<lparr>ct_bus := Some b'\<rparr>)"
    using assms by (intro transport_read_answer) (auto simp: on_bus_def accept_up)
  have "query_attempt (crumbs_over_i2c ct bus scan) (s_options ss) a p (g, ?t) =
      (success, to_raw_frame m, ?t1\<lparr>ct_bus := Some b'\<rparr>)"
    by (simp add: query_attempt_def s d r)
  then have "execute_with_retry (s_options ss) ''query_read''
      (query_attempt (crumbs_over_i2c ct bus scan) (s_options ss) a p) (g, ?t) =
      (ok_once, to_raw_frame m, ?t1\<lparr>ct_bus := Some b'\<rparr>)"
    by (simp add: execute_with_retry_first ok_once_def)
  then show ?thesis
    using assms by (simp add: query_read_def on_bus_def)
qed

end

end
