(* ===== verification/Canned_Bus.thy ===== *)
theory Canned_Bus
  imports Crumbs_Transport
begin

text \<open>
  \<open>src/crumbs/crumbs_canned_bus\<close>: the simulated bus of mock sessions, which answers the CRUMBS
  wire protocol in encoded, padded bytes. It is the one bus of the repository whose code is
  here, so it is where the interfaces of \<open>Crumbs_Transport\<close> are discharged and where the end to
  end statements of the later theories run. \<open>std::map::operator[]\<close> default-constructs the entry,
  which is \<open>new_device\<close>. The clocks are arguments; the failures carry no errno.
\<close>

subsection \<open>State\<close>

record device_state =
  d_type_id :: u8
  d_pending_reply_opcode :: u8
  d_has_pending :: bool
  d_watchdog_timeout_ms :: u16
  d_watchdog_tripped :: bool
  d_watchdog_trip_count :: u8
  d_ack_counter :: u8
  d_ack_opcode :: u8
  d_ack_status :: u8
  d_ack_reason :: u8
  d_next_outcomes :: "(u8 \<times> u8) list"
  d_drop_count :: int
  d_ack_read_skip :: int
  d_ack_read_failures :: int
  d_writes_by_opcode :: "u8 \<rightharpoonup> int"
  d_dcmt_mode :: u8
  d_dcmt_m1_pwm :: i16
  d_dcmt_m2_pwm :: i16
  d_rlht_mode :: u8
  d_rlht_sp1_deci_c :: i16
  d_rlht_sp2_deci_c :: i16
  d_rlht_on1_ms :: u16
  d_rlht_on2_ms :: u16
  d_rlht_period1_ms :: u16
  d_rlht_period2_ms :: u16
  d_rlht_tc1 :: u8
  d_rlht_tc2 :: u8

definition new_device :: device_state where
  "new_device =
     \<lparr>d_type_id = 0, d_pending_reply_opcode = 0, d_has_pending = False, d_watchdog_timeout_ms = 0,
      d_watchdog_tripped = False, d_watchdog_trip_count = 0, d_ack_counter = 0, d_ack_opcode = 0,
      d_ack_status = 0, d_ack_reason = 0, d_next_outcomes = [], d_drop_count = 0,
      d_ack_read_skip = 0, d_ack_read_failures = 0, d_writes_by_opcode = Map.empty,
      d_dcmt_mode = 0, d_dcmt_m1_pwm = 100, d_dcmt_m2_pwm = - 100, d_rlht_mode = 1,
      d_rlht_sp1_deci_c = 300, d_rlht_sp2_deci_c = 300, d_rlht_on1_ms = 500, d_rlht_on2_ms = 0,
      d_rlht_period1_ms = 1000, d_rlht_period2_ms = 1000, d_rlht_tc1 = 1, d_rlht_tc2 = 2\<rparr>"

record canned_bus =
  cb_bus_path :: string
  cb_opened :: bool
  cb_devices :: "u8 \<rightharpoonup> device_state"

definition new_canned_bus :: "string \<Rightarrow> canned_bus" where
  "new_canned_bus path = \<lparr>cb_bus_path = path, cb_opened = False, cb_devices = Map.empty\<rparr>"

subsection \<open>Payloads\<close>

definition read_u16_le :: "bytes \<Rightarrow> u16" where
  "read_u16_le d = le_value (d ! 0) (d ! 1)"

definition build_rlht_state_payload :: "contracts \<Rightarrow> device_state \<Rightarrow> bytes" where
  "build_rlht_state_payload ct dev =
     (let flags1 = (if 0 < d_rlht_on1_ms dev then byte_of ct RLHT_FLAG_RELAY1_ON else 0);
          flags = (if 0 < d_rlht_on2_ms dev then flags1 OR byte_of ct RLHT_FLAG_RELAY2_ON else flags1)
      in [d_rlht_mode dev, flags] @ le_bytes 250 @ le_bytes 255 @
         le_bytes (d_rlht_sp1_deci_c dev) @ le_bytes (d_rlht_sp2_deci_c dev) @
         le_bytes (d_rlht_on1_ms dev) @ le_bytes (d_rlht_on2_ms dev) @
         le_bytes (d_rlht_period1_ms dev) @ le_bytes (d_rlht_period2_ms dev) @
         [(d_rlht_tc1 dev AND 3) OR push_bit 2 (d_rlht_tc2 dev AND 3)])"

definition build_dcmt_state_payload :: "contracts \<Rightarrow> device_state \<Rightarrow> bytes" where
  "build_dcmt_state_payload ct dev =
     [d_dcmt_mode dev] @ le_bytes (d_dcmt_m1_pwm dev) @ le_bytes (d_dcmt_m2_pwm dev) @
     le_bytes (BREAD_INVALID_I16 ct) @ le_bytes (BREAD_INVALID_I16 ct) @ le_bytes 0 @ le_bytes 0 @
     le_bytes (BREAD_INVALID_I16 ct) @ le_bytes (BREAD_INVALID_I16 ct) @ [0, 0, 0]"

definition build_watchdog_payload :: "u16 \<Rightarrow> bool \<Rightarrow> u8 \<Rightarrow> bytes" where
  "build_watchdog_payload timeout tripped trip_count =
     [if timeout \<noteq> 0 then 1 else 0] @ le_bytes timeout @ [if tripped then 1 else 0, trip_count]"

subsection \<open>Test controls\<close>

definition device_at :: "canned_bus \<Rightarrow> u8 \<Rightarrow> device_state" where
  "device_at cb a = (case cb_devices cb a of None \<Rightarrow> new_device | Some dev \<Rightarrow> dev)"

definition put_device :: "u8 \<Rightarrow> device_state \<Rightarrow> canned_bus \<Rightarrow> canned_bus" where
  "put_device a dev cb = cb\<lparr>cb_devices := (cb_devices cb)(a \<mapsto> dev)\<rparr>"

definition add_device :: "u8 \<Rightarrow> u8 \<Rightarrow> canned_bus \<Rightarrow> canned_bus" where
  "add_device a type_id cb = put_device a ((device_at cb a)\<lparr>d_type_id := type_id\<rparr>) cb"

definition inject_outcome :: "u8 \<Rightarrow> u8 \<times> u8 \<Rightarrow> canned_bus \<Rightarrow> canned_bus" where
  "inject_outcome a oc cb =
     put_device a ((device_at cb a)\<lparr>d_next_outcomes := d_next_outcomes (device_at cb a) @ [oc]\<rparr>) cb"

definition refuse_next :: "contracts \<Rightarrow> u8 \<Rightarrow> u8 \<Rightarrow> canned_bus \<Rightarrow> canned_bus" where
  "refuse_next ct a reason = inject_outcome a (byte_of ct CRUMBS_ACK_REFUSED, reason)"

definition reject_next :: "contracts \<Rightarrow> u8 \<Rightarrow> u8 \<Rightarrow> canned_bus \<Rightarrow> canned_bus" where
  "reject_next ct a reason = inject_outcome a (byte_of ct CRUMBS_ACK_REJECTED, reason)"

definition drop_next :: "u8 \<Rightarrow> int \<Rightarrow> canned_bus \<Rightarrow> canned_bus" where
  "drop_next a n cb =
     put_device a ((device_at cb a)\<lparr>d_drop_count := d_drop_count (device_at cb a) + n\<rparr>) cb"

definition fail_ack_reads :: "u8 \<Rightarrow> int \<Rightarrow> int \<Rightarrow> canned_bus \<Rightarrow> canned_bus" where
  "fail_ack_reads a n skip cb =
     put_device a ((device_at cb a)\<lparr>d_ack_read_skip := skip, d_ack_read_failures := n\<rparr>) cb"

definition writes_of :: "canned_bus \<Rightarrow> u8 \<Rightarrow> u8 \<Rightarrow> int" where
  "writes_of cb a p =
     (case cb_devices cb a of None \<Rightarrow> 0
      | Some dev \<Rightarrow> (case d_writes_by_opcode dev p of None \<Rightarrow> 0 | Some n \<Rightarrow> n))"

definition trip_watchdog :: "u8 \<Rightarrow> canned_bus \<Rightarrow> canned_bus" where
  "trip_watchdog a cb =
     (case cb_devices cb a of None \<Rightarrow> cb
      | Some dev \<Rightarrow> put_device a (dev\<lparr>d_watchdog_tripped := True,
          d_watchdog_trip_count := d_watchdog_trip_count dev + 1\<rparr>) cb)"

subsection \<open>Writes\<close>

definition duty_on_ms :: "u16 \<Rightarrow> u8 \<Rightarrow> u16" where
  "duty_on_ms period duty = of_nat (unat period * unat duty div 100)"

text \<open>What an applied command frame does to the simulated device.\<close>

definition apply_set :: "contracts \<Rightarrow> crumbs_message \<Rightarrow> device_state \<Rightarrow> device_state" where
  "apply_set ct m dev =
     (let p = m_opcode m; d = m_data m; n = length d;
          dcmt = (d_type_id dev = byte_of ct DCMT_TYPE_ID);
          rlht = (d_type_id dev = byte_of ct RLHT_TYPE_ID)
      in if dcmt \<and> p = byte_of ct DCMT_OP_SET_OPEN_LOOP \<and> 4 \<le> n then
           dev\<lparr>d_dcmt_m1_pwm := read_u16_le d, d_dcmt_m2_pwm := read_u16_le (drop 2 d)\<rparr>
         else if dcmt \<and> p = byte_of ct DCMT_OP_SET_MODE \<and> 1 \<le> n then dev\<lparr>d_dcmt_mode := d ! 0\<rparr>
         else if rlht \<and> p = byte_of ct RLHT_OP_SET_MODE \<and> 1 \<le> n then dev\<lparr>d_rlht_mode := d ! 0\<rparr>
         else if rlht \<and> p = byte_of ct RLHT_OP_SET_SETPOINTS \<and> 4 \<le> n then
           dev\<lparr>d_rlht_sp1_deci_c := read_u16_le d, d_rlht_sp2_deci_c := read_u16_le (drop 2 d)\<rparr>
         else if rlht \<and> p = byte_of ct RLHT_OP_SET_OPEN_DUTY \<and> 2 \<le> n then
           dev\<lparr>d_rlht_on1_ms := duty_on_ms (d_rlht_period1_ms dev) (d ! 0),
               d_rlht_on2_ms := duty_on_ms (d_rlht_period2_ms dev) (d ! 1)\<rparr>
         else if rlht \<and> p = byte_of ct RLHT_OP_SET_TC_SELECT \<and> 2 \<le> n then
           dev\<lparr>d_rlht_tc1 := d ! 0, d_rlht_tc2 := d ! 1\<rparr>
         else if p = byte_of ct BREAD_OP_SET_WATCHDOG \<and> 2 \<le> n then
           dev\<lparr>d_watchdog_timeout_ms := le_value (d ! 0) (d ! 1)\<rparr>
         else if p = byte_of ct BREAD_OP_CLEAR_WATCHDOG_TRIP \<and>
                 n = num_of ct BREAD_WATCHDOG_CLEAR_TRIP_PAYLOAD_LEN then
           dev\<lparr>d_watchdog_tripped := False\<rparr>
         else dev)"

definition count_write :: "u8 \<Rightarrow> device_state \<Rightarrow> device_state" where
  "count_write p dev =
     dev\<lparr>d_writes_by_opcode := (d_writes_by_opcode dev)
           (p \<mapsto> (case d_writes_by_opcode dev p of None \<Rightarrow> 0 | Some n \<Rightarrow> n) + 1)\<rparr>"

text \<open>The injected outcome of the next command frame, applied when none is.\<close>

definition next_outcome :: "contracts \<Rightarrow> device_state \<Rightarrow> u8 \<times> u8" where
  "next_outcome ct dev =
     (case d_next_outcomes dev of [] \<Rightarrow> (byte_of ct CRUMBS_ACK_APPLIED, 0) | oc # _ \<Rightarrow> oc)"

definition apply_message :: "contracts \<Rightarrow> crumbs_message \<Rightarrow> device_state \<Rightarrow> device_state" where
  "apply_message ct m dev =
     (if m_opcode m = kSetReplyOpcode \<and> 1 \<le> length (m_data m) then
        dev\<lparr>d_pending_reply_opcode := m_data m ! 0, d_has_pending := True\<rparr>
      else
        let dev1 = count_write (m_opcode m) dev in
        if 0 < d_drop_count dev1 then dev1\<lparr>d_drop_count := d_drop_count dev1 - 1\<rparr>
        else
          let (status, reason) = next_outcome ct dev1;
              dev2 = dev1\<lparr>d_next_outcomes := drop 1 (d_next_outcomes dev1),
                          d_ack_opcode := m_opcode m, d_ack_status := status,
                          d_ack_reason := reason, d_ack_counter := d_ack_counter dev1 + 1\<rparr>
          in if status \<noteq> byte_of ct CRUMBS_ACK_APPLIED then dev2 else apply_set ct m dev2)"

definition apply_write :: "contracts \<Rightarrow> u8 \<Rightarrow> bytes \<Rightarrow> canned_bus \<Rightarrow> canned_bus" where
  "apply_write ct a bs cb =
     (case cb_devices cb a of None \<Rightarrow> cb
      | Some dev \<Rightarrow>
          (case crumbs_decode_message ct bs of
             Inl _ \<Rightarrow> cb
           | Inr m \<Rightarrow> put_device a (apply_message ct m dev) cb))"

subsection \<open>Replies\<close>

text \<open>The payload for the pending query with the device after it was built, or the failure.\<close>

definition reply_payload :: "contracts \<Rightarrow> device_state \<Rightarrow> (string + bytes) \<times> device_state" where
  "reply_payload ct dev =
     (let p = d_pending_reply_opcode dev in
      if d_type_id dev = byte_of ct RLHT_TYPE_ID \<and> p = byte_of ct RLHT_OP_GET_STATE then
        (Inr (build_rlht_state_payload ct dev), dev)
      else if d_type_id dev = byte_of ct DCMT_TYPE_ID \<and> p = byte_of ct DCMT_OP_GET_STATE then
        (Inr (build_dcmt_state_payload ct dev), dev)
      else if p = byte_of ct BREAD_OP_GET_WATCHDOG then
        (Inr (build_watchdog_payload (d_watchdog_timeout_ms dev) (d_watchdog_tripped dev)
                (d_watchdog_trip_count dev)), dev)
      else if p = byte_of ct CRUMBS_CMD_GET_ACK then
        let ack = (\<lambda>dev. Inr [d_ack_counter dev, d_ack_opcode dev, d_ack_status dev, d_ack_reason dev]) in
        if 0 < d_ack_read_skip dev then
          (ack dev, dev\<lparr>d_ack_read_skip := d_ack_read_skip dev - 1\<rparr>)
        else if 0 < d_ack_read_failures dev then
          (Inl ''canned bus: injected GET_ACK read failure'',
           dev\<lparr>d_ack_read_failures := d_ack_read_failures dev - 1\<rparr>)
        else (ack dev, dev)
      else (Inl ''canned bus: no canned response for requested reply'', dev))"

definition reply_message :: "device_state \<Rightarrow> bytes \<Rightarrow> crumbs_message" where
  "reply_message dev payload =
     \<lparr>m_type_id = d_type_id dev, m_opcode = d_pending_reply_opcode dev, m_data = payload\<rparr>"

definition bus_error :: "string \<Rightarrow> i2c_status" where
  "bus_error msg = I2cFailure I2cBusError msg 0"

definition emit_reply :: "contracts \<Rightarrow> u8 \<Rightarrow> nat \<Rightarrow> canned_bus \<Rightarrow> i2c_status \<times> bytes \<times> canned_bus" where
  "emit_reply ct a rx_len cb =
     (if rx_len = 0 then
        (I2cFailure I2cInvalidArgument ''canned read requires rx buffer'' 0, [], cb)
      else case cb_devices cb a of
        None \<Rightarrow> (bus_error ''canned bus: no seeded device at address'', [], cb)
      | Some dev \<Rightarrow>
          if \<not> d_has_pending dev then
            (bus_error ''canned bus: no query pending for address'', [], cb)
          else case reply_payload ct dev of
            (Inl why, dev') \<Rightarrow> (bus_error why, [], put_device a dev' cb)
          | (Inr payload, dev') \<Rightarrow>
              let frame = crumbs_encode_message ct (reply_message dev payload) in
              if frame = [] then
                (bus_error ''canned bus: failed to encode reply'', [], put_device a dev' cb)
              else (I2cOk, take rx_len (frame @ replicate (rx_len - length frame) 0xFF),
                    put_device a dev' cb))"

subsection \<open>The bus\<close>

definition bus_not_open :: i2c_status where
  "bus_not_open = I2cFailure I2cNotOpen ''bus not open'' 0"

definition canned_write :: "contracts \<Rightarrow> u8 \<Rightarrow> bytes \<Rightarrow> canned_bus \<Rightarrow> i2c_status \<times> canned_bus" where
  "canned_write ct a bs cb =
     (if \<not> cb_opened cb then (bus_not_open, cb)
      else if bs = [] then (I2cFailure I2cInvalidArgument ''write requires tx_len>0'' 0, cb)
      else (I2cOk, apply_write ct a bs cb))"

definition canned_read ::
  "contracts \<Rightarrow> u8 \<Rightarrow> nat \<Rightarrow> u32 \<Rightarrow> canned_bus \<Rightarrow> i2c_status \<times> bytes \<times> canned_bus" where
  "canned_read ct a rx_len timeout_us cb =
     (if \<not> cb_opened cb then (bus_not_open, [], cb) else emit_reply ct a rx_len cb)"

definition write_then_read ::
  "contracts \<Rightarrow> u8 \<Rightarrow> bytes \<Rightarrow> nat \<Rightarrow> canned_bus \<Rightarrow> i2c_status \<times> bytes \<times> canned_bus" where
  "write_then_read ct a bs rx_len cb =
     (if \<not> cb_opened cb then (bus_not_open, [], cb)
      else
        let cb1 = (if bs \<noteq> [] then apply_write ct a bs cb else cb) in
        if rx_len = 0 then (I2cOk, [], cb1) else emit_reply ct a rx_len cb1)"

definition canned_i2c ::
  "contracts \<Rightarrow> (canned_bus \<Rightarrow> int) \<Rightarrow> (canned_bus \<Rightarrow> int) \<Rightarrow> canned_bus i2c_bus" where
  "canned_i2c ct sys steady =
     \<lparr>bus_open = (\<lambda>cb. (I2cOk, cb\<lparr>cb_opened := True\<rparr>)),
      bus_close = (\<lambda>cb. cb\<lparr>cb_opened := False\<rparr>),
      bus_write = canned_write ct, bus_read = canned_read ct, bus_delay_us = (\<lambda>_ cb. cb),
      bus_system_now = sys, bus_steady_now = steady\<rparr>"

lemma canned_i2c_simps [simp]:
  "bus_open (canned_i2c ct sys steady) cb = (I2cOk, cb\<lparr>cb_opened := True\<rparr>)"
  "bus_close (canned_i2c ct sys steady) cb = cb\<lparr>cb_opened := False\<rparr>"
  "bus_write (canned_i2c ct sys steady) = canned_write ct"
  "bus_read (canned_i2c ct sys steady) = canned_read ct"
  "bus_delay_us (canned_i2c ct sys steady) d cb = cb"
  by (simp_all add: canned_i2c_def)

subsection \<open>The canned bus answers in frames\<close>

definition canned_accept :: "contracts \<Rightarrow> u8 \<Rightarrow> crumbs_message \<Rightarrow> canned_bus \<Rightarrow> canned_bus" where
  "canned_accept ct a m cb =
     (case cb_devices cb a of None \<Rightarrow> cb | Some dev \<Rightarrow> put_device a (apply_message ct m dev) cb)"

definition canned_answer :: "contracts \<Rightarrow> u8 \<Rightarrow> canned_bus \<Rightarrow> (crumbs_message \<times> canned_bus) option" where
  "canned_answer ct a cb =
     (case cb_devices cb a of None \<Rightarrow> None
      | Some dev \<Rightarrow>
          if \<not> d_has_pending dev then None
          else case reply_payload ct dev of
            (Inl _, _) \<Rightarrow> None
          | (Inr payload, dev') \<Rightarrow> Some (reply_message dev payload, put_device a dev' cb))"

lemma payload_lengths [simp]:
  "length (build_rlht_state_payload ct dev) = 19"
  "length (build_dcmt_state_payload ct dev) = 20"
  "length (build_watchdog_payload t b n) = 5"
  by (simp_all add: build_rlht_state_payload_def build_dcmt_state_payload_def
      build_watchdog_payload_def Let_def)

lemma reply_payload_fits: "reply_payload ct dev = (Inr payload, dev') \<Longrightarrow> length payload \<le> 27"
  by (auto simp: reply_payload_def Let_def split: if_splits)

lemma put_device_simps [simp]:
  "cb_devices (put_device a dev cb) = (cb_devices cb)(a \<mapsto> dev)"
  "cb_opened (put_device a dev cb) = cb_opened cb"
  "put_device a dev (put_device a dev0 cb) = put_device a dev cb"
  by (simp_all add: put_device_def)

lemma canned_answer_fits: "canned_answer ct a cb = Some (m, cb') \<Longrightarrow> length (m_data m) \<le> 27"
  using reply_payload_fits
  by (fastforce simp: canned_answer_def reply_message_def split: option.splits if_splits prod.splits sum.splits)

lemma emit_reply_answer:
  assumes "codec_ok ct" "canned_answer ct a cb = Some (m, cb')"
  shows "emit_reply ct a (num_of ct CRUMBS_MESSAGE_MAX_SIZE) cb =
     (I2cOk, crumbs_encode_message ct m @
        replicate (num_of ct CRUMBS_MESSAGE_MAX_SIZE - length (crumbs_encode_message ct m)) 0xFF, cb')"
proof -
  note * = codec_okD [OF assms(1) canned_answer_fits [OF assms(2)]]
  have pos: "0 < num_of ct CRUMBS_MESSAGE_MAX_SIZE"
    using *(1,2) by (metis le_zero_eq length_0_conv neq0_conv)
  from assms(2) obtain dev payload dev' where d: "cb_devices cb a = Some dev" "d_has_pending dev"
      "reply_payload ct dev = (Inr payload, dev')" "m = reply_message dev payload"
      "cb' = put_device a dev' cb"
    by (auto simp: canned_answer_def split: option.splits if_splits prod.splits sum.splits)
  with * pos show ?thesis by (simp add: emit_reply_def Let_def)
qed

lemma emit_reply_silent:
  "canned_answer ct a cb = None \<Longrightarrow> \<not> i2c_ok (fst (emit_reply ct a n cb))"
  by (auto simp: canned_answer_def emit_reply_def bus_error_def
      split: option.splits if_splits prod.splits sum.splits)

interpretation canned: framed_bus "canned_i2c ct sys steady" ct cb_opened
    "canned_answer ct" "canned_accept ct"
proof
  show "length (fst (snd (bus_read (canned_i2c ct sys steady) a n t b))) \<le> n" for a n t b
    by (auto simp: canned_read_def emit_reply_def Let_def min_def
        split: option.splits prod.splits sum.splits)
  show "\<exists>pad. bus_read (canned_i2c ct sys steady) a (num_of ct CRUMBS_MESSAGE_MAX_SIZE) t b =
              (I2cOk, crumbs_encode_message ct m @ pad, b')"
    if "codec_ok ct" "cb_opened b" "canned_answer ct a b = Some (m, b')" for b a m b' t
    using emit_reply_answer [OF that(1,3)] that(2) by (simp add: canned_read_def)
  show "\<not> i2c_ok (fst (bus_read (canned_i2c ct sys steady) a (num_of ct CRUMBS_MESSAGE_MAX_SIZE) t b))"
    if "cb_opened b" "canned_answer ct a b = None" for a b t
    using emit_reply_silent [OF that(2)] that(1) by (simp add: canned_read_def)
  show "bus_write (canned_i2c ct sys steady) a (crumbs_encode_message ct m) b =
      (I2cOk, canned_accept ct a m b)"
    if "codec_ok ct" "cb_opened b" "length (m_data m) \<le> 27" for b m a
    using codec_okD [OF that(1,3)] that(2)
    by (simp add: canned_write_def apply_write_def canned_accept_def split: option.splits)
qed (auto simp: canned_accept_def canned_answer_fits split: option.splits)

subsection \<open>Sends and queries at the canned bus\<close>

text \<open>The device with the query \<open>p\<close> staged.\<close>

definition staged :: "u8 \<Rightarrow> device_state \<Rightarrow> device_state" where
  "staged p dev = dev\<lparr>d_pending_reply_opcode := p, d_has_pending := True\<rparr>"

lemma accept_query:
  assumes "cb_devices cb a = Some dev"
  shows "canned_accept ct a (populate_message (query_frame p)) cb = put_device a (staged p dev) cb"
  using assms by (simp add: canned_accept_def apply_message_def populate_message_def query_frame_def
      staged_def)

abbreviation canned_transport ::
  "contracts \<Rightarrow> (canned_bus \<Rightarrow> int) \<Rightarrow> (canned_bus \<Rightarrow> int) \<Rightarrow> canned_bus controller_scan \<Rightarrow>
   canned_bus crumbs_transport transport" where
  "canned_transport ct sys steady scan \<equiv> crumbs_over_i2c ct (canned_i2c ct sys steady) scan"

text \<open>An open session on an open canned bus with the device \<open>dev\<close> at the address \<open>a\<close>.\<close>

definition has_device :: "canned_bus crumbs_transport session \<Rightarrow> u8 \<Rightarrow> device_state \<Rightarrow> bool" where
  "has_device ss a dev \<longleftrightarrow>
     (\<exists>cb. on_bus ss cb \<and> cb_opened cb \<and> cb_devices cb a = Some dev) \<and> status_ok (validate_address a)"

lemma canned_session_send:
  assumes "codec_ok ct" "has_device ss a dev" "length (fr_payload f) \<le> 27"
  shows "\<exists>ss'. session_send (canned_transport ct sys steady scan) a f ss = (ok_once, ss') \<and>
     s_options ss' = s_options ss \<and> has_device ss' a (apply_message ct (populate_message f) dev)"
proof -
  from assms(2) obtain cb where cb: "on_bus ss cb" "cb_opened cb" "cb_devices cb a = Some dev"
    "status_ok (validate_address a)" by (auto simp: has_device_def)
  from canned.session_send_accept [OF assms(1) cb(1,2,4) assms(3)] obtain ss' where
    "session_send (canned_transport ct sys steady scan) a f ss = (ok_once, ss')"
    "s_options ss' = s_options ss" "on_bus ss' (canned_accept ct a (populate_message f) cb)" by blast
  then show ?thesis
    using cb by (intro exI [of _ ss'])
      (auto simp: has_device_def canned_accept_def intro!: exI)
qed

lemma canned_session_query:
  assumes "codec_ok ct" "has_device ss a dev" "reply_payload ct (staged p dev) = (Inr payload, dev')"
  shows "\<exists>ss'. query_read (canned_transport ct sys steady scan) a p g ss =
     (ok_once, \<lparr>fr_type_id = d_type_id dev, fr_opcode = p, fr_payload = payload\<rparr>, ss') \<and>
     s_options ss' = s_options ss \<and> has_device ss' a dev'"
proof -
  from assms(2) obtain cb where cb: "on_bus ss cb" "cb_opened cb" "cb_devices cb a = Some dev"
    "status_ok (validate_address a)" by (auto simp: has_device_def)
  have "canned_answer ct a (canned_accept ct a (populate_message (query_frame p)) cb) =
      Some (reply_message (staged p dev) payload, put_device a dev' cb)"
    using assms(3) by (simp add: accept_query [OF cb(3)] canned_answer_def) (simp add: staged_def)
  from canned.query_read_answer [OF assms(1) cb(1,2,4) this] obtain ss' where
    "query_read (canned_transport ct sys steady scan) a p g ss =
       (ok_once, to_raw_frame (reply_message (staged p dev) payload), ss')"
    "s_options ss' = s_options ss" "on_bus ss' (put_device a dev' cb)" by blast
  then show ?thesis
    using cb by (intro exI [of _ ss'])
      (auto simp: has_device_def to_raw_frame_def reply_message_def staged_def intro!: exI)
qed

text \<open>
  C28: on a session over the byte-level canned bus, a query with any reply opcode the simulated
  device supports succeeds at the first attempt and returns exactly the payload the device
  builds, with its type id and the opcode asked for: encoding, 0xFF padding to the full buffer,
  length trim and decoding are invisible to the caller. A send succeeds at the first attempt
  and has the device act on exactly the frame sent.
\<close>

theorem canned_session_refines_device:
  assumes "codec_ok ct" "has_device ss a dev"
  shows "(reply_payload ct (staged p dev) = (Inr payload, dev') \<longrightarrow>
     (\<exists>ss'. query_read (canned_transport ct sys steady scan) a p g ss =
       (ok_once, \<lparr>fr_type_id = d_type_id dev, fr_opcode = p, fr_payload = payload\<rparr>, ss') \<and>
       has_device ss' a dev')) \<and>
   (length (fr_payload f) \<le> 27 \<longrightarrow>
     (\<exists>ss'. session_send (canned_transport ct sys steady scan) a f ss = (ok_once, ss') \<and>
       has_device ss' a (apply_message ct (populate_message f) dev)))"
  using canned_session_query [OF assms] canned_session_send [OF assms] by meson

definition sample_session :: "canned_bus \<Rightarrow> canned_bus crumbs_transport session" where
  "sample_session cb =
     new_session \<lparr>ct_bus = Some (cb\<lparr>cb_opened := True\<rparr>), ct_scan_timeout_us = 10000, ct_open = True\<rparr>
       sample_options"

definition sample_dcmt_bus :: canned_bus where
  "sample_dcmt_bus = add_device 0x14 (byte_of sample_contracts DCMT_TYPE_ID) (new_canned_bus ''mock://t'')"

definition sample_rlht_bus :: canned_bus where
  "sample_rlht_bus = add_device 0x0A (byte_of sample_contracts RLHT_TYPE_ID) (new_canned_bus ''mock://t'')"

lemmas [placed_defs] = has_device_def sample_session_def new_session_def on_bus_def new_canned_bus_def
  validate_address_def kMinI2cAddress_def kMaxI2cAddress_def

lemma sample_has_device:
  "has_device (sample_session sample_dcmt_bus) 0x14 (new_device\<lparr>d_type_id := 2\<rparr>)"
  "has_device (sample_session sample_rlht_bus) 0x0A (new_device\<lparr>d_type_id := 1\<rparr>)"
  by (simp_all add: placed_defs sample_dcmt_bus_def sample_rlht_bus_def add_device_def device_at_def)

theorem canned_session_refines_device_witness:
  "\<exists>ss'. query_read (canned_transport sample_contracts (\<lambda>_. 0) (\<lambda>_. 0) undefined) 0x14
        (byte_of sample_contracts BREAD_OP_GET_WATCHDOG) empty_frame (sample_session sample_dcmt_bus) =
      (ok_once, \<lparr>fr_type_id = 2, fr_opcode = 0x7E, fr_payload = [0, 0, 0, 0, 0]\<rparr>, ss')"
proof -
  have "reply_payload sample_contracts (staged 0x7E (new_device\<lparr>d_type_id := 2\<rparr>)) =
      (Inr [0, 0, 0, 0, 0], staged 0x7E (new_device\<lparr>d_type_id := 2\<rparr>))"
    by (simp add: reply_payload_def staged_def new_device_def build_watchdog_payload_def le_bytes_def)
  with canned_session_refines_device [OF sample_codec_ok sample_has_device(1), where p = "0x7E"
      and payload = "[0, 0, 0, 0, 0]" and g = empty_frame and sys = "\<lambda>_. 0" and steady = "\<lambda>_. 0"
      and scan = undefined and dev' = "staged 0x7E (new_device\<lparr>d_type_id := 2\<rparr>)"]
  show ?thesis by auto
qed

subsection \<open>Acknowledgements count command frames\<close>

definition ack_record :: "device_state \<Rightarrow> crumbs_ack" where
  "ack_record dev =
     \<lparr>ack_counter = d_ack_counter dev, ack_opcode = d_ack_opcode dev,
      ack_status = d_ack_status dev, ack_reason = d_ack_reason dev\<rparr>"

text \<open>The fields that only an applied command changes.\<close>

definition same_outputs :: "device_state \<Rightarrow> device_state \<Rightarrow> bool" where
  "same_outputs x y \<longleftrightarrow>
     d_type_id x = d_type_id y \<and> d_watchdog_timeout_ms x = d_watchdog_timeout_ms y \<and>
     d_watchdog_tripped x = d_watchdog_tripped y \<and> d_dcmt_mode x = d_dcmt_mode y \<and>
     d_dcmt_m1_pwm x = d_dcmt_m1_pwm y \<and> d_dcmt_m2_pwm x = d_dcmt_m2_pwm y \<and>
     d_rlht_mode x = d_rlht_mode y \<and> d_rlht_sp1_deci_c x = d_rlht_sp1_deci_c y \<and>
     d_rlht_sp2_deci_c x = d_rlht_sp2_deci_c y \<and> d_rlht_on1_ms x = d_rlht_on1_ms y \<and>
     d_rlht_on2_ms x = d_rlht_on2_ms y \<and> d_rlht_tc1 x = d_rlht_tc1 y \<and> d_rlht_tc2 x = d_rlht_tc2 y \<and>
     d_rlht_period1_ms x = d_rlht_period1_ms y \<and> d_rlht_period2_ms x = d_rlht_period2_ms y"

definition is_command :: "crumbs_message \<Rightarrow> bool" where
  "is_command m \<longleftrightarrow> \<not> (m_opcode m = kSetReplyOpcode \<and> 1 \<le> length (m_data m))"

lemma apply_set_keeps [simp]:
  "d_ack_counter (apply_set ct m dev) = d_ack_counter dev"
  "d_ack_opcode (apply_set ct m dev) = d_ack_opcode dev"
  "d_ack_status (apply_set ct m dev) = d_ack_status dev"
  "d_ack_reason (apply_set ct m dev) = d_ack_reason dev"
  "d_type_id (apply_set ct m dev) = d_type_id dev"
  "d_drop_count (apply_set ct m dev) = d_drop_count dev"
  "d_next_outcomes (apply_set ct m dev) = d_next_outcomes dev"
  "d_ack_read_skip (apply_set ct m dev) = d_ack_read_skip dev"
  "d_ack_read_failures (apply_set ct m dev) = d_ack_read_failures dev"
  "d_writes_by_opcode (apply_set ct m dev) = d_writes_by_opcode dev"
  by (simp_all add: apply_set_def Let_def)

lemma count_write_keeps [simp]:
  "d_type_id (count_write p dev) = d_type_id dev"
  "d_watchdog_timeout_ms (count_write p dev) = d_watchdog_timeout_ms dev"
  "d_watchdog_tripped (count_write p dev) = d_watchdog_tripped dev"
  "d_watchdog_trip_count (count_write p dev) = d_watchdog_trip_count dev"
  "d_ack_counter (count_write p dev) = d_ack_counter dev"
  "d_ack_opcode (count_write p dev) = d_ack_opcode dev"
  "d_ack_status (count_write p dev) = d_ack_status dev"
  "d_ack_reason (count_write p dev) = d_ack_reason dev"
  "d_next_outcomes (count_write p dev) = d_next_outcomes dev"
  "d_drop_count (count_write p dev) = d_drop_count dev"
  "d_ack_read_skip (count_write p dev) = d_ack_read_skip dev"
  "d_ack_read_failures (count_write p dev) = d_ack_read_failures dev"
  "d_dcmt_mode (count_write p dev) = d_dcmt_mode dev"
  "d_dcmt_m1_pwm (count_write p dev) = d_dcmt_m1_pwm dev"
  "d_dcmt_m2_pwm (count_write p dev) = d_dcmt_m2_pwm dev"
  "d_rlht_mode (count_write p dev) = d_rlht_mode dev"
  "d_rlht_sp1_deci_c (count_write p dev) = d_rlht_sp1_deci_c dev"
  "d_rlht_sp2_deci_c (count_write p dev) = d_rlht_sp2_deci_c dev"
  "d_rlht_on1_ms (count_write p dev) = d_rlht_on1_ms dev"
  "d_rlht_on2_ms (count_write p dev) = d_rlht_on2_ms dev"
  "d_rlht_period1_ms (count_write p dev) = d_rlht_period1_ms dev"
  "d_rlht_period2_ms (count_write p dev) = d_rlht_period2_ms dev"
  "d_rlht_tc1 (count_write p dev) = d_rlht_tc1 dev"
  "d_rlht_tc2 (count_write p dev) = d_rlht_tc2 dev"
  by (simp_all add: count_write_def)

lemma next_outcome_count_write [simp]: "next_outcome ct (count_write p dev) = next_outcome ct dev"
  by (simp add: next_outcome_def)

text \<open>
  C36: every command frame but a lost one moves the acknowledgement counter by exactly one and
  records its opcode with the outcome: the injected one, or applied. A frame that is lost,
  refused or rejected changes no output, no watchdog setting and no trip; a lost one leaves the
  acknowledgement as it was. SET_REPLY touches neither.
\<close>

theorem command_counted_once:
  "let dev' = apply_message ct m dev in
   if \<not> is_command m then ack_record dev' = ack_record dev \<and> same_outputs dev' dev
   else if 0 < d_drop_count dev then
     ack_record dev' = ack_record dev \<and> same_outputs dev' dev \<and>
     d_drop_count dev' = d_drop_count dev - 1
   else
     ack_record dev' =
       \<lparr>ack_counter = d_ack_counter dev + 1, ack_opcode = m_opcode m,
        ack_status = fst (next_outcome ct dev), ack_reason = snd (next_outcome ct dev)\<rparr> \<and>
     d_next_outcomes dev' = drop 1 (d_next_outcomes dev) \<and>
     (same_outputs dev' dev \<or> fst (next_outcome ct dev) = byte_of ct CRUMBS_ACK_APPLIED)"
proof -
  obtain st r where oc: "next_outcome ct dev = (st, r)" by fastforce
  show ?thesis
    by (cases "is_command m"; cases "0 < d_drop_count dev"; cases "st = byte_of ct CRUMBS_ACK_APPLIED")
       (simp_all add: apply_message_def is_command_def ack_record_def same_outputs_def Let_def oc)
qed

subsection \<open>A trip is latched\<close>

datatype bus_op = OpWrite u8 bytes | OpRead u8 nat | OpWriteRead u8 bytes nat

fun canned_op :: "contracts \<Rightarrow> bus_op \<Rightarrow> canned_bus \<Rightarrow> canned_bus" where
  "canned_op ct (OpWrite a bs) cb = snd (canned_write ct a bs cb)"
| "canned_op ct (OpRead a n) cb = snd (snd (canned_read ct a n 0 cb))"
| "canned_op ct (OpWriteRead a bs n) cb = snd (snd (write_then_read ct a bs n cb))"

definition is_clear :: "contracts \<Rightarrow> bytes \<Rightarrow> bool" where
  "is_clear ct bs \<longleftrightarrow>
     (case crumbs_decode_message ct bs of Inl _ \<Rightarrow> False
      | Inr m \<Rightarrow> m_opcode m = byte_of ct BREAD_OP_CLEAR_WATCHDOG_TRIP \<and>
               length (m_data m) = num_of ct BREAD_WATCHDOG_CLEAR_TRIP_PAYLOAD_LEN)"

fun clears :: "contracts \<Rightarrow> u8 \<Rightarrow> bus_op \<Rightarrow> bool" where
  "clears ct a (OpWrite b bs) = (b = a \<and> is_clear ct bs)"
| "clears ct a (OpRead b n) = False"
| "clears ct a (OpWriteRead b bs n) = (b = a \<and> is_clear ct bs)"

definition tripped_at :: "canned_bus \<Rightarrow> u8 \<Rightarrow> bool" where
  "tripped_at cb a \<longleftrightarrow> (\<exists>dev. cb_devices cb a = Some dev \<and> d_watchdog_tripped dev)"

lemma apply_set_trip:
  assumes "d_watchdog_tripped dev"
    and "\<not> (m_opcode m = byte_of ct BREAD_OP_CLEAR_WATCHDOG_TRIP \<and>
           length (m_data m) = num_of ct BREAD_WATCHDOG_CLEAR_TRIP_PAYLOAD_LEN)"
  shows "d_watchdog_tripped (apply_set ct m dev)"
  using assms by (simp add: apply_set_def Let_def) blast

lemma apply_message_trip:
  assumes "d_watchdog_tripped dev"
    and "\<not> (m_opcode m = byte_of ct BREAD_OP_CLEAR_WATCHDOG_TRIP \<and>
           length (m_data m) = num_of ct BREAD_WATCHDOG_CLEAR_TRIP_PAYLOAD_LEN)"
  shows "d_watchdog_tripped (apply_message ct m dev)"
proof -
  obtain st r where oc: "next_outcome ct dev = (st, r)" by fastforce
  show ?thesis
    using assms by (simp add: apply_message_def Let_def oc apply_set_trip)
qed

lemma apply_write_trip:
  assumes "tripped_at cb a" "\<not> (b = a \<and> is_clear ct bs)"
  shows "tripped_at (apply_write ct b bs cb) a"
  using assms apply_message_trip
  by (auto simp: tripped_at_def apply_write_def is_clear_def split: option.splits sum.splits)

lemma reply_payload_trip: "d_watchdog_tripped (snd (reply_payload ct dev)) = d_watchdog_tripped dev"
  by (simp add: reply_payload_def Let_def)

lemma emit_reply_trip:
  "tripped_at cb a \<Longrightarrow> tripped_at (snd (snd (emit_reply ct b n cb))) a"
  using reply_payload_trip [of ct "the (cb_devices cb b)"]
  by (auto simp: tripped_at_def emit_reply_def Let_def split: option.splits prod.splits sum.splits)

lemma canned_op_trip:
  assumes "tripped_at cb a" "\<not> clears ct a e"
  shows "tripped_at (canned_op ct e cb) a"
proof (cases e)
  case (OpWriteRead b bs n)
  with assms apply_write_trip [OF assms(1), of b ct bs] emit_reply_trip show ?thesis
    by (simp add: write_then_read_def Let_def)
qed (use assms apply_write_trip emit_reply_trip in
      \<open>auto simp: canned_write_def canned_read_def\<close>)

text \<open>
  Once the simulated device has tripped its watchdog, the trip survives any traffic on the
  bus, re-arming included, that holds no CLEAR_WATCHDOG_TRIP of the right length to that device.
\<close>

lemma trip_latched:
  assumes "tripped_at cb a" "\<forall>e \<in> set es. \<not> clears ct a e"
  shows "tripped_at (fold (canned_op ct) es cb) a"
  using assms by (induction es arbitrary: cb) (auto simp: canned_op_trip)

end
