(* ===== verification/Compatibility.thy ===== *)
theory Compatibility
  imports Contracts Provider_Config
begin

text \<open>
  \<open>src/devices/common/bread_compatibility\<close> and \<open>device_type.hpp\<close>: the supported BREAD families
  by type id, and the version checks a probed module must pass. The \<open>detail\<close> out parameter is the
  second result.
\<close>

datatype probe_status =
    Supported | UnsupportedType | VersionReadFailed | IncompatibleCrumbsVersion
  | IncompatibleModuleMajor | TypeMismatch

record module_version =
  crumbs_version :: u16
  module_major :: u8
  module_minor :: u8
  module_patch :: u8

definition zero_version :: module_version where
  "zero_version = \<lparr>crumbs_version = 0, module_major = 0, module_minor = 0, module_patch = 0\<rparr>"

definition expected_module_version :: "contracts \<Rightarrow> u8 \<Rightarrow> u8 \<times> u8" where
  "expected_module_version ct type_id =
     (if type_id = byte_of ct RLHT_TYPE_ID then
        (byte_of ct RLHT_MODULE_VER_MAJOR, byte_of ct RLHT_MODULE_VER_MINOR)
      else if type_id = byte_of ct DCMT_TYPE_ID then
        (byte_of ct DCMT_MODULE_VER_MAJOR, byte_of ct DCMT_MODULE_VER_MINOR)
      else (0, 0))"

definition try_parse_bread_type :: "contracts \<Rightarrow> u8 \<Rightarrow> device_type option" where
  "try_parse_bread_type ct type_id =
     (if type_id = byte_of ct RLHT_TYPE_ID then Some Rlht
      else if type_id = byte_of ct DCMT_TYPE_ID then Some Dcmt
      else None)"

fun bread_type_id :: "contracts \<Rightarrow> device_type \<Rightarrow> u8" where
  "bread_type_id ct Rlht = byte_of ct RLHT_TYPE_ID"
| "bread_type_id ct Dcmt = byte_of ct DCMT_TYPE_ID"

fun bread_contract_name :: "device_type \<Rightarrow> string" where
  "bread_contract_name Rlht = ''rlht''"
| "bread_contract_name Dcmt = ''dcmt''"

fun provider_type_id :: "device_type \<Rightarrow> string" where
  "provider_type_id Rlht = ''bread.rlht''"
| "provider_type_id Dcmt = ''bread.dcmt''"

definition evaluate_module_version ::
  "contracts \<Rightarrow> module_version \<Rightarrow> u8 \<Rightarrow> u8 \<Rightarrow> probe_status \<times> string" where
  "evaluate_module_version ct v expected_major expected_minor =
     (if \<not> bread_check_module_compat ct (module_major v) (module_minor v) expected_major expected_minor
      then (IncompatibleModuleMajor,
            ''module major mismatch: expected '' @ nat_to_string (unat expected_major) @
            '' got '' @ nat_to_string (unat (module_major v)))
      else (Supported,
            if module_minor v < expected_minor then
              ''compatible: module minor '' @ nat_to_string (unat (module_minor v)) @
              '' is older than '' @ nat_to_string (unat expected_minor) @
              '', optional features follow the caps flags''
            else ''compatible''))"

definition evaluate_version_compatibility ::
  "contracts \<Rightarrow> u8 \<Rightarrow> module_version \<Rightarrow> probe_status \<times> string" where
  "evaluate_version_compatibility ct type_id v =
     (let expected = expected_module_version ct type_id in
      if fst expected = 0 then (UnsupportedType, ''unsupported BREAD type id'')
      else if \<not> bread_check_crumbs_compat ct (crumbs_version v) then
        (IncompatibleCrumbsVersion,
         ''crumbs version '' @ nat_to_string (unat (crumbs_version v)) @ '' is below minimum'')
      else evaluate_module_version ct v (fst expected) (snd expected))"

fun probe_status_to_string :: "probe_status \<Rightarrow> string" where
  "probe_status_to_string Supported = ''supported''"
| "probe_status_to_string UnsupportedType = ''unsupported_type''"
| "probe_status_to_string VersionReadFailed = ''version_read_failed''"
| "probe_status_to_string IncompatibleCrumbsVersion = ''incompatible_crumbs_version''"
| "probe_status_to_string IncompatibleModuleMajor = ''incompatible_module_major''"
| "probe_status_to_string TypeMismatch = ''type_mismatch''"

subsection \<open>Families and type ids\<close>

lemma try_parse_bread_type_id:
  assumes "labels_distinct ct"
  shows "try_parse_bread_type ct (bread_type_id ct ty) = Some ty"
  using labels_distinctD(1) [OF assms] by (cases ty) (auto simp: try_parse_bread_type_def)

lemma try_parse_bread_type_Some:
  "try_parse_bread_type ct t = Some ty \<Longrightarrow> t = bread_type_id ct ty"
  by (cases ty) (auto simp: try_parse_bread_type_def split: if_splits)

end
