(* ===== verification/Doubles.thy ===== *)
theory Doubles
  imports Prelude
begin

text \<open>
  The C++ \<open>double\<close> as the sources use it, in the temperature setpoints: IEEE 754 binary64
  values as rationals, with round to nearest, ties to even, after each arithmetic operation,
  \<open>std::isfinite\<close>, \<open>std::llround\<close> (half away from zero) and the comparisons. The two
  zeros are one value: no operation used here tells them apart. The two lemmas the adapters
  need are the relative error of one rounding (\<open>round64_error\<close>) and that a rounded product
  near an integer is rounded back to it (\<open>llround_near\<close>).
\<close>

datatype double = DNaN | DInf bool \<comment> \<open>negative\<close> | DFin rat

subsection \<open>Rounding to binary64\<close>

definition flog2_measure :: "rat \<Rightarrow> nat" where
  "flog2_measure x = (if x < 1 then nat \<lfloor>1 / x\<rfloor> + 1 else nat \<lfloor>x\<rfloor>)"

lemma floor_half_less: "2 \<le> y \<Longrightarrow> nat \<lfloor>y / 2\<rfloor> < nat \<lfloor>y :: rat\<rfloor>"
proof -
  assume y: "2 \<le> y"
  then have "\<lfloor>y / 2\<rfloor> \<le> \<lfloor>y - 1\<rfloor>" by (intro floor_mono) simp
  moreover have "1 \<le> \<lfloor>y\<rfloor>" using y by linarith
  ultimately show ?thesis by (simp add: nat_less_eq_zless)
qed

function flog2 :: "rat \<Rightarrow> int" where
  "flog2 x =
     (if x \<le> 0 then 0
      else if x < 1 then flog2 (2 * x) - 1
      else if x < 2 then 0
      else flog2 (x / 2) + 1)"
  by pat_completeness auto

termination
proof (relation "measure flog2_measure")
  fix x :: rat
  assume x: "\<not> x \<le> 0" "x < 1"
  show "(2 * x, x) \<in> measure flog2_measure"
  proof (cases "2 * x < 1")
    case True
    with x have "2 \<le> 1 / x" by (simp add: field_simps)
    then have "nat \<lfloor>1 / x / 2\<rfloor> < nat \<lfloor>1 / x\<rfloor>" by (rule floor_half_less)
    with True x show ?thesis by (simp add: flog2_measure_def mult.commute)
  next
    case False
    with x have "\<lfloor>2 * x\<rfloor> = 1" by (simp add: floor_eq_iff)
    moreover from x have "1 \<le> \<lfloor>1 / x\<rfloor>" by (simp add: field_simps)
    ultimately show ?thesis using False x by (simp add: flog2_measure_def)
  qed
next
  fix x :: rat
  assume "\<not> x \<le> 0" "\<not> x < 1" "\<not> x < 2"
  then show "(x / 2, x) \<in> measure flog2_measure"
    using floor_half_less [of x] by (simp add: flog2_measure_def)
qed simp

declare flog2.simps [simp del]

lemma flog2_bounds: "0 < x \<Longrightarrow> 2 powi flog2 x \<le> x \<and> x < 2 powi (flog2 x + 1)"
proof (induction x rule: flog2.induct)
  case (1 x)
  consider "x < 1" | "1 \<le> x" "x < 2" | "2 \<le> x" by linarith
  then show ?case
  proof cases
    case 1
    with "1.prems" have "2 powi flog2 (2 * x) \<le> 2 * x \<and> 2 * x < 2 powi (flog2 (2 * x) + 1)"
      using "1.IH"(1) by simp
    with 1 "1.prems" show ?thesis
      by (simp add: flog2.simps [of x] power_int_add power_int_diff)
  next
    case 2
    then show ?thesis by (simp add: flog2.simps [of x])
  next
    case 3
    then have "2 powi flog2 (x / 2) \<le> x / 2 \<and> x / 2 < 2 powi (flog2 (x / 2) + 1)"
      using "1.IH"(2) by simp
    with 3 show ?thesis
      by (simp add: flog2.simps [of x] power_int_add)
  qed
qed

definition round_half_even :: "rat \<Rightarrow> int" where
  "round_half_even x =
     (let f = \<lfloor>x\<rfloor>; d = x - of_int f in
      if d < 1 / 2 then f else if 1 / 2 < d then f + 1 else if even f then f else f + 1)"

lemma round_half_even_error: "\<bar>of_int (round_half_even x) - x\<bar> \<le> 1 / 2"
proof -
  define f where "f = \<lfloor>x\<rfloor>"
  have b: "of_int f \<le> x" "x < of_int f + 1" unfolding f_def by linarith+
  consider "x - of_int f < 1 / 2" | "1 / 2 < x - of_int f" | "x - of_int f = 1 / 2" by linarith
  then show ?thesis
    by cases (use b in \<open>simp_all add: round_half_even_def Let_def f_def [symmetric] abs_if\<close>)
qed

text \<open>
  The value nearest to \<open>x\<close> with a 53-bit significand, at the exponent of \<open>x\<close> or at the
  subnormal one.
\<close>

definition round64 :: "rat \<Rightarrow> rat" where
  "round64 x =
     (if x = 0 then 0
      else let u = 2 powi (max (- 1074) (flog2 \<bar>x\<bar> - 52))
           in of_int (round_half_even (x / u)) * u)"

lemma round64_0 [simp]: "round64 0 = 0"
  by (simp add: round64_def)

lemma round64_error:
  assumes "x = 0 \<or> 1 / 1024 \<le> \<bar>x\<bar>"
  shows "\<bar>round64 x - x\<bar> \<le> \<bar>x\<bar> / 2 ^ 53"
proof (cases "x = 0")
  case False
  with assms have big: "1 / 1024 \<le> \<bar>x\<bar>" by simp
  from False have b: "2 powi flog2 \<bar>x\<bar> \<le> \<bar>x\<bar>" "\<bar>x\<bar> < 2 powi (flog2 \<bar>x\<bar> + 1)"
    using flog2_bounds [of "\<bar>x\<bar>"] by auto
  have "(2 :: rat) powi (- 10) = 1 / 1024" by (simp add: power_int_def power_divide)
  with big b(2) have "(2 :: rat) powi (- 10) < 2 powi (flog2 \<bar>x\<bar> + 1)" by linarith
  then have "- 10 < flog2 \<bar>x\<bar> + 1"
    by (rule contrapos_pp) (use power_int_increasing [of "flog2 \<bar>x\<bar> + 1" "- 10" "2 :: rat"] in
        \<open>simp only: not_less; simp\<close>)
  then have exp: "max (- 1074) (flog2 \<bar>x\<bar> - 52) = flog2 \<bar>x\<bar> - 52" by simp
  define u :: rat where "u = 2 powi (flog2 \<bar>x\<bar> - 52)"
  have u: "0 < u" by (simp add: u_def)
  have "u = 2 powi flog2 \<bar>x\<bar> / 2 ^ 52"
    unfolding u_def by (subst power_int_diff) auto
  with b(1) have small: "u / 2 \<le> \<bar>x\<bar> / 2 ^ 53" by (simp add: field_simps)
  have "round64 x - x = (of_int (round_half_even (x / u)) - x / u) * u"
    using False u by (simp add: round64_def exp Let_def u_def [symmetric] algebra_simps)
  then have "\<bar>round64 x - x\<bar> = \<bar>of_int (round_half_even (x / u)) - x / u\<bar> * u"
    using u by (simp add: abs_mult)
  also have "\<dots> \<le> 1 / 2 * u"
    using round_half_even_error u by (intro mult_right_mono) auto
  finally show ?thesis using small by simp
qed simp

subsection \<open>The operations\<close>

definition dbl_of :: "rat \<Rightarrow> double" where
  \<comment> \<open>the result of an arithmetic operation whose exact value is \<open>x\<close>\<close>
  "dbl_of x = (let r = round64 x in if 2 ^ 1024 \<le> \<bar>r\<bar> then DInf (r < 0) else DFin r)"

fun isfinite :: "double \<Rightarrow> bool" where
  "isfinite (DFin _) = True"
| "isfinite _ = False"

fun dbl_lt :: "double \<Rightarrow> double \<Rightarrow> bool" where
  "dbl_lt (DFin a) (DFin b) = (a < b)"
| "dbl_lt (DInf s) (DFin _) = s"
| "dbl_lt (DFin _) (DInf s) = (\<not> s)"
| "dbl_lt (DInf s) (DInf t) = (s \<and> \<not> t)"
| "dbl_lt _ _ = False"

text \<open>\<open>x * 10.0\<close> and \<open>i / 10.0\<close>, the two products the adapters form.\<close>

fun dbl_times_10 :: "double \<Rightarrow> double" where
  "dbl_times_10 (DFin a) = dbl_of (a * 10)"
| "dbl_times_10 d = d"

definition int_div_10 :: "int \<Rightarrow> double" where
  "int_div_10 i = dbl_of (of_int i / 10)"

text \<open>
  \<open>std::llround\<close>: nearest integer, half away from zero. Its value on a NaN or an infinity is
  unspecified in C++; the adapters call it on finite values only.
\<close>

definition round_half_away :: "rat \<Rightarrow> int" where
  "round_half_away r = (if r < 0 then - \<lfloor>- r + 1 / 2\<rfloor> else \<lfloor>r + 1 / 2\<rfloor>)"

fun llround :: "double \<Rightarrow> int" where
  "llround (DFin r) = round_half_away r"
| "llround _ = 0"

lemma llround_near: "\<bar>r - of_int i\<bar> < 1 / 2 \<Longrightarrow> round_half_away r = i"
proof -
  assume "\<bar>r - of_int i\<bar> < 1 / 2"
  then have "\<lfloor>- r + 1 / 2\<rfloor> = - i" "\<lfloor>r + 1 / 2\<rfloor> = i" by linarith+
  then show ?thesis by (simp add: round_half_away_def)
qed

lemma round_half_away_bounds:
  assumes "of_int lo - 1 / 2 < r" "r < of_int hi + 1 / 2"
  shows "lo \<le> round_half_away r" and "round_half_away r \<le> hi"
  using assms unfolding round_half_away_def by (auto simp: le_floor_iff floor_le_iff; linarith)+

lemma round64_abs_le:
  assumes "x = 0 \<or> 1 / 1024 \<le> \<bar>x\<bar>"
  shows "\<bar>round64 x\<bar> \<le> \<bar>x\<bar> * (1 + 1 / 2 ^ 53)"
proof -
  have "\<bar>round64 x\<bar> \<le> \<bar>round64 x - x\<bar> + \<bar>x\<bar>" by linarith
  with round64_error [OF assms] show ?thesis by (simp add: algebra_simps)
qed

text \<open>A value in tenths survives the division and the multiplication by ten.\<close>

lemma deci_round_trip:
  assumes "\<bar>i\<bar> \<le> 32768"
  shows "llround (dbl_times_10 (int_div_10 i)) = i"
proof (cases "i = 0")
  case True
  then show ?thesis
    by (simp add: int_div_10_def dbl_of_def llround_near)
next
  case False
  define x y :: rat where "x = of_int i / 10" and "y = round64 x"
  have ai: "1 \<le> \<bar>of_int i :: rat\<bar>" "\<bar>of_int i :: rat\<bar> \<le> 32768"
    using False assms by linarith+
  have x: "1 / 10 \<le> \<bar>x\<bar>" "\<bar>x\<bar> \<le> 32768 / 10" using ai by (auto simp: x_def)
  have ey: "\<bar>y - x\<bar> \<le> \<bar>x\<bar> / 2 ^ 53" unfolding y_def by (rule round64_error) (use x in auto)
  have by_x: "\<bar>x\<bar> / 2 ^ 53 \<le> 1 / 1000000" using x(2) by simp
  with ey have dy: "\<bar>y - x\<bar> \<le> 1 / 1000000" by linarith
  have y: "1 / 20 \<le> \<bar>y\<bar>" "\<bar>y\<bar> \<le> 4000" using dy x by linarith+
  have ez: "\<bar>round64 (y * 10) - y * 10\<bar> \<le> \<bar>y * 10\<bar> / 2 ^ 53"
    by (rule round64_error) (use y in \<open>auto simp: abs_mult\<close>)
  have "\<bar>y * 10\<bar> / 2 ^ 53 \<le> 1 / 1000000" using y(2) by (simp add: abs_mult)
  with ez have dz: "\<bar>round64 (y * 10) - y * 10\<bar> \<le> 1 / 1000000" by linarith
  have near: "\<bar>round64 (y * 10) - of_int i\<bar> < 1 / 2"
    using dz dy unfolding x_def by linarith
  have fin_y: "\<bar>y\<bar> < 2 ^ 1024" using y(2) by (rule le_less_trans) simp
  have "\<bar>round64 (y * 10)\<bar> \<le> 32769" using near ai by linarith
  then have fin_z: "\<bar>round64 (y * 10)\<bar> < 2 ^ 1024" by (rule le_less_trans) simp
  from fin_y fin_z show ?thesis
    by (simp add: int_div_10_def dbl_of_def Let_def x_def [symmetric] y_def [symmetric]
        llround_near [OF near] not_le)
qed

subsection \<open>Products of bounded values stay bounded\<close>

lemma round64_small:
  assumes "\<bar>x\<bar> < 1 / 1024"
  shows "\<bar>round64 x\<bar> \<le> 1"
proof (cases "x = 0")
  case False
  define e where "e = max (- 1074) (flog2 \<bar>x\<bar> - 52)"
  define u :: rat where "u = 2 powi e"
  have "2 powi flog2 \<bar>x\<bar> \<le> \<bar>x\<bar>" using flog2_bounds [of "\<bar>x\<bar>"] False by auto
  with assms have "(2 :: rat) powi flog2 \<bar>x\<bar> < 2 powi 0" by simp
  then have "flog2 \<bar>x\<bar> < 0"
    by (rule contrapos_pp) (use power_int_increasing [of 0 "flog2 \<bar>x\<bar>" "2 :: rat"] in
        \<open>simp only: not_less; simp\<close>)
  then have "e \<le> 0" by (simp add: e_def)
  then have u: "0 < u" "u \<le> 1"
    using power_int_increasing [of e 0 "2 :: rat"] by (simp_all add: u_def)
  have "round64 x - x = (of_int (round_half_even (x / u)) - x / u) * u"
    using False u by (simp add: round64_def Let_def e_def [symmetric] u_def [symmetric] algebra_simps)
  then have "\<bar>round64 x - x\<bar> = \<bar>of_int (round_half_even (x / u)) - x / u\<bar> * u"
    using u by (simp add: abs_mult)
  also have "\<dots> \<le> 1 / 2 * 1"
    using round_half_even_error u by (intro mult_mono) auto
  finally show ?thesis using assms by linarith
qed simp

lemma round64_shift:
  assumes "\<bar>x\<bar> \<le> 40000"
  shows "\<bar>round64 x - x\<bar> \<le> 1 / 1000000 \<or> \<bar>round64 x\<bar> \<le> 1"
proof (cases "\<bar>x\<bar> < 1 / 1024")
  case False
  then have "\<bar>round64 x - x\<bar> \<le> \<bar>x\<bar> / 2 ^ 53" by (intro round64_error) simp
  moreover have "\<bar>x\<bar> / 2 ^ 53 \<le> 1 / 1000000" using assms by simp
  ultimately show ?thesis by linarith
qed (simp add: round64_small)

text \<open>
  A finite value between \<open>lo / 10\<close> and \<open>hi / 10\<close>, as doubles, is between \<open>lo\<close> and \<open>hi\<close> once
  multiplied by ten and rounded.
\<close>

lemma llround_times_10_bounds:
  assumes "isfinite d" "\<not> dbl_lt d (int_div_10 lo)" "\<not> dbl_lt (int_div_10 hi) d"
    and "- 32768 \<le> lo" "lo \<le> - 2" "2 \<le> hi" "hi \<le> 32768"
  shows "lo \<le> llround (dbl_times_10 d)" and "llround (dbl_times_10 d) \<le> hi"
proof -
  obtain r where d: "d = DFin r" using assms(1) by (cases d) auto
  have limit: "int_div_10 i = DFin (round64 (of_int i / 10)) \<and>
      \<bar>round64 (of_int i / 10) - of_int i / 10\<bar> \<le> 1 / 1000000"
    if "\<bar>i\<bar> \<le> 32768" "2 \<le> \<bar>i\<bar>" for i
  proof -
    have i: "\<bar>of_int i :: rat\<bar> \<le> 32768" "2 \<le> \<bar>of_int i :: rat\<bar>" using that by linarith+
    have "\<bar>round64 (of_int i / 10) - of_int i / 10\<bar> \<le> \<bar>of_int i / 10\<bar> / 2 ^ 53"
      by (rule round64_error) (use i in simp)
    moreover have "\<bar>of_int i / 10\<bar> / 2 ^ 53 \<le> (1 / 1000000 :: rat)" using i by simp
    ultimately have near: "\<bar>round64 (of_int i / 10) - of_int i / 10\<bar> \<le> (1 / 1000000 :: rat)" by linarith
    then have "\<bar>round64 (of_int i / 10 :: rat)\<bar> \<le> 4000" using i by linarith
    then have "\<bar>round64 (of_int i / 10 :: rat)\<bar> < 2 ^ 1024" by (rule le_less_trans) simp
    with near show ?thesis by (simp add: int_div_10_def dbl_of_def Let_def not_le)
  qed
  have lo: "round64 (of_int lo / 10) \<le> r" and hi: "r \<le> round64 (of_int hi / 10)"
    using assms(2-) limit [of lo] limit [of hi] by (auto simp: d not_less)
  have lo': "of_int lo / 10 - 1 / 1000000 \<le> r" and hi': "r \<le> of_int hi / 10 + 1 / 1000000"
    using lo hi limit [of lo] limit [of hi] assms(4-) by linarith+
  have b: "- 32768 \<le> (of_int lo :: rat)" "(of_int lo :: rat) \<le> - 2" "2 \<le> (of_int hi :: rat)"
    "(of_int hi :: rat) \<le> 32768" using assms(4-) by linarith+
  have r10: "\<bar>r * 10\<bar> \<le> 40000" using lo' hi' b by linarith
  have z: "of_int lo - 1 / 2 < round64 (r * 10)" "round64 (r * 10) < of_int hi + 1 / 2"
    using round64_shift [OF r10] lo' hi' b by linarith+
  have "\<bar>round64 (r * 10)\<bar> \<le> 40000" using z b by linarith
  then have "\<bar>round64 (r * 10)\<bar> < 2 ^ 1024" by (rule le_less_trans) simp
  then have "llround (dbl_times_10 d) = round_half_away (round64 (r * 10))"
    by (simp add: d dbl_of_def Let_def not_le)
  then show "lo \<le> llround (dbl_times_10 d)" "llround (dbl_times_10 d) \<le> hi"
    using round_half_away_bounds [OF z] by simp_all
qed

lemma int_div_10_finite:
  assumes "\<bar>i\<bar> \<le> 32768"
  shows "isfinite (int_div_10 i)"
proof -
  have "\<bar>of_int i / 10 :: rat\<bar> \<le> 40000" using assms by linarith
  from round64_shift [OF this] this have "\<bar>round64 (of_int i / 10 :: rat)\<bar> \<le> 50000" by linarith
  then have "\<bar>round64 (of_int i / 10 :: rat)\<bar> < 2 ^ 1024" by (rule le_less_trans) simp
  then show ?thesis by (simp add: int_div_10_def dbl_of_def Let_def not_le)
qed

lemma int_div_10_near:
  assumes "\<bar>i\<bar> \<le> 32768"
  shows "int_div_10 i = DFin (round64 (of_int i / 10))"
    and "\<bar>round64 (of_int i / 10) - of_int i / 10\<bar> \<le> (1 / 1000000 :: rat)"
proof -
  have i: "\<bar>of_int i :: rat\<bar> \<le> 32768" using assms by linarith
  have "i = 0 \<or> 1 \<le> \<bar>of_int i :: rat\<bar>" by linarith
  then have "\<bar>round64 (of_int i / 10) - of_int i / 10\<bar> \<le> \<bar>of_int i / 10 :: rat\<bar> / 2 ^ 53"
    by (intro round64_error) auto
  moreover have "\<bar>of_int i / 10\<bar> / 2 ^ 53 \<le> (1 / 1000000 :: rat)" using i by simp
  ultimately show "\<bar>round64 (of_int i / 10) - of_int i / 10\<bar> \<le> (1 / 1000000 :: rat)" by linarith
  show "int_div_10 i = DFin (round64 (of_int i / 10))"
    using int_div_10_finite [OF assms] by (auto simp: int_div_10_def dbl_of_def Let_def split: if_splits)
qed

lemma int_div_10_mono:
  assumes "i \<le> j" "\<bar>i\<bar> \<le> 32768" "\<bar>j\<bar> \<le> 32768"
  shows "\<not> dbl_lt (int_div_10 j) (int_div_10 i)"
proof (cases "i = j")
  case False
  with assms(1) have "of_int i + 1 \<le> (of_int j :: rat)" by linarith
  with int_div_10_near(2) [OF assms(2)] int_div_10_near(2) [OF assms(3)]
  have "round64 (of_int i / 10) \<le> (round64 (of_int j / 10) :: rat)" by linarith
  then show ?thesis by (simp add: int_div_10_near(1) assms)
qed (simp add: int_div_10_near(1) assms)

end
