(* ===== verification/Adapter_Helpers.thy ===== *)
theory Adapter_Helpers
  imports Doubles Crumbs_Session
begin

text \<open>
  \<open>src/devices/common/adapter_helpers.hpp\<close>: the results, argument access, values and error
  mapping the device adapters share. \<open>Value\<close>, \<open>SignalValue\<close> and \<open>Status\<close> are generated from the
  protocol's \<open>.proto\<close> file: a value is its type tag with one getter per kind (an absent field
  reads as its default), a call's argument map a map, a status code the enumerators the sources
  use. The time stamp of a signal value is not modelled.
\<close>

datatype status_code =
    CODE_OK | CODE_INVALID_ARGUMENT | CODE_NOT_FOUND | CODE_FAILED_PRECONDITION | CODE_OUT_OF_RANGE
  | CODE_UNAVAILABLE | CODE_UNIMPLEMENTED | CODE_INTERNAL | CODE_DEADLINE_EXCEEDED

datatype value_type = VT_UNSPECIFIED | VT_BOOL | VT_INT64 | VT_UINT64 | VT_DOUBLE | VT_STRING

record "value" =
  v_type :: value_type
  v_bool :: bool
  v_int64 :: int
  v_uint64 :: nat
  v_double :: double
  v_string :: string

definition empty_value :: "value" where
  "empty_value = \<lparr>v_type = VT_UNSPECIFIED, v_bool = False, v_int64 = 0, v_uint64 = 0,
                  v_double = DFin 0, v_string = []\<rparr>"

type_synonym value_map = "string \<rightharpoonup> value"

datatype quality = QUALITY_OK | QUALITY_FAULT

record signal_value =
  sv_id :: string
  sv_value :: "value"
  sv_quality :: quality

record adapter_read_result =
  rd_ok :: bool
  rd_code :: status_code
  rd_message :: string
  rd_values :: "signal_value list"

record adapter_call_result =
  cr_ok :: bool
  cr_code :: status_code
  cr_message :: string

record safe_output_step =
  step_function_id :: u32
  step_name :: string
  step_args :: value_map

text \<open>The aggregate initialisers \<open>{false, code, message, {}}\<close> and \<open>{ok, code, message}\<close>.\<close>

definition read_error :: "status_code \<Rightarrow> string \<Rightarrow> adapter_read_result" where
  "read_error code msg = \<lparr>rd_ok = False, rd_code = code, rd_message = msg, rd_values = []\<rparr>"

definition read_values :: "signal_value list \<Rightarrow> adapter_read_result" where
  "read_values vals = \<lparr>rd_ok = True, rd_code = CODE_UNAVAILABLE, rd_message = [], rd_values = vals\<rparr>"

definition call_error :: "status_code \<Rightarrow> string \<Rightarrow> adapter_call_result" where
  "call_error code msg = \<lparr>cr_ok = False, cr_code = code, cr_message = msg\<rparr>"

definition call_ok :: "string \<Rightarrow> adapter_call_result" where
  "call_ok msg = \<lparr>cr_ok = True, cr_code = CODE_OK, cr_message = msg\<rparr>"

lemma result_simps [simp]:
  "\<not> rd_ok (read_error c m)" "rd_code (read_error c m) = c" "rd_message (read_error c m) = m"
  "rd_values (read_error c m) = []"
  "rd_ok (read_values vs)" "rd_values (read_values vs) = vs"
  "\<not> cr_ok (call_error c m)" "cr_code (call_error c m) = c" "cr_message (call_error c m) = m"
  "cr_ok (call_ok m)" "cr_code (call_ok m) = CODE_OK" "cr_message (call_ok m) = m"
  by (simp_all add: read_error_def read_values_def call_error_def call_ok_def)

subsection \<open>Reading a payload\<close>

definition read_u16_le_at :: "bytes \<Rightarrow> nat \<Rightarrow> u16 option" where
  "read_u16_le_at p off =
     (if length p < 2 \<or> length p - 2 < off then None else Some (le_value (p ! off) (p ! (off + 1))))"

definition read_i16_le_at :: "bytes \<Rightarrow> nat \<Rightarrow> i16 option" where
  "read_i16_le_at p off = read_u16_le_at p off"

lemma read_i16_le_bytes [simp]:
  "read_i16_le_at (le_bytes v @ rest) 0 = Some v"
  "read_i16_le_at (le_bytes u @ le_bytes v) 2 = Some v"
  by (simp_all add: read_i16_le_at_def read_u16_le_at_def le_bytes_def le_value_bytes)

subsection \<open>Arguments\<close>

definition get_arg :: "value_type \<Rightarrow> (value \<Rightarrow> 'a) \<Rightarrow> value_map \<Rightarrow> string \<Rightarrow> 'a option" where
  "get_arg ty sel args key =
     (case args key of None \<Rightarrow> None | Some v \<Rightarrow> if v_type v \<noteq> ty then None else Some (sel v))"

definition get_arg_bool :: "value_map \<Rightarrow> string \<Rightarrow> bool option" where
  "get_arg_bool = get_arg VT_BOOL v_bool"

definition get_arg_int64 :: "value_map \<Rightarrow> string \<Rightarrow> int option" where
  "get_arg_int64 = get_arg VT_INT64 v_int64"

definition get_arg_uint64 :: "value_map \<Rightarrow> string \<Rightarrow> nat option" where
  "get_arg_uint64 = get_arg VT_UINT64 v_uint64"

definition get_arg_double :: "value_map \<Rightarrow> string \<Rightarrow> double option" where
  "get_arg_double = get_arg VT_DOUBLE v_double"

definition get_arg_string :: "value_map \<Rightarrow> string \<Rightarrow> string option" where
  "get_arg_string = get_arg VT_STRING v_string"

lemmas get_arg_defs = get_arg_def get_arg_bool_def get_arg_int64_def get_arg_uint64_def
  get_arg_double_def get_arg_string_def

subsection \<open>Values\<close>

definition make_bool_val :: "bool \<Rightarrow> value" where
  "make_bool_val b = empty_value\<lparr>v_type := VT_BOOL, v_bool := b\<rparr>"

definition make_int64_val :: "int \<Rightarrow> value" where
  "make_int64_val i = empty_value\<lparr>v_type := VT_INT64, v_int64 := i\<rparr>"

definition make_uint64_val :: "nat \<Rightarrow> value" where
  "make_uint64_val u = empty_value\<lparr>v_type := VT_UINT64, v_uint64 := u\<rparr>"

definition make_double_val :: "double \<Rightarrow> value" where
  "make_double_val d = empty_value\<lparr>v_type := VT_DOUBLE, v_double := d\<rparr>"

definition make_string_val :: "string \<Rightarrow> value" where
  "make_string_val s = empty_value\<lparr>v_type := VT_STRING, v_string := s\<rparr>"

definition make_signal_value :: "string \<Rightarrow> value \<Rightarrow> quality \<Rightarrow> signal_value" where
  "make_signal_value sid v q = \<lparr>sv_id = sid, sv_value = v, sv_quality = q\<rparr>"

lemma make_val_type [simp]:
  "v_type (make_bool_val b) = VT_BOOL" "v_type (make_int64_val i) = VT_INT64"
  "v_type (make_uint64_val u) = VT_UINT64" "v_type (make_double_val d) = VT_DOUBLE"
  "v_type (make_string_val s) = VT_STRING"
  "v_bool (make_bool_val b) = b" "v_int64 (make_int64_val i) = i" "v_uint64 (make_uint64_val u) = u"
  "v_double (make_double_val d) = d" "v_string (make_string_val s) = s"
  by (simp_all add: make_bool_val_def make_int64_val_def make_uint64_val_def make_double_val_def
      make_string_val_def)

lemma make_signal_value_simps [simp]:
  "sv_id (make_signal_value i v q) = i" "sv_value (make_signal_value i v q) = v"
  "sv_quality (make_signal_value i v q) = q"
  by (simp_all add: make_signal_value_def)

subsection \<open>Session failures as protocol errors\<close>

definition session_error_code_of :: "session_status \<Rightarrow> status_code" where
  "session_error_code_of st =
     (if st_code st = Timeout then CODE_DEADLINE_EXCEEDED
      else if st_code st = DecodeFailed then CODE_INTERNAL else CODE_UNAVAILABLE)"

definition session_error_text :: "session_status \<Rightarrow> string \<Rightarrow> string" where
  "session_error_text st op =
     (if st_code st = Timeout then op @ '' timed out: '' @ st_message st
      else if st_code st = DecodeFailed then op @ '' decode error: '' @ st_message st
      else op @ '' failed: '' @ st_message st)"

definition read_error_from_session :: "session_status \<Rightarrow> string \<Rightarrow> adapter_read_result" where
  "read_error_from_session st op = read_error (session_error_code_of st) (session_error_text st op)"

definition call_error_from_session :: "session_status \<Rightarrow> string \<Rightarrow> adapter_call_result" where
  "call_error_from_session st op = call_error (session_error_code_of st) (session_error_text st op)"

end
