(* ===== verification/Inventory.thy ===== *)
theory Inventory
  imports Compatibility Adapter_Helpers "HOL-Library.Product_Lexorder"
begin

text \<open>
  \<open>src/devices/common/inventory\<close>: the functions and signals a device offers, from its type and
  its capability flags, and the inventory built from probe records and the configured devices.
  The protocol's messages (\<open>ArgSpec\<close>, \<open>FunctionSpec\<close>, \<open>SignalSpec\<close>, \<open>CapabilitySet\<close>, \<open>Device\<close>) are
  records of the fields the sources set. The claim key is spelled by the SDK and an argument.
  \<open>std::sort\<close> is not stable: for probes of equal address and type id the order is unspecified,
  and is the given one here.
\<close>

subsection \<open>Capability sets\<close>

datatype category = CAT_CONFIG | CAT_ACTUATE

datatype arg_range =
    NoRange | UintRange nat nat | IntRange int int | DoubleRange double double

record arg_spec =
  arg_name :: string
  arg_type :: value_type
  arg_description :: string
  arg_required :: bool
  arg_unit :: string
  arg_allowed_values :: "string list"
  arg_range_of :: arg_range

record function_spec =
  fn_id :: u32
  fn_name :: string
  fn_description :: string
  fn_category :: category
  fn_idempotent :: bool
  fn_results :: "arg_spec list"
  fn_args :: "arg_spec list"

record signal_spec =
  sig_id :: string
  sig_name :: string
  sig_description :: string
  sig_type :: value_type
  sig_poll_hint_hz :: double
  sig_stale_after_ms :: nat
  sig_unit :: string

record capability_set =
  cap_functions :: "function_spec list"
  cap_signals :: "signal_spec list"

definition arg :: "string \<Rightarrow> value_type \<Rightarrow> string \<Rightarrow> bool \<Rightarrow> string \<Rightarrow> arg_spec" where
  "arg name ty desc required unit =
     \<lparr>arg_name = name, arg_type = ty, arg_description = desc, arg_required = required,
      arg_unit = unit, arg_allowed_values = [], arg_range_of = NoRange\<rparr>"

definition ranged :: "arg_range \<Rightarrow> arg_spec \<Rightarrow> arg_spec" where
  "ranged r a = a\<lparr>arg_range_of := r\<rparr>"

definition allowed :: "string list \<Rightarrow> arg_spec \<Rightarrow> arg_spec" where
  "allowed vs a = a\<lparr>arg_allowed_values := vs\<rparr>"

text \<open>\<open>add_function\<close> followed by the \<open>add_arg\<close> calls on its result.\<close>

definition function_with ::
  "u32 \<Rightarrow> string \<Rightarrow> string \<Rightarrow> category \<Rightarrow> arg_spec list \<Rightarrow> function_spec" where
  "function_with fid name desc cat args =
     \<lparr>fn_id = fid, fn_name = name, fn_description = desc, fn_category = cat, fn_idempotent = False,
      fn_results = [arg ''accepted'' VT_BOOL ''Whether the call was accepted and applied.'' True []],
      fn_args = args\<rparr>"

definition signal :: "string \<Rightarrow> string \<Rightarrow> value_type \<Rightarrow> string \<Rightarrow> signal_spec" where
  "signal sid desc ty unit =
     \<lparr>sig_id = sid, sig_name = sid, sig_description = desc, sig_type = ty,
      sig_poll_hint_hz = DFin 1, sig_stale_after_ms = 5000, sig_unit = unit\<rparr>"

definition kClearTripDescription :: string where
  "kClearTripDescription =
     ''Clear a latched command-watchdog trip (firmware advertising CLEAR_WATCHDOG_TRIP). Operator action '' @
     ''only: release the software e-stop and put the runtime in MANUAL first (CONFIG calls are refused '' @
     ''while the e-stop is engaged, manual calls are blocked in AUTO, everything in IDLE). Never call it '' @
     ''from a behaviour tree or a mode-transition hook; the runtime does not enforce allowed_modes. A '' @
     ''clear resumes nothing: actuating commands sent while tripped were ignored, so command the device '' @
     ''again afterwards.''"

definition kDcmtClearTripDescription :: string where
  "kDcmtClearTripDescription =
     ''Clear a latched command-watchdog trip (firmware advertising CLEAR_WATCHDOG_TRIP). Operator action '' @
     ''only: release the software e-stop and put the runtime in MANUAL first (CONFIG calls are refused '' @
     ''while the e-stop is engaged, manual calls are blocked in AUTO, everything in IDLE). Never call it '' @
     ''from a behaviour tree or a mode-transition hook; the runtime does not enforce allowed_modes. A '' @
     ''clear resumes nothing: the trip engaged both brakes and actuating commands sent while tripped '' @
     ''were ignored, so command the device again afterwards, starting with set_brake(false, false).''"

definition kTcSelectDescription :: string where
  "kTcSelectDescription =
     ''Choose the thermocouple each heater channel's closed loop follows. Heaters on two channels should not '' @
     ''share one thermocouple. If the slice refuses one channel's change it still applies the other's, so a '' @
     ''refused call may have changed one selection: read channel1_thermocouple and channel2_thermocouple back.''"

definition kTcSelectChannel1Description :: string where
  "kTcSelectChannel1Description =
     ''The thermocouple (1 or 2) channel 1's closed loop follows. A change is refused while that channel's '' @
     ''heater is running in closed loop with a setpoint.''"

definition kTcSelectChannel2Description :: string where
  "kTcSelectChannel2Description =
     ''The thermocouple (1 or 2) channel 2's closed loop follows. A change is refused while that channel's '' @
     ''heater is running in closed loop with a setpoint.''"

definition kDcmtPositionPidDescription :: string where
  "kDcmtPositionPidDescription =
     ''Set the DCMT position-loop PID gains, encoded x1000: gain = value / 1000, 0 to 65.535. The speed loop '' @
     ''keeps its gains; tune it with set_speed_pid_x1000 where offered.''"

definition kDcmtSpeedPidDescription :: string where
  "kDcmtSpeedPidDescription =
     ''Set the DCMT speed-loop PID gains, encoded x1000: gain = value / 1000, 0 to 65.535. The position loop '' @
     ''keeps its gains.''"

definition kRlhtThermocoupleMin :: nat where "kRlhtThermocoupleMin = 1"
definition kRlhtThermocoupleMax :: nat where "kRlhtThermocoupleMax = 2"

definition kMinSetpointC :: double where "kMinSetpointC = int_div_10 INT16_MIN"
definition kMaxSetpointC :: double where "kMaxSetpointC = int_div_10 INT16_MAX"

definition has_flag :: "u32 \<Rightarrow> u32 \<Rightarrow> bool" where
  "has_flag flags b \<longleftrightarrow> flags AND b \<noteq> 0"

text \<open>
  The literals \<open>-3276.8\<close> and \<open>3276.7\<close> are the doubles nearest to those decimals, as is
  \<open>INT16_MIN / 10.0\<close> rounded: \<open>int_div_10\<close> is both.
\<close>

definition rlht_functions :: "contracts \<Rightarrow> u32 \<Rightarrow> function_spec list" where
  "rlht_functions ct flags =
     (if has_flag flags (cap_of ct RLHT_CAP_MODE_CONTROL) then
        [function_with 1 ''set_mode'' ''Set RLHT control mode.'' CAT_CONFIG
          [allowed [''closed_loop'', ''open_loop'']
             (arg ''mode'' VT_STRING ''One of closed_loop or open_loop.'' True [])]]
      else []) @
     (if has_flag flags (cap_of ct RLHT_CAP_SETPOINT_CONTROL) then
        [function_with 2 ''set_setpoints'' ''Set RLHT channel temperature setpoints.'' CAT_CONFIG
          [ranged (DoubleRange (int_div_10 (- 32768)) (int_div_10 32767))
             (arg ''setpoint1_c'' VT_DOUBLE ''Channel 1 target temperature.'' True ''C''),
           ranged (DoubleRange (int_div_10 (- 32768)) (int_div_10 32767))
             (arg ''setpoint2_c'' VT_DOUBLE ''Channel 2 target temperature.'' True ''C'')]]
      else []) @
     (if has_flag flags (cap_of ct RLHT_CAP_PID_TUNING) then
        [function_with 3 ''set_pid_x10'' ''Set RLHT PID gains encoded x10.'' CAT_CONFIG
          [ranged (UintRange 0 255) (arg ''kp1_x10'' VT_UINT64 ''Channel 1 proportional gain x10.'' True []),
           ranged (UintRange 0 255) (arg ''ki1_x10'' VT_UINT64 ''Channel 1 integral gain x10.'' True []),
           ranged (UintRange 0 255) (arg ''kd1_x10'' VT_UINT64 ''Channel 1 derivative gain x10.'' True []),
           ranged (UintRange 0 255) (arg ''kp2_x10'' VT_UINT64 ''Channel 2 proportional gain x10.'' True []),
           ranged (UintRange 0 255) (arg ''ki2_x10'' VT_UINT64 ''Channel 2 integral gain x10.'' True []),
           ranged (UintRange 0 255) (arg ''kd2_x10'' VT_UINT64 ''Channel 2 derivative gain x10.'' True [])]]
      else []) @
     (if has_flag flags (cap_of ct RLHT_CAP_PERIOD_CONTROL) then
        [function_with 4 ''set_periods_ms'' ''Set RLHT relay periods.'' CAT_CONFIG
          [ranged (UintRange (num_of ct RLHT_PERIOD_MIN_MS) (num_of ct RLHT_PERIOD_MAX_MS))
             (arg ''period1_ms'' VT_UINT64 ''Relay 1 period.'' True ''ms''),
           ranged (UintRange (num_of ct RLHT_PERIOD_MIN_MS) (num_of ct RLHT_PERIOD_MAX_MS))
             (arg ''period2_ms'' VT_UINT64 ''Relay 2 period.'' True ''ms'')]]
      else []) @
     (if has_flag flags (cap_of ct RLHT_CAP_TC_SELECT) then
        [function_with 5 ''set_tc_select'' kTcSelectDescription CAT_CONFIG
          [ranged (UintRange kRlhtThermocoupleMin kRlhtThermocoupleMax)
             (arg ''channel1_thermocouple'' VT_UINT64 kTcSelectChannel1Description True []),
           ranged (UintRange kRlhtThermocoupleMin kRlhtThermocoupleMax)
             (arg ''channel2_thermocouple'' VT_UINT64 kTcSelectChannel2Description True [])]]
      else []) @
     (if has_flag flags (cap_of ct RLHT_CAP_OPEN_DUTY_CONTROL) then
        [function_with 6 ''set_open_duty_pct'' ''Set RLHT open-loop duty percentages.'' CAT_ACTUATE
          [ranged (UintRange 0 100)
             (arg ''duty1_pct'' VT_UINT64 ''Channel 1 duty cycle percentage.'' True ''%''),
           ranged (UintRange 0 100)
             (arg ''duty2_pct'' VT_UINT64 ''Channel 2 duty cycle percentage.'' True ''%'')]]
      else []) @
     (if has_flag flags (cap_of ct RLHT_CAP_CMD_WATCHDOG) \<and>
         has_flag flags (cap_of ct RLHT_CAP_CLEAR_WATCHDOG_TRIP) then
        [function_with 7 ''clear_watchdog_trip'' kClearTripDescription CAT_CONFIG []]
      else [])"

definition rlht_signals :: "contracts \<Rightarrow> u32 \<Rightarrow> signal_spec list" where
  "rlht_signals ct flags =
     [signal ''mode'' ''Current RLHT control mode.'' VT_STRING [],
      signal ''t1_c'' ''Channel 1 measured temperature.'' VT_DOUBLE ''C'',
      signal ''t2_c'' ''Channel 2 measured temperature.'' VT_DOUBLE ''C'',
      signal ''setpoint1_c'' ''Channel 1 target temperature.'' VT_DOUBLE ''C'',
      signal ''setpoint2_c'' ''Channel 2 target temperature.'' VT_DOUBLE ''C'',
      signal ''period1_ms'' ''Relay 1 control period.'' VT_UINT64 ''ms'',
      signal ''period2_ms'' ''Relay 2 control period.'' VT_UINT64 ''ms'',
      signal ''on1_ms'' ''Relay 1 on-time per control period.'' VT_UINT64 ''ms'',
      signal ''on2_ms'' ''Relay 2 on-time per control period.'' VT_UINT64 ''ms'',
      signal ''channel1_thermocouple''
        ''The thermocouple (1 or 2) channel 1's closed loop follows.'' VT_UINT64 [],
      signal ''channel2_thermocouple''
        ''The thermocouple (1 or 2) channel 2's closed loop follows.'' VT_UINT64 [],
      signal ''relay1_on'' ''Relay 1 state derived from RLHT flags.'' VT_BOOL [],
      signal ''relay2_on'' ''Relay 2 state derived from RLHT flags.'' VT_BOOL [],
      signal ''estop'' ''Emergency stop state derived from RLHT flags.'' VT_BOOL []] @
     (if has_flag flags (cap_of ct RLHT_CAP_ESTOP_COUNT) then
        [signal ''estop_count'' ''Hardware e-stop presses since boot, wrapping at 255.'' VT_UINT64 []]
      else [])"

definition build_rlht_capabilities :: "contracts \<Rightarrow> u32 \<Rightarrow> capability_set" where
  "build_rlht_capabilities ct flags =
     \<lparr>cap_functions = rlht_functions ct flags, cap_signals = rlht_signals ct flags\<rparr>"

definition dcmt_pid_function :: "u32 \<Rightarrow> string \<Rightarrow> string \<Rightarrow> function_spec" where
  "dcmt_pid_function fid name desc =
     function_with fid name desc CAT_CONFIG
       (map (\<lambda>(n, d). ranged (UintRange 0 UINT16_MAX) (arg n VT_UINT64 d True []))
          [(''kp1_x1000'', ''Motor 1 proportional gain x1000.''),
           (''ki1_x1000'', ''Motor 1 integral gain x1000.''),
           (''kd1_x1000'', ''Motor 1 derivative gain x1000.''),
           (''kp2_x1000'', ''Motor 2 proportional gain x1000.''),
           (''ki2_x1000'', ''Motor 2 integral gain x1000.''),
           (''kd2_x1000'', ''Motor 2 derivative gain x1000.'')])"

definition dcmt_modes :: "contracts \<Rightarrow> u32 \<Rightarrow> string list" where
  "dcmt_modes ct flags =
     [''open_loop''] @
     (if has_flag flags (cap_of ct DCMT_CAP_CLOSED_LOOP_POSITION) then [''closed_position''] else []) @
     (if has_flag flags (cap_of ct DCMT_CAP_CLOSED_LOOP_SPEED) then [''closed_speed''] else [])"

definition dcmt_mode_description :: "string list \<Rightarrow> string" where
  "dcmt_mode_description modes =
     (if length modes = 2 then ''One of '' @ modes ! 0 @ '' or '' @ modes ! 1 @ ''.''
      else if length modes = 3 then
        ''One of '' @ modes ! 0 @ '', '' @ modes ! 1 @ '', or '' @ modes ! 2 @ ''.''
      else ''open_loop only: this device has no closed-loop modes.'')"

definition dcmt_functions :: "contracts \<Rightarrow> u32 \<Rightarrow> function_spec list" where
  "dcmt_functions ct flags =
     (if has_flag flags (cap_of ct DCMT_CAP_OPEN_LOOP_CONTROL) then
        [function_with 1 ''set_open_loop'' ''Set DCMT open-loop PWM values.'' CAT_ACTUATE
          [ranged (IntRange (- 255) 255) (arg ''motor1_pwm'' VT_INT64 ''Motor 1 PWM command.'' True []),
           ranged (IntRange (- 255) 255) (arg ''motor2_pwm'' VT_INT64 ''Motor 2 PWM command.'' True [])]]
      else []) @
     (if has_flag flags (cap_of ct DCMT_CAP_BRAKE_CONTROL) then
        [function_with 2 ''set_brake'' ''Set DCMT brake outputs.'' CAT_ACTUATE
          [arg ''motor1_brake'' VT_BOOL ''Motor 1 brake state.'' True [],
           arg ''motor2_brake'' VT_BOOL ''Motor 2 brake state.'' True []]]
      else []) @
     (if has_flag flags (cap_of ct DCMT_CAP_OPEN_LOOP_CONTROL OR
           cap_of ct DCMT_CAP_CLOSED_LOOP_POSITION OR cap_of ct DCMT_CAP_CLOSED_LOOP_SPEED) then
        [function_with 3 ''set_mode'' ''Set DCMT control mode.'' CAT_CONFIG
          [allowed (dcmt_modes ct flags)
             (arg ''mode'' VT_STRING (dcmt_mode_description (dcmt_modes ct flags)) True [])]]
      else []) @
     (if has_flag flags (cap_of ct DCMT_CAP_CLOSED_LOOP_POSITION OR
           cap_of ct DCMT_CAP_CLOSED_LOOP_SPEED) then
        [function_with 4 ''set_setpoint'' ''Set DCMT control targets.'' CAT_CONFIG
          [ranged (IntRange INT16_MIN INT16_MAX)
             (arg ''motor1_target'' VT_INT64 ''Motor 1 target value.'' True []),
           ranged (IntRange INT16_MIN INT16_MAX)
             (arg ''motor2_target'' VT_INT64 ''Motor 2 target value.'' True [])]]
      else []) @
     (if has_flag flags (cap_of ct DCMT_CAP_PID_TUNING) then
        [dcmt_pid_function 5 ''set_pid_x1000'' kDcmtPositionPidDescription] @
        (if has_flag flags (cap_of ct DCMT_CAP_CLOSED_LOOP_SPEED) then
           [dcmt_pid_function 7 ''set_speed_pid_x1000'' kDcmtSpeedPidDescription]
         else [])
      else []) @
     (if has_flag flags (cap_of ct DCMT_CAP_CMD_WATCHDOG) \<and>
         has_flag flags (cap_of ct DCMT_CAP_CLEAR_WATCHDOG_TRIP) then
        [function_with 6 ''clear_watchdog_trip'' kDcmtClearTripDescription CAT_CONFIG []]
      else [])"

definition dcmt_signals :: "signal_spec list" where
  "dcmt_signals =
     [signal ''mode'' ''Current DCMT control mode.'' VT_STRING [],
      signal ''motor1_target'' ''Motor 1 target value.'' VT_INT64 [],
      signal ''motor2_target'' ''Motor 2 target value.'' VT_INT64 [],
      signal ''motor1_value'' ''Motor 1 measured value.'' VT_INT64 [],
      signal ''motor2_value'' ''Motor 2 measured value.'' VT_INT64 [],
      signal ''motor1_brake'' ''Motor 1 brake state.'' VT_BOOL [],
      signal ''motor2_brake'' ''Motor 2 brake state.'' VT_BOOL [],
      signal ''estop'' ''Emergency stop state.'' VT_BOOL [],
      signal ''estop_count'' ''Hardware e-stop presses since boot, wrapping at 255.'' VT_UINT64 []]"

definition build_dcmt_capabilities :: "contracts \<Rightarrow> u32 \<Rightarrow> capability_set" where
  "build_dcmt_capabilities ct flags =
     \<lparr>cap_functions = dcmt_functions ct flags, cap_signals = dcmt_signals\<rparr>"

fun build_capabilities :: "contracts \<Rightarrow> device_type \<Rightarrow> u32 \<Rightarrow> capability_set" where
  "build_capabilities ct Rlht flags = build_rlht_capabilities ct flags"
| "build_capabilities ct Dcmt flags = build_dcmt_capabilities ct flags"

subsection \<open>Devices and probes\<close>

datatype inventory_source = ConfigSeeded | ManualSource | Discovered

datatype capability_source = Seeded | Queried | BaselineFallback

record capability_profile =
  cp_schema :: u8
  cp_level :: u8
  cp_flags :: u32
  cp_source :: capability_source

definition zero_profile :: capability_profile where
  "zero_profile = \<lparr>cp_schema = 0, cp_level = 0, cp_flags = 0, cp_source = Seeded\<rparr>"

record probe_record =
  pr_address :: int
  pr_type_id :: u8
  pr_status :: probe_status
  pr_version :: module_version
  pr_profile :: capability_profile
  pr_detail :: string

record device_descriptor =
  dd_device_id :: string
  dd_provider_name :: string
  dd_label :: string
  dd_address :: string
  dd_type_id :: string
  dd_type_version :: string
  dd_claims :: "string list"
  dd_tags :: "string \<rightharpoonup> string"

record inventory_device =
  dev_descriptor :: device_descriptor
  dev_capabilities :: capability_set
  dev_type :: device_type
  dev_address :: int
  dev_source :: inventory_source
  dev_expected :: bool
  dev_version :: module_version
  dev_profile :: capability_profile
  dev_command_watchdog_ms :: int
  dev_encoders :: bool

record inventory_build_result =
  supported_devices :: "inventory_device list"
  unsupported_probes :: "probe_record list"
  missing_expected_ids :: "string list"
  missing_expected_details :: "string \<rightharpoonup> string"

definition kProviderName :: string where "kProviderName = ''anolis-provider-bread''"

fun inventory_source_to_string :: "inventory_source \<Rightarrow> string" where
  "inventory_source_to_string ConfigSeeded = ''config_seeded''"
| "inventory_source_to_string ManualSource = ''manual''"
| "inventory_source_to_string Discovered = ''discovered''"

fun capability_source_to_string :: "capability_source \<Rightarrow> string" where
  "capability_source_to_string Seeded = ''seeded''"
| "capability_source_to_string Queried = ''queried''"
| "capability_source_to_string BaselineFallback = ''baseline_fallback''"

definition format_u32_hex :: "u32 \<Rightarrow> string" where
  "format_u32_hex v = ''0x'' @ hex_padded 8 (unat v)"

definition format_module_version :: "module_version \<Rightarrow> string" where
  "format_module_version v =
     nat_to_string (unat (module_major v)) @ ''.'' @ nat_to_string (unat (module_minor v)) @ ''.'' @
     nat_to_string (unat (module_patch v))"

definition format_crumbs_version :: "u16 \<Rightarrow> string" where
  "format_crumbs_version v =
     nat_to_string (unat v div 10000) @ ''.'' @ nat_to_string (unat v div 100 mod 100) @ ''.'' @
     nat_to_string (unat v mod 100)"

definition generated_label :: "device_type \<Rightarrow> int \<Rightarrow> string" where
  "generated_label ty a = (if ty = Rlht then ''RLHT'' else ''DCMT'') @ '' '' @ format_i2c_address a"

definition generated_id :: "device_type \<Rightarrow> nat \<Rightarrow> string" where
  "generated_id ty i = (if ty = Rlht then ''rlht'' else ''dcmt'') @ nat_to_string i"

subsection \<open>Capability profiles\<close>

fun make_baseline_capability_profile :: "contracts \<Rightarrow> device_type \<Rightarrow> capability_profile" where
  "make_baseline_capability_profile ct Rlht =
     \<lparr>cp_schema = byte_of ct BREAD_CAPS_SCHEMA_V1, cp_level = byte_of ct RLHT_CAP_LEVEL_1,
      cp_flags = cap_of ct RLHT_CAP_BASELINE_FLAGS, cp_source = BaselineFallback\<rparr>"
| "make_baseline_capability_profile ct Dcmt =
     \<lparr>cp_schema = byte_of ct BREAD_CAPS_SCHEMA_V1, cp_level = byte_of ct DCMT_CAP_LEVEL_1,
      cp_flags = cap_of ct DCMT_CAP_BASELINE_FLAGS, cp_source = BaselineFallback\<rparr>"

fun make_seeded_capability_profile :: "contracts \<Rightarrow> device_type \<Rightarrow> capability_profile" where
  "make_seeded_capability_profile ct Rlht =
     \<lparr>cp_schema = byte_of ct BREAD_CAPS_SCHEMA_V1, cp_level = byte_of ct RLHT_CAP_LEVEL_1,
      cp_flags = cap_of ct RLHT_CAP_BASELINE_FLAGS, cp_source = Seeded\<rparr>"
| "make_seeded_capability_profile ct Dcmt =
     \<lparr>cp_schema = byte_of ct BREAD_CAPS_SCHEMA_V1, cp_level = byte_of ct DCMT_CAP_LEVEL_3,
      cp_flags = cap_of ct DCMT_CAP_OPEN_LOOP_CONTROL OR cap_of ct DCMT_CAP_BRAKE_CONTROL OR
        cap_of ct DCMT_CAP_CLOSED_LOOP_POSITION OR cap_of ct DCMT_CAP_CLOSED_LOOP_SPEED OR
        cap_of ct DCMT_CAP_PID_TUNING OR cap_of ct DCMT_CAP_CMD_WATCHDOG OR
        cap_of ct DCMT_CAP_CLEAR_WATCHDOG_TRIP, cp_source = Seeded\<rparr>"

definition fill_profile :: "capability_profile \<Rightarrow> capability_profile \<Rightarrow> capability_profile" where
  "fill_profile defaults p =
     p\<lparr>cp_schema := (if cp_schema p = 0 then cp_schema defaults else cp_schema p),
       cp_level := (if cp_level p = 0 then cp_level defaults else cp_level p),
       cp_flags := (if cp_flags p = 0 then cp_flags defaults else cp_flags p)\<rparr>"

definition normalize_capability_profile ::
  "contracts \<Rightarrow> device_type \<Rightarrow> capability_profile \<Rightarrow> capability_profile" where
  "normalize_capability_profile ct ty p =
     (let p1 = (if cp_source p = BaselineFallback
                then fill_profile (make_baseline_capability_profile ct ty) p else p)
      in if cp_source p1 = Seeded then fill_profile (make_seeded_capability_profile ct ty) p1 else p1)"

subsection \<open>Building the inventory\<close>

fun find_match_from :: "nat \<Rightarrow> device_spec list \<Rightarrow> int \<Rightarrow> nat option" where
  "find_match_from i [] a = None"
| "find_match_from i (s # ss) a = (if spec_address s = a then Some i else find_match_from (i + 1) ss a)"

definition find_config_match_by_address :: "provider_config \<Rightarrow> int \<Rightarrow> nat option" where
  "find_config_match_by_address c a = find_match_from 0 (config_devices c) a"

definition device_tags :: "device_type \<Rightarrow> inventory_source \<Rightarrow> bool \<Rightarrow> module_version \<Rightarrow>
    capability_profile \<Rightarrow> string \<rightharpoonup> string" where
  "device_tags ty source expected v p =
     map_of
       [(''family'', ''bread''), (''inventory'', inventory_source_to_string source),
        (''contract'', bread_contract_name ty),
        (''caps_source'', capability_source_to_string (cp_source p)),
        (''caps_level'', nat_to_string (unat (cp_level p))),
        (''caps_flags'', format_u32_hex (cp_flags p)),
        (''expected'', if expected then ''true'' else ''false''), (''compatibility'', ''supported''),
        (''crumbs_version'', format_crumbs_version (crumbs_version v)),
        (''module_version'', format_module_version v)]"

definition build_device ::
  "contracts \<Rightarrow> (string \<Rightarrow> nat \<Rightarrow> string) \<Rightarrow> provider_config \<Rightarrow> probe_record \<Rightarrow> device_type \<Rightarrow>
   inventory_source \<Rightarrow> bool \<Rightarrow> string \<Rightarrow> string \<Rightarrow> inventory_device" where
  "build_device ct claim_key c probe ty source expected device_id label =
     (let profile = normalize_capability_profile ct ty (pr_profile probe); v = pr_version probe in
      \<lparr>dev_descriptor =
         \<lparr>dd_device_id = device_id, dd_provider_name = kProviderName, dd_label = label,
          dd_address = format_i2c_address (pr_address probe), dd_type_id = provider_type_id ty,
          dd_type_version =
            nat_to_string (if module_major v = 0 then 1 else unat (module_major v)),
          dd_claims = [claim_key (bus_path c) (unat (word_of_int (pr_address probe) :: u32))],
          dd_tags = device_tags ty source expected v profile\<rparr>,
       dev_capabilities = build_capabilities ct ty (cp_flags profile),
       dev_type = ty, dev_address = pr_address probe, dev_source = source, dev_expected = expected,
       dev_version = v, dev_profile = profile, dev_command_watchdog_ms = 0, dev_encoders = True\<rparr>)"

definition encoder_caps :: "contracts \<Rightarrow> u32" where
  "encoder_caps ct =
     cap_of ct DCMT_CAP_CLOSED_LOOP_POSITION OR cap_of ct DCMT_CAP_CLOSED_LOOP_SPEED OR
     cap_of ct DCMT_CAP_PID_TUNING"

text \<open>What the config entry of a matched device adds to it.\<close>

definition apply_spec :: "contracts \<Rightarrow> device_type \<Rightarrow> device_spec \<Rightarrow> inventory_device \<Rightarrow> inventory_device" where
  "apply_spec ct ty spec dev =
     (let dev1 = dev\<lparr>dev_command_watchdog_ms := spec_command_watchdog_ms spec\<rparr> in
      if ty = Dcmt \<and> \<not> spec_encoders spec then
        dev1\<lparr>dev_encoders := False,
             dev_capabilities :=
               build_capabilities ct ty (cp_flags (dev_profile dev1) AND NOT (encoder_caps ct))\<rparr>
      else dev1)"

record build_state =
  bs_devices :: "inventory_device list"
  bs_unsupported :: "probe_record list"
  bs_matched :: "bool list"
  bs_rlht_index :: nat
  bs_dcmt_index :: nat

definition type_counter :: "device_type \<Rightarrow> build_state \<Rightarrow> nat" where
  "type_counter ty bs = (if ty = Rlht then bs_rlht_index bs else bs_dcmt_index bs)"

definition bump_counter :: "device_type \<Rightarrow> build_state \<Rightarrow> build_state" where
  "bump_counter ty bs =
     (if ty = Rlht then bs\<lparr>bs_rlht_index := bs_rlht_index bs + 1\<rparr>
      else bs\<lparr>bs_dcmt_index := bs_dcmt_index bs + 1\<rparr>)"

definition add_unsupported :: "probe_record \<Rightarrow> build_state \<Rightarrow> build_state" where
  "add_unsupported p bs = bs\<lparr>bs_unsupported := bs_unsupported bs @ [p]\<rparr>"

definition add_supported :: "inventory_device \<Rightarrow> build_state \<Rightarrow> build_state" where
  "add_supported d bs = bs\<lparr>bs_devices := bs_devices bs @ [d]\<rparr>"

text \<open>The two probe records the loop rewrites.\<close>

definition unsupported_type :: "probe_record \<Rightarrow> probe_record" where
  "unsupported_type probe =
     probe\<lparr>pr_status := UnsupportedType,
           pr_detail := (if pr_detail probe = [] then ''unsupported BREAD type id''
                         else pr_detail probe)\<rparr>"

definition type_mismatch :: "device_type \<Rightarrow> device_type \<Rightarrow> probe_record \<Rightarrow> probe_record" where
  "type_mismatch configured probed probe =
     probe\<lparr>pr_status := TypeMismatch,
           pr_detail := ''configured type '' @ [CHR 0x27] @ device_type_to_string configured @
             [CHR 0x27] @ '' does not match probed type '' @ [CHR 0x27] @
             device_type_to_string probed @ [CHR 0x27]\<rparr>"

lemma rewritten_probe_simps [simp]:
  "pr_address (unsupported_type p) = pr_address p" "pr_status (unsupported_type p) = UnsupportedType"
  "pr_address (type_mismatch t u p) = pr_address p" "pr_status (type_mismatch t u p) = TypeMismatch"
  by (simp_all add: unsupported_type_def type_mismatch_def)

text \<open>The device a supported probe becomes: the configured one at its address, or an extra one.\<close>

definition expected_device ::
  "contracts \<Rightarrow> (string \<Rightarrow> nat \<Rightarrow> string) \<Rightarrow> provider_config \<Rightarrow> inventory_source \<Rightarrow> device_type \<Rightarrow>
   device_spec \<Rightarrow> probe_record \<Rightarrow> inventory_device" where
  "expected_device ct claim_key c source ty spec probe =
     apply_spec ct ty spec
       (build_device ct claim_key c
          (probe\<lparr>pr_profile := normalize_capability_profile ct ty (pr_profile probe)\<rparr>) ty source True
          (spec_id spec)
          (if spec_label spec = [] then generated_label ty (pr_address probe) else spec_label spec))"

definition extra_device ::
  "contracts \<Rightarrow> (string \<Rightarrow> nat \<Rightarrow> string) \<Rightarrow> provider_config \<Rightarrow> inventory_source \<Rightarrow> device_type \<Rightarrow>
   nat \<Rightarrow> probe_record \<Rightarrow> inventory_device" where
  "extra_device ct claim_key c source ty index probe =
     build_device ct claim_key c
       (probe\<lparr>pr_profile := normalize_capability_profile ct ty (pr_profile probe)\<rparr>) ty source False
       (generated_id ty index) (generated_label ty (pr_address probe))"

text \<open>One turn of the loop over the sorted probes.\<close>

definition inventory_step ::
  "contracts \<Rightarrow> (string \<Rightarrow> nat \<Rightarrow> string) \<Rightarrow> provider_config \<Rightarrow> inventory_source \<Rightarrow>
   build_state \<Rightarrow> probe_record \<Rightarrow> build_state" where
  "inventory_step ct claim_key c source bs probe =
     (if pr_status probe \<noteq> Supported then add_unsupported probe bs
      else case try_parse_bread_type ct (pr_type_id probe) of
        None \<Rightarrow> add_unsupported (unsupported_type probe) bs
      | Some ty \<Rightarrow>
          case find_config_match_by_address c (pr_address probe) of
            Some i \<Rightarrow>
              let spec = config_devices c ! i in
              if spec_type spec \<noteq> ty then
                add_unsupported (type_mismatch (spec_type spec) ty probe) bs
              else
                add_supported (expected_device ct claim_key c source ty spec probe)
                  (bump_counter ty (bs\<lparr>bs_matched := (bs_matched bs)[i := True]\<rparr>))
          | None \<Rightarrow>
              add_supported (extra_device ct claim_key c source ty (type_counter ty bs) probe)
                (bump_counter ty bs))"

definition init_build_state :: "provider_config \<Rightarrow> build_state" where
  "init_build_state c =
     \<lparr>bs_devices = [], bs_unsupported = [],
      bs_matched = replicate (length (config_devices c)) False, bs_rlht_index = 0, bs_dcmt_index = 0\<rparr>"

text \<open>The report on the configured devices that no probe matched.\<close>

definition missing_detail :: "probe_record list \<Rightarrow> int \<Rightarrow> string option" where
  "missing_detail unsupported a =
     (case find (\<lambda>p. pr_address p = a) unsupported of
        None \<Rightarrow> None
      | Some p \<Rightarrow> Some (''probe failed ('' @ probe_status_to_string (pr_status p) @ ''): '' @ pr_detail p))"

fun missing_details :: "probe_record list \<Rightarrow> device_spec list \<Rightarrow> (string \<rightharpoonup> string) \<Rightarrow> string \<rightharpoonup> string" where
  "missing_details unsupported [] m = m"
| "missing_details unsupported (s # ss) m =
     missing_details unsupported ss
       (case missing_detail unsupported (spec_address s) of None \<Rightarrow> m | Some d \<Rightarrow> m(spec_id s \<mapsto> d))"

definition unmatched_specs :: "bool list \<Rightarrow> device_spec list \<Rightarrow> device_spec list" where
  "unmatched_specs matched specs = map snd (filter (\<lambda>(m, s). \<not> m) (zip matched specs))"

definition probe_key :: "probe_record \<Rightarrow> int \<times> u8" where
  "probe_key p = (pr_address p, pr_type_id p)"

definition build_inventory_from_probes ::
  "contracts \<Rightarrow> (string \<Rightarrow> nat \<Rightarrow> string) \<Rightarrow> provider_config \<Rightarrow> probe_record list \<Rightarrow>
   inventory_source \<Rightarrow> inventory_build_result" where
  "build_inventory_from_probes ct claim_key c probes source =
     (let bs = foldl (inventory_step ct claim_key c source) (init_build_state c) (sort_key probe_key probes);
          missing = unmatched_specs (bs_matched bs) (config_devices c)
      in \<lparr>supported_devices = bs_devices bs, unsupported_probes = bs_unsupported bs,
          missing_expected_ids = map spec_id missing,
          missing_expected_details = missing_details (bs_unsupported bs) missing Map.empty\<rparr>)"

fun seed_version :: "contracts \<Rightarrow> device_type \<Rightarrow> module_version" where
  "seed_version ct Rlht =
     \<lparr>crumbs_version = of_nat (num_of ct CRUMBS_VERSION), module_major = byte_of ct RLHT_MODULE_VER_MAJOR,
      module_minor = byte_of ct RLHT_MODULE_VER_MINOR, module_patch = byte_of ct RLHT_MODULE_VER_PATCH\<rparr>"
| "seed_version ct Dcmt =
     \<lparr>crumbs_version = of_nat (num_of ct CRUMBS_VERSION), module_major = byte_of ct DCMT_MODULE_VER_MAJOR,
      module_minor = byte_of ct DCMT_MODULE_VER_MINOR, module_patch = byte_of ct DCMT_MODULE_VER_PATCH\<rparr>"

definition seed_probe :: "contracts \<Rightarrow> device_spec \<Rightarrow> probe_record" where
  "seed_probe ct spec =
     \<lparr>pr_address = spec_address spec, pr_type_id = bread_type_id ct (spec_type spec),
      pr_status = Supported, pr_version = seed_version ct (spec_type spec),
      pr_profile = make_seeded_capability_profile ct (spec_type spec), pr_detail = ''config-seeded''\<rparr>"

definition build_seed_probes :: "contracts \<Rightarrow> provider_config \<Rightarrow> probe_record list" where
  "build_seed_probes ct c = map (seed_probe ct) (config_devices c)"

definition build_seed_inventory ::
  "contracts \<Rightarrow> (string \<Rightarrow> nat \<Rightarrow> string) \<Rightarrow> provider_config \<Rightarrow> inventory_device list" where
  "build_seed_inventory ct claim_key c =
     supported_devices (build_inventory_from_probes ct claim_key c (build_seed_probes ct c) ConfigSeeded)"

definition add_module_version_metric ::
  "inventory_device \<Rightarrow> (string \<rightharpoonup> string) \<Rightarrow> string \<rightharpoonup> string" where
  "add_module_version_metric d metrics =
     (if dev_source d = ConfigSeeded then metrics
      else metrics(''module_version'' \<mapsto> format_module_version (dev_version d)))"

definition find_device :: "inventory_device list \<Rightarrow> string \<Rightarrow> inventory_device option" where
  "find_device devices device_id = find (\<lambda>d. dd_device_id (dev_descriptor d) = device_id) devices"

definition signal_exists :: "inventory_device \<Rightarrow> string \<Rightarrow> bool" where
  "signal_exists d sid \<longleftrightarrow> (\<exists>s \<in> set (cap_signals (dev_capabilities d)). sig_id s = sid)"

definition function_exists :: "inventory_device \<Rightarrow> u32 \<Rightarrow> string \<Rightarrow> bool" where
  "function_exists d fid name \<longleftrightarrow>
     (\<exists>f \<in> set (cap_functions (dev_capabilities d)).
        (fid \<noteq> 0 \<and> fn_id f = fid) \<or> (name \<noteq> [] \<and> fn_name f = name))"

subsection \<open>Every probe and every configured device is accounted for\<close>

lemma build_state_simps [simp]:
  "bs_devices (add_unsupported p bs) = bs_devices bs"
  "bs_unsupported (add_unsupported p bs) = bs_unsupported bs @ [p]"
  "bs_matched (add_unsupported p bs) = bs_matched bs"
  "type_counter ty (add_unsupported p bs) = type_counter ty bs"
  "bs_devices (add_supported d bs) = bs_devices bs @ [d]"
  "bs_unsupported (add_supported d bs) = bs_unsupported bs"
  "bs_matched (add_supported d bs) = bs_matched bs"
  "type_counter ty (add_supported d bs) = type_counter ty bs"
  "bs_devices (bump_counter ty bs) = bs_devices bs"
  "bs_unsupported (bump_counter ty bs) = bs_unsupported bs"
  "bs_matched (bump_counter ty bs) = bs_matched bs"
  "type_counter ty (bump_counter ty' bs) = (if ty' = ty then Suc (type_counter ty bs) else type_counter ty bs)"
  "type_counter ty (bs\<lparr>bs_matched := m\<rparr>) = type_counter ty bs"
  by (cases ty; cases ty'; simp add: add_unsupported_def add_supported_def bump_counter_def type_counter_def)+

lemma build_device_simps [simp]:
  "dev_address (build_device ct ck c p ty src e i l) = pr_address p"
  "dev_type (build_device ct ck c p ty src e i l) = ty"
  "dev_expected (build_device ct ck c p ty src e i l) = e"
  "dd_device_id (dev_descriptor (build_device ct ck c p ty src e i l)) = i"
  "dev_source (build_device ct ck c p ty src e i l) = src"
  "dev_version (build_device ct ck c p ty src e i l) = pr_version p"
  "dev_encoders (build_device ct ck c p ty src e i l)"
  "dev_command_watchdog_ms (build_device ct ck c p ty src e i l) = 0"
  "dev_profile (build_device ct ck c p ty src e i l) = normalize_capability_profile ct ty (pr_profile p)"
  "dev_capabilities (build_device ct ck c p ty src e i l) =
     build_capabilities ct ty (cp_flags (normalize_capability_profile ct ty (pr_profile p)))"
  by (simp_all add: build_device_def Let_def)

lemma apply_spec_simps [simp]:
  "dev_address (apply_spec ct ty s d) = dev_address d"
  "dev_type (apply_spec ct ty s d) = dev_type d"
  "dev_expected (apply_spec ct ty s d) = dev_expected d"
  "dev_descriptor (apply_spec ct ty s d) = dev_descriptor d"
  "dev_source (apply_spec ct ty s d) = dev_source d"
  "dev_profile (apply_spec ct ty s d) = dev_profile d"
  "dev_command_watchdog_ms (apply_spec ct ty s d) = spec_command_watchdog_ms s"
  by (simp_all add: apply_spec_def Let_def)

abbreviation device_id_of :: "inventory_device \<Rightarrow> string" where
  "device_id_of d \<equiv> dd_device_id (dev_descriptor d)"

lemma inventory_step_cases:
  obtains
    (unsupported) p where "inventory_step ct ck c src bs probe = add_unsupported p bs"
      and "pr_address p = pr_address probe" and "pr_status p \<noteq> Supported"
  | (expected) i ty d where "find_config_match_by_address c (pr_address probe) = Some i"
      and "try_parse_bread_type ct (pr_type_id probe) = Some ty"
      and "inventory_step ct ck c src bs probe =
             add_supported d (bump_counter ty (bs\<lparr>bs_matched := (bs_matched bs)[i := True]\<rparr>))"
      and "dev_address d = pr_address probe" and "dev_type d = ty"
      and "spec_type (config_devices c ! i) = ty" and "dev_expected d"
      and "device_id_of d = spec_id (config_devices c ! i)" and "pr_status probe = Supported"
      and "d = expected_device ct ck c src ty (config_devices c ! i) probe"
  | (extra) ty d where "find_config_match_by_address c (pr_address probe) = None"
      and "try_parse_bread_type ct (pr_type_id probe) = Some ty"
      and "inventory_step ct ck c src bs probe = add_supported d (bump_counter ty bs)"
      and "dev_address d = pr_address probe" and "dev_type d = ty" and "\<not> dev_expected d"
      and "device_id_of d = generated_id ty (type_counter ty bs)" and "pr_status probe = Supported"
      and "d = extra_device ct ck c src ty (type_counter ty bs) probe"
proof (cases "pr_status probe = Supported")
  case False
  then show ?thesis by (intro unsupported [of probe]) (auto simp: inventory_step_def)
next
  case sup: True
  show ?thesis
  proof (cases "try_parse_bread_type ct (pr_type_id probe)")
    case None
    with sup show ?thesis
      by (intro unsupported [of "unsupported_type probe"]) (simp_all add: inventory_step_def)
  next
    case ty: (Some ty)
    show ?thesis
    proof (cases "find_config_match_by_address c (pr_address probe)")
      case None
      with sup ty show ?thesis
        by (intro extra [of ty "extra_device ct ck c src ty (type_counter ty bs) probe"])
           (simp_all add: inventory_step_def extra_device_def)
    next
      case (Some i)
      show ?thesis
      proof (cases "spec_type (config_devices c ! i) = ty")
        case True
        with sup ty Some show ?thesis
          by (intro expected [of i ty "expected_device ct ck c src ty (config_devices c ! i) probe"])
             (simp_all add: inventory_step_def expected_device_def Let_def)
      next
        case False
        with sup ty Some show ?thesis
          by (intro unsupported [of "type_mismatch (spec_type (config_devices c ! i)) ty probe"])
             (simp_all add: inventory_step_def Let_def)
      qed
    qed
  qed
qed

lemma find_match_from_Some:
  "find_match_from k specs a = Some i \<Longrightarrow>
     k \<le> i \<and> i < k + length specs \<and> spec_address (specs ! (i - k)) = a"
proof (induction specs arbitrary: k)
  case (Cons s specs)
  show ?case
  proof (cases "spec_address s = a")
    case True
    with Cons.prems show ?thesis by auto
  next
    case False
    with Cons.prems Cons.IH [of "k + 1"] have "Suc k \<le> i" "i < Suc k + length specs"
      "spec_address (specs ! (i - Suc k)) = a" by auto
    moreover from this have "i - k = Suc (i - Suc k)" by simp
    ultimately show ?thesis by simp
  qed
qed simp

lemma find_config_match_Some:
  assumes "find_config_match_by_address c a = Some i"
  shows "i < length (config_devices c)" "spec_address (config_devices c ! i) = a"
  using find_match_from_Some [of 0 "config_devices c" a i] assms
  by (auto simp: find_config_match_by_address_def)

lemma find_match_from_exists:
  "(\<exists>s \<in> set specs. spec_address s = a) \<Longrightarrow> find_match_from k specs a \<noteq> None"
  by (induction specs arbitrary: k) auto

text \<open>The invariant of the loop, over the probes already taken.\<close>

definition inventory_inv :: "provider_config \<Rightarrow> probe_record list \<Rightarrow> build_state \<Rightarrow> bool" where
  "inventory_inv c ps bs \<longleftrightarrow>
     mset (map dev_address (bs_devices bs)) + mset (map pr_address (bs_unsupported bs)) =
       mset (map pr_address ps) \<and>
     length (bs_matched bs) = length (config_devices c) \<and>
     (\<forall>i < length (config_devices c). bs_matched bs ! i \<longleftrightarrow>
        (\<exists>d \<in> set (bs_devices bs). find_config_match_by_address c (dev_address d) = Some i)) \<and>
     (\<forall>d \<in> set (bs_devices bs). \<exists>p \<in> set ps. pr_address p = dev_address d \<and> pr_status p = Supported) \<and>
     (\<forall>d \<in> set (bs_devices bs). dev_expected d \<longleftrightarrow>
        find_config_match_by_address c (dev_address d) \<noteq> None) \<and>
     (\<forall>d \<in> set (bs_devices bs). \<forall>i. find_config_match_by_address c (dev_address d) = Some i \<longrightarrow>
        device_id_of d = spec_id (config_devices c ! i) \<and> dev_type d = spec_type (config_devices c ! i)) \<and>
     (\<forall>p \<in> set (bs_unsupported bs). pr_status p \<noteq> Supported)"

lemma inventory_inv_init: "inventory_inv c [] (init_build_state c)"
  by (simp add: inventory_inv_def init_build_state_def)

lemma inventory_inv_step:
  assumes "inventory_inv c ps bs"
  shows "inventory_inv c (ps @ [probe]) (inventory_step ct ck c src bs probe)"
proof (cases rule: inventory_step_cases [of ct ck c src bs probe])
  case (unsupported p)
  with assms show ?thesis by (auto simp: inventory_inv_def)
next
  case (expected i ty d)
  note i = find_config_match_Some [OF expected(1)]
  from assms expected i(1) show ?thesis
    by (auto simp: inventory_inv_def nth_list_update)
next
  case (extra ty d)
  with assms show ?thesis by (auto simp: inventory_inv_def)
qed

lemma foldl_inventory_inv:
  "inventory_inv c ps bs \<Longrightarrow>
     inventory_inv c (ps @ qs) (foldl (inventory_step ct ck c src) bs qs)"
proof (induction qs arbitrary: ps bs)
  case (Cons q qs)
  from Cons.IH [OF inventory_inv_step [OF Cons.prems]] show ?case by simp
qed simp

lemma inventory_inv_result:
  "inventory_inv c (sort_key probe_key probes)
     (foldl (inventory_step ct ck c src) (init_build_state c) (sort_key probe_key probes))"
  using foldl_inventory_inv [OF inventory_inv_init] by (metis append_Nil)

lemma unmatched_specs_nth:
  assumes "length matched = length specs"
  shows "unmatched_specs matched specs = map ((!) specs) (filter (\<lambda>i. \<not> matched ! i) [0..<length specs])"
  using assms
proof (induction matched specs rule: list_induct2)
  case (Cons m ms s ss)
  have "[0..<length (s # ss)] = 0 # map Suc [0..<length ss]"
    by (simp only: list.size map_Suc_upt upt_conv_Cons) (simp add: upt_conv_Cons)
  with Cons show ?case by (simp add: unmatched_specs_def filter_map comp_def)
qed (simp add: unmatched_specs_def)

lemma find_match_from_distinct:
  "distinct (map spec_address specs) \<Longrightarrow> i < length specs \<Longrightarrow>
     find_match_from k specs (spec_address (specs ! i)) = Some (k + i)"
proof (induction specs arbitrary: k i)
  case (Cons s specs)
  then show ?case by (cases i) (force simp: in_set_conv_nth)+
qed simp

lemma find_config_match_iff:
  assumes "distinct (map spec_address (config_devices c))" "i < length (config_devices c)"
  shows "find_config_match_by_address c a = Some i \<longleftrightarrow> a = spec_address (config_devices c ! i)"
  using find_match_from_distinct [OF assms, of 0] find_config_match_Some [of c a i]
  by (auto simp: find_config_match_by_address_def)

lemma missing_specs:
  assumes "inventory_inv c ps bs" "distinct (map spec_address (config_devices c))"
  shows "unmatched_specs (bs_matched bs) (config_devices c) =
    filter (\<lambda>s. spec_address s \<notin> dev_address ` set (bs_devices bs)) (config_devices c)"
proof -
  let ?specs = "config_devices c"
  have "unmatched_specs (bs_matched bs) ?specs =
      map ((!) ?specs) (filter (\<lambda>i. \<not> bs_matched bs ! i) [0..<length ?specs])"
    using assms(1) by (intro unmatched_specs_nth) (simp add: inventory_inv_def)
  also have "filter (\<lambda>i. \<not> bs_matched bs ! i) [0..<length ?specs] =
      filter (\<lambda>i. spec_address (?specs ! i) \<notin> dev_address ` set (bs_devices bs)) [0..<length ?specs]"
  proof (intro filter_cong refl)
    fix i assume "i \<in> set [0..<length ?specs]"
    then have i: "i < length ?specs" by simp
    with assms(1) have "bs_matched bs ! i \<longleftrightarrow>
        (\<exists>d \<in> set (bs_devices bs). find_config_match_by_address c (dev_address d) = Some i)"
      by (simp add: inventory_inv_def)
    then show "(\<not> bs_matched bs ! i) =
        (spec_address (?specs ! i) \<notin> dev_address ` set (bs_devices bs))"
      using find_config_match_iff [OF assms(2) i] by (simp add: image_iff) metis
  qed
  also have "map ((!) ?specs) \<dots> =
      filter (\<lambda>s. spec_address s \<notin> dev_address ` set (bs_devices bs)) (map ((!) ?specs) [0..<length ?specs])"
    by (simp add: filter_map comp_def)
  also have "map ((!) ?specs) [0..<length ?specs] = ?specs" by (rule map_nth)
  finally show ?thesis .
qed

text \<open>A device at a configured address is the configured one.\<close>

lemma inventory_entry:
  assumes "distinct (map spec_address (config_devices c))"
    and "d \<in> set (supported_devices (build_inventory_from_probes ct claim_key c probes source))"
    and "s \<in> set (config_devices c)" "spec_address s = dev_address d"
  shows "device_id_of d = spec_id s \<and> dev_type d = spec_type s \<and> dev_expected d"
proof -
  from assms(3) obtain i where i: "i < length (config_devices c)" "s = config_devices c ! i"
    by (auto simp: in_set_conv_nth)
  with assms(4) have "find_config_match_by_address c (dev_address d) = Some i"
    using find_config_match_iff [OF assms(1) i(1)] by simp
  with assms(2) inventory_inv_result [of c probes ct claim_key source] i show ?thesis
    by (auto simp: inventory_inv_def build_inventory_from_probes_def Let_def)
qed

text \<open>
  C12: the inventory accounts for every probe and for every configured device. Each probe becomes
  exactly one device or one unsupported record, at its address; a device only comes from a
  supported probe. With distinct configured addresses, a configured device is reported missing
  exactly when no device is at its address; a device at a configured address carries that
  entry's id and type and is marked expected, and no other device is.
\<close>

theorem inventory_accounts_for_all:
  assumes "distinct (map spec_address (config_devices c))"
  shows "let r = build_inventory_from_probes ct claim_key c probes source; ds = supported_devices r in
     mset (map dev_address ds) + mset (map pr_address (unsupported_probes r)) =
       mset (map pr_address probes) \<and>
     (\<forall>d \<in> set ds. \<exists>p \<in> set probes. pr_address p = dev_address d \<and> pr_status p = Supported) \<and>
     missing_expected_ids r =
       map spec_id (filter (\<lambda>s. spec_address s \<notin> dev_address ` set ds) (config_devices c)) \<and>
     (\<forall>d \<in> set ds. \<forall>s \<in> set (config_devices c). spec_address s = dev_address d \<longrightarrow>
        device_id_of d = spec_id s \<and> dev_type d = spec_type s \<and> dev_expected d) \<and>
     (\<forall>d \<in> set ds. dev_expected d \<longrightarrow> (\<exists>s \<in> set (config_devices c). spec_address s = dev_address d))"
proof -
  let ?bs = "foldl (inventory_step ct claim_key c source) (init_build_state c) (sort_key probe_key probes)"
  note inv = inventory_inv_result [of c probes ct claim_key source]
  have known: "\<exists>s \<in> set (config_devices c). spec_address s = dev_address d"
    if "d \<in> set (bs_devices ?bs)" "dev_expected d" for d
  proof -
    from that inv obtain i where "find_config_match_by_address c (dev_address d) = Some i"
      by (auto simp: inventory_inv_def)
    from find_config_match_Some [OF this] show ?thesis by (metis nth_mem)
  qed
  have "mset (map dev_address (bs_devices ?bs)) + mset (map pr_address (bs_unsupported ?bs)) =
      mset (map pr_address probes)"
    using inv unfolding inventory_inv_def by (metis mset_map mset_sort)
  moreover have "\<forall>d \<in> set (bs_devices ?bs). \<exists>p \<in> set probes.
      pr_address p = dev_address d \<and> pr_status p = Supported"
    using inv by (auto simp: inventory_inv_def)
  ultimately show ?thesis
    using inventory_entry [OF assms, of _ ct claim_key probes source] known missing_specs [OF inv assms]
    by (simp add: build_inventory_from_probes_def Let_def)
qed

definition sample_spec :: "string \<Rightarrow> device_type \<Rightarrow> int \<Rightarrow> device_spec" where
  "sample_spec i ty a =
     \<lparr>spec_id = i, spec_type = ty, spec_label = [], spec_address = a, spec_command_watchdog_ms = 0,
      spec_encoders = True\<rparr>"

definition sample_config :: "device_spec list \<Rightarrow> provider_config" where
  "sample_config specs = default_provider_config\<lparr>config_devices := specs, bus_path := ''/dev/i2c-1''\<rparr>"

definition sample_probe :: "int \<Rightarrow> u8 \<Rightarrow> probe_record" where
  "sample_probe a t =
     \<lparr>pr_address = a, pr_type_id = t, pr_status = Supported, pr_version = zero_version,
      pr_profile = zero_profile, pr_detail = []\<rparr>"

lemma sample_spec_simps [simp]:
  "spec_id (sample_spec i ty a) = i" "spec_type (sample_spec i ty a) = ty"
  "spec_address (sample_spec i ty a) = a" "spec_label (sample_spec i ty a) = []"
  "spec_encoders (sample_spec i ty a)" "config_devices (sample_config specs) = specs"
  "pr_address (sample_probe a t) = a" "pr_type_id (sample_probe a t) = t"
  "pr_status (sample_probe a t) = Supported"
  by (simp_all add: sample_spec_def sample_config_def sample_probe_def)

theorem inventory_accounts_for_all_witness:
  "mset (map dev_address (supported_devices (build_inventory_from_probes sample_contracts (\<lambda>_ _. [])
       (sample_config [sample_spec ''heat'' Rlht 10, sample_spec ''pump'' Dcmt 20])
       [sample_probe 20 2, sample_probe 11 9] Discovered))) +
   mset (map pr_address (unsupported_probes (build_inventory_from_probes sample_contracts (\<lambda>_ _. [])
       (sample_config [sample_spec ''heat'' Rlht 10, sample_spec ''pump'' Dcmt 20])
       [sample_probe 20 2, sample_probe 11 9] Discovered))) = {#20, 11#}"
  using inventory_accounts_for_all [of "sample_config [sample_spec ''heat'' Rlht 10, sample_spec ''pump'' Dcmt 20]"
      sample_contracts "\<lambda>_ _. []" "[sample_probe 20 2, sample_probe 11 9]" Discovered]
  by (simp add: Let_def)

subsection \<open>The order and the ids of the inventory\<close>

lemma generated_id_inj: "generated_id ty i = generated_id ty' j \<Longrightarrow> ty = ty' \<and> i = j"
  by (cases ty; cases ty') (auto simp: generated_id_def dest: nat_to_string_inj)

definition ids_inv :: "provider_config \<Rightarrow> probe_record list \<Rightarrow> build_state \<Rightarrow> bool" where
  "ids_inv c ps bs \<longleftrightarrow>
     distinct (map device_id_of (bs_devices bs)) \<and>
     dev_address ` set (bs_devices bs) \<subseteq> pr_address ` set ps \<and>
     (\<forall>d \<in> set (bs_devices bs).
        (\<exists>i. find_config_match_by_address c (dev_address d) = Some i \<and>
             device_id_of d = spec_id (config_devices c ! i)) \<or>
        (\<exists>n < type_counter (dev_type d) bs. device_id_of d = generated_id (dev_type d) n))"

text \<open>No configured id is one the provider could generate.\<close>

definition ids_reserved :: "provider_config \<Rightarrow> bool" where
  "ids_reserved c \<longleftrightarrow> (\<forall>s \<in> set (config_devices c). \<forall>ty n. spec_id s \<noteq> generated_id ty n)"

lemma ids_inv_step:
  assumes inv: "ids_inv c ps bs" and ids: "distinct (map spec_id (config_devices c))"
    and reserved: "ids_reserved c" and new: "pr_address probe \<notin> pr_address ` set ps"
  shows "ids_inv c (ps @ [probe]) (inventory_step ct ck c src bs probe)"
proof (cases rule: inventory_step_cases [of ct ck c src bs probe])
  case (unsupported p)
  with inv show ?thesis by (auto simp: ids_inv_def)
next
  case (expected i ty d)
  note i = find_config_match_Some [OF expected(1)]
  have fresh: "device_id_of e \<noteq> device_id_of d" if e: "e \<in> set (bs_devices bs)" for e
  proof
    assume eq: "device_id_of e = device_id_of d"
    have "\<forall>ty n. spec_id (config_devices c ! i) \<noteq> generated_id ty n"
      using reserved i(1) by (auto simp: ids_reserved_def)
    with e inv eq expected(8) obtain j where j: "find_config_match_by_address c (dev_address e) = Some j"
      "device_id_of e = spec_id (config_devices c ! j)"
      unfolding ids_inv_def by metis
    note j' = find_config_match_Some [OF j(1)]
    from ids i(1) j'(1) j(2) eq expected(8) have "i = j" by (simp add: distinct_conv_nth) metis
    with i(2) j'(2) have "dev_address e = pr_address probe" by simp
    with new inv e show False unfolding ids_inv_def by (metis image_eqI subsetD)
  qed
  from inv expected fresh show ?thesis
    by (auto simp: ids_inv_def less_Suc_eq)
next
  case (extra ty d)
  have fresh: "device_id_of e \<noteq> device_id_of d" if e: "e \<in> set (bs_devices bs)" for e
  proof
    assume eq: "device_id_of e = device_id_of d"
    from e inv consider i where "find_config_match_by_address c (dev_address e) = Some i"
        "device_id_of e = spec_id (config_devices c ! i)"
      | n where "n < type_counter (dev_type e) bs" "device_id_of e = generated_id (dev_type e) n"
      unfolding ids_inv_def by metis
    then show False
    proof cases
      case 1
      from find_config_match_Some(1) [OF 1(1)] reserved have "device_id_of e \<noteq> generated_id ty n" for n
        using 1(2) by (auto simp: ids_reserved_def)
      with eq extra(7) show False by simp
    next
      case 2
      with eq extra(7) have "dev_type e = ty" "n = type_counter ty bs"
        using generated_id_inj by metis+
      with 2(1) show False by simp
    qed
  qed
  from inv extra fresh show ?thesis
    by (auto simp: ids_inv_def less_Suc_eq)
qed

lemma foldl_ids_inv:
  assumes "distinct (map spec_id (config_devices c))" "ids_reserved c"
  shows "ids_inv c ps bs \<Longrightarrow> distinct (map pr_address (ps @ qs)) \<Longrightarrow>
     ids_inv c (ps @ qs) (foldl (inventory_step ct ck c src) bs qs)"
proof (induction qs arbitrary: ps bs)
  case (Cons q qs)
  from Cons.prems(2) have "pr_address q \<notin> pr_address ` set ps" by auto
  from Cons.IH [OF ids_inv_step [OF Cons.prems(1) assms this]] Cons.prems(2) show ?case by simp
qed simp

lemma foldl_devices_sorted:
  assumes "sorted (map pr_address (ps @ qs))" "sorted (map dev_address (bs_devices bs))"
    "dev_address ` set (bs_devices bs) \<subseteq> pr_address ` set ps"
  shows "sorted (map dev_address (bs_devices (foldl (inventory_step ct ck c src) bs qs)))"
  using assms
proof (induction qs arbitrary: ps bs)
  case (Cons q qs)
  have below: "\<forall>d \<in> set (bs_devices bs). dev_address d \<le> pr_address q"
    using Cons.prems(1,3) by (auto simp: sorted_append)
  have "sorted (map dev_address (bs_devices (inventory_step ct ck c src bs q))) \<and>
      dev_address ` set (bs_devices (inventory_step ct ck c src bs q)) \<subseteq> pr_address ` set (ps @ [q])"
    using Cons.prems(2,3) below
    by (cases rule: inventory_step_cases [of ct ck c src bs q]) (auto simp: sorted_append)
  with Cons.IH [of "ps @ [q]"] Cons.prems(1) show ?case by simp
qed simp

lemma sorted_probes: "sorted (map pr_address (sort_key probe_key probes))"
proof -
  have "sorted (map probe_key (sort_key probe_key probes))" by simp
  then have "sorted (map fst (map probe_key (sort_key probe_key probes)))"
    by (auto simp: sorted_wrt_map less_eq_prod_def intro: sorted_wrt_mono_rel [rotated])
  then show ?thesis by (simp add: probe_key_def comp_def)
qed

text \<open>
  C33: the inventory is in address order, and when the probes are at distinct addresses, the
  configured ids are distinct and none of them is of the form the provider generates
  (\<open>rlht\<close> or \<open>dcmt\<close> and a number), no two devices share an id.
\<close>

theorem inventory_ordered_and_unique:
  "let ds = supported_devices (build_inventory_from_probes ct claim_key c probes source) in
   sorted (map dev_address ds) \<and>
   (distinct (map spec_id (config_devices c)) \<and> ids_reserved c \<and> distinct (map pr_address probes) \<longrightarrow>
      distinct (map device_id_of ds))"
proof -
  let ?ps = "sort_key probe_key probes"
  let ?bs = "foldl (inventory_step ct claim_key c source) (init_build_state c) ?ps"
  have "sorted (map dev_address (bs_devices ?bs))"
    using sorted_probes [of probes]
    by (intro foldl_devices_sorted [where ps = "[]"]) (simp_all add: init_build_state_def)
  moreover have "distinct (map device_id_of (bs_devices ?bs))"
    if "distinct (map spec_id (config_devices c))" "ids_reserved c" "distinct (map pr_address probes)"
  proof -
    have "mset (map pr_address ?ps) = mset (map pr_address probes)" by simp
    with that(3) have "distinct (map pr_address ([] @ ?ps))"
      using mset_eq_imp_distinct_iff [of "map pr_address ?ps" "map pr_address probes"] by simp
    moreover have "ids_inv c [] (init_build_state c)" by (simp add: ids_inv_def init_build_state_def)
    ultimately have "ids_inv c ([] @ ?ps) ?bs" by (intro foldl_ids_inv that)
    then show ?thesis by (simp add: ids_inv_def)
  qed
  ultimately show ?thesis by (simp add: build_inventory_from_probes_def Let_def)
qed

theorem inventory_ordered_and_unique_witness:
  "distinct (map device_id_of (supported_devices (build_inventory_from_probes sample_contracts
     (\<lambda>_ _. []) (sample_config [sample_spec ''heat'' Rlht 10])
     [sample_probe 20 2, sample_probe 10 1, sample_probe 11 1] Discovered)))"
proof -
  have "ids_reserved (sample_config [sample_spec ''heat'' Rlht 10])"
    by (auto simp: ids_reserved_def generated_id_def)
  then show ?thesis
    using inventory_ordered_and_unique [of sample_contracts "\<lambda>_ _. []"
        "sample_config [sample_spec ''heat'' Rlht 10]"
        "[sample_probe 20 2, sample_probe 10 1, sample_probe 11 1]" Discovered]
    by (simp add: Let_def)
qed

text \<open>
  Without that reservation an id can be given out twice: a config naming its heater
  \<open>rlht0\<close> at address 0x0B, scanned on a bus that also has an unconfigured RLHT at 0x0A, gives
  both devices the id \<open>rlht0\<close>, and looking the id up finds the unconfigured one.
\<close>

lemma generated_id_collision:
  "let ds = supported_devices (build_inventory_from_probes sample_contracts (\<lambda>_ _. [])
       (sample_config [sample_spec ''rlht0'' Rlht 11]) [sample_probe 10 1, sample_probe 11 1] Discovered)
   in map device_id_of ds = [''rlht0'', ''rlht0''] \<and>
      map_option dev_address (find_device ds ''rlht0'') = Some 10"
proof -
  let ?c = "sample_config [sample_spec ''rlht0'' Rlht 11]"
  let ?p = "sample_probe 10 1" and ?q = "sample_probe 11 1"
  have zero: "nat_to_string 0 = ''0''"
    by (simp add: nat_to_string_def digits_base.simps digit_char_def)
  have sorted: "probe_key ?p \<le> probe_key ?q"
    by (simp add: probe_key_def)
  have types: "try_parse_bread_type sample_contracts 1 = Some Rlht"
    by (simp add: try_parse_bread_type_def)
  have matches: "find_config_match_by_address ?c 10 = None" "find_config_match_by_address ?c 11 = Some 0"
    by (simp_all add: find_config_match_by_address_def)
  show ?thesis
    by (simp add: build_inventory_from_probes_def sorted inventory_step_def types matches Let_def
        init_build_state_def extra_device_def expected_device_def find_device_def)
       (simp add: add_supported_def bump_counter_def generated_id_def type_counter_def zero)
qed

subsection \<open>Seeded inventories\<close>

lemma inventory_step_seed:
  assumes "labels_distinct ct" "distinct (map spec_address (config_devices c))"
    and "spec \<in> set (config_devices c)"
  shows "bs_devices (inventory_step ct ck c src bs (seed_probe ct spec)) =
    bs_devices bs @ [expected_device ct ck c src (spec_type spec) spec (seed_probe ct spec)]"
proof -
  from assms(3) obtain i where i: "i < length (config_devices c)" "spec = config_devices c ! i"
    by (auto simp: in_set_conv_nth)
  have "find_config_match_by_address c (pr_address (seed_probe ct spec)) = Some i"
    using find_config_match_iff [OF assms(2) i(1)] i(2) by (simp add: seed_probe_def)
  then show ?thesis
    using try_parse_bread_type_id [OF assms(1), of "spec_type spec"] i(2)
    by (simp add: inventory_step_def seed_probe_def Let_def)
qed

lemma foldl_inventory_seed:
  assumes "labels_distinct ct" "distinct (map spec_address (config_devices c))"
  shows "set specs \<subseteq> set (config_devices c) \<Longrightarrow>
    bs_devices (foldl (inventory_step ct ck c src) bs (map (seed_probe ct) specs)) =
    bs_devices bs @ map (\<lambda>s. expected_device ct ck c src (spec_type s) s (seed_probe ct s)) specs"
  by (induction specs arbitrary: bs) (simp_all add: inventory_step_seed [OF assms])

lemma normalize_idem [simp]:
  "normalize_capability_profile ct ty (normalize_capability_profile ct ty p) =
   normalize_capability_profile ct ty p"
  by (cases "cp_source p") (simp_all add: normalize_capability_profile_def fill_profile_def Let_def)

lemma seed_inventory_eq:
  assumes "labels_distinct ct" "distinct (map spec_address (config_devices c))"
  shows "build_seed_inventory ct claim_key c = map (\<lambda>s. expected_device ct claim_key c ConfigSeeded
      (spec_type s) s (seed_probe ct s)) (sort_key spec_address (config_devices c))"
proof -
  let ?specs = "config_devices c"
  have "map (seed_probe ct) (sort_key spec_address ?specs) = sort_key probe_key (map (seed_probe ct) ?specs)"
  proof (rule sort_key_inj_key_eq [symmetric])
    show "mset (map (seed_probe ct) ?specs) = mset (map (seed_probe ct) (sort_key spec_address ?specs))"
      by simp
    show "inj_on probe_key (set (map (seed_probe ct) ?specs))"
      using assms(2) by (auto simp: inj_on_def probe_key_def seed_probe_def distinct_map)
    have "sorted (map spec_address (sort_key spec_address ?specs))" by simp
    moreover have "distinct (map spec_address (sort_key spec_address ?specs))"
      using assms(2) mset_eq_imp_distinct_iff
        [of "map spec_address (sort_key spec_address ?specs)" "map spec_address ?specs"] by simp
    ultimately have "sorted_wrt (<) (map spec_address (sort_key spec_address ?specs))"
      by (simp add: strict_sorted_iff)
    then show "sorted (map probe_key (map (seed_probe ct) (sort_key spec_address ?specs)))"
      by (auto simp: sorted_wrt_map probe_key_def seed_probe_def less_eq_prod_def
          intro: sorted_wrt_mono_rel [rotated])
  qed
  then show ?thesis
    using foldl_inventory_seed [OF assms, of "sort_key spec_address ?specs" claim_key ConfigSeeded
        "init_build_state c"]
    by (simp add: build_seed_inventory_def build_inventory_from_probes_def build_seed_probes_def Let_def
        init_build_state_def)
qed

text \<open>
  Without hardware the inventory is exactly the configured devices: with distinct configured
  addresses, every configured device becomes one device, in address order, with its id, its type
  and its watchdog time, marked expected; nothing is dropped and nothing added.
\<close>

lemma seed_inventory_is_config:
  assumes "labels_distinct ct" "distinct (map spec_address (config_devices c))"
  shows "map (\<lambda>d. (device_id_of d, dev_type d, dev_address d, dev_command_watchdog_ms d, dev_expected d))
      (build_seed_inventory ct claim_key c) =
    map (\<lambda>s. (spec_id s, spec_type s, spec_address s, spec_command_watchdog_ms s, True))
      (sort_key spec_address (config_devices c))"
  by (simp add: seed_inventory_eq [OF assms] expected_device_def seed_probe_def comp_def)

subsection \<open>A DCMT without encoders offers no closed loop\<close>

lemma has_flag_masked [simp]:
  "\<not> has_flag (f AND NOT (encoder_caps ct)) (cap_of ct DCMT_CAP_CLOSED_LOOP_POSITION)"
  "\<not> has_flag (f AND NOT (encoder_caps ct)) (cap_of ct DCMT_CAP_CLOSED_LOOP_SPEED)"
  "\<not> has_flag (f AND NOT (encoder_caps ct)) (cap_of ct DCMT_CAP_PID_TUNING)"
  unfolding has_flag_def not_not by (rule bit_word_eqI; auto simp: encoder_caps_def bit_simps)+

lemma has_flag_or: "has_flag f (x OR y) \<longleftrightarrow> has_flag f x \<or> has_flag f y"
  by (simp add: has_flag_def bit.conj_disj_distrib or_eq_0_iff)

lemma function_with_simps [simp]:
  "fn_id (function_with i n d c a) = i" "fn_name (function_with i n d c a) = n"
  "fn_args (function_with i n d c a) = a" "fn_category (function_with i n d c a) = c"
  by (simp_all add: function_with_def)

lemma dcmt_functions_no_encoders:
  assumes "f \<in> set (dcmt_functions ct (flags AND NOT (encoder_caps ct)))"
  shows "fn_id f \<in> {1, 2, 3, 6} \<and>
    (\<forall>a \<in> set (fn_args f). arg_name a = ''mode'' \<longrightarrow> arg_allowed_values a = [''open_loop''])"
  using assms
  by (auto simp: dcmt_functions_def has_flag_or dcmt_modes_def arg_def ranged_def allowed_def
      split: if_splits)

lemma device_origin:
  assumes "d \<in> set (bs_devices (foldl (inventory_step ct ck c src) bs qs))"
  shows "d \<in> set (bs_devices bs) \<or>
    (\<exists>p \<in> set qs. \<exists>ty. try_parse_bread_type ct (pr_type_id p) = Some ty \<and>
       ((\<exists>i. find_config_match_by_address c (pr_address p) = Some i \<and>
             spec_type (config_devices c ! i) = ty \<and>
             d = expected_device ct ck c src ty (config_devices c ! i) p) \<or>
        (\<exists>n. find_config_match_by_address c (pr_address p) = None \<and> d = extra_device ct ck c src ty n p)))"
  using assms
proof (induction qs arbitrary: bs)
  case (Cons q qs)
  from Cons.IH [of "inventory_step ct ck c src bs q"] Cons.prems show ?case
    by (cases rule: inventory_step_cases [of ct ck c src bs q]) auto
qed simp

lemma expected_device_encoders:
  "dev_encoders (expected_device ct ck c src ty spec p) = (ty = Rlht \<or> spec_encoders spec)"
  by (cases ty) (simp_all add: expected_device_def apply_spec_def Let_def)

lemma expected_device_no_encoders:
  "ty = Dcmt \<Longrightarrow> \<not> spec_encoders spec \<Longrightarrow>
   dev_capabilities (expected_device ct ck c src ty spec p) = build_dcmt_capabilities ct
     (cp_flags (normalize_capability_profile ct ty (pr_profile p)) AND NOT (encoder_caps ct))"
  by (simp add: expected_device_def apply_spec_def Let_def)

text \<open>
  C34: a device configured as a DCMT with \<open>encoders: false\<close> is marked so, and whatever its firmware
  advertises it offers no setpoint and no PID function (ids 4, 5 and 7), and its \<open>set_mode\<close> admits
  \<open>open_loop\<close> only; no other device is marked so.
\<close>

theorem no_encoders_no_closed_loop:
  assumes "distinct (map spec_address (config_devices c))"
    and "d \<in> set (supported_devices (build_inventory_from_probes ct claim_key c probes source))"
  shows "(\<not> dev_encoders d \<longleftrightarrow> (\<exists>s \<in> set (config_devices c). spec_address s = dev_address d \<and>
            spec_type s = Dcmt \<and> \<not> spec_encoders s)) \<and>
    (\<not> dev_encoders d \<longrightarrow> (\<forall>f \<in> set (cap_functions (dev_capabilities d)). fn_id f \<in> {1, 2, 3, 6} \<and>
       (\<forall>a \<in> set (fn_args f). arg_name a = ''mode'' \<longrightarrow> arg_allowed_values a = [''open_loop''])))"
proof -
  have "d \<in> set (bs_devices (foldl (inventory_step ct claim_key c source) (init_build_state c)
      (sort_key probe_key probes)))"
    using assms(2) by (simp add: build_inventory_from_probes_def Let_def)
  from device_origin [OF this] obtain p ty where
    origin: "(\<exists>i. find_config_match_by_address c (pr_address p) = Some i \<and>
        spec_type (config_devices c ! i) = ty \<and>
        d = expected_device ct claim_key c source ty (config_devices c ! i) p) \<or>
      (\<exists>n. find_config_match_by_address c (pr_address p) = None \<and>
        d = extra_device ct claim_key c source ty n p)"
    by (auto simp: init_build_state_def)
  then consider (expected) i where "find_config_match_by_address c (pr_address p) = Some i"
      "spec_type (config_devices c ! i) = ty"
      "d = expected_device ct claim_key c source ty (config_devices c ! i) p"
    | (extra) n where "find_config_match_by_address c (pr_address p) = None"
      "d = extra_device ct claim_key c source ty n p" by blast
  then show ?thesis
  proof cases
    case expected
    note i = find_config_match_Some [OF expected(1)]
    have addr: "dev_address d = pr_address p" by (simp add: expected(3) expected_device_def)
    have uniq: "s = config_devices c ! i" if "s \<in> set (config_devices c)" "spec_address s = dev_address d" for s
      using that assms(1) i addr by (metis distinct_map inj_on_eq_iff nth_mem)
    have "\<not> dev_encoders d \<longleftrightarrow> ty = Dcmt \<and> \<not> spec_encoders (config_devices c ! i)"
      by (cases ty) (simp_all add: expected(3) expected_device_encoders)
    with uniq i addr expected show ?thesis
      by (auto simp: expected_device_no_encoders build_dcmt_capabilities_def
          dest!: dcmt_functions_no_encoders intro: nth_mem)
  next
    case extra
    have "dev_address d = pr_address p" "dev_encoders d" by (simp_all add: extra(2) extra_device_def)
    moreover have "spec_address s \<noteq> pr_address p" if "s \<in> set (config_devices c)" for s
      using extra(1) find_match_from_exists [of "config_devices c" "pr_address p" 0] that
      by (auto simp: find_config_match_by_address_def)
    ultimately show ?thesis by auto
  qed
qed

theorem no_encoders_no_closed_loop_witness:
  "let s = (sample_spec ''pump'' Dcmt 20)\<lparr>spec_encoders := False\<rparr>;
       d = expected_device sample_contracts (\<lambda>_ _. []) (sample_config [s]) Discovered Dcmt s (sample_probe 20 2)
   in d \<in> set (supported_devices (build_inventory_from_probes sample_contracts (\<lambda>_ _. [])
        (sample_config [s]) [sample_probe 20 2] Discovered)) \<and> \<not> dev_encoders d"
proof -
  let ?s = "(sample_spec ''pump'' Dcmt 20)\<lparr>spec_encoders := False\<rparr>"
  let ?d = "expected_device sample_contracts (\<lambda>_ _. []) (sample_config [?s]) Discovered Dcmt ?s (sample_probe 20 2)"
  have mem: "?d \<in> set (supported_devices (build_inventory_from_probes sample_contracts (\<lambda>_ _. [])
        (sample_config [?s]) [sample_probe 20 2] Discovered))"
    by (simp add: build_inventory_from_probes_def inventory_step_def try_parse_bread_type_def
        find_config_match_by_address_def Let_def init_build_state_def)
  moreover have "\<not> dev_encoders ?d"
    using no_encoders_no_closed_loop [OF _ mem] by (simp add: expected_device_def)
  ultimately show ?thesis by (simp add: Let_def)
qed

end
