(* ===== verification/Set_Confirm.thy ===== *)
theory Set_Confirm
  imports Canned_Bus Inventory
begin

text \<open>
  \<open>src/devices/common/set_confirm\<close>: sending a SET and confirming it from the device's
  acknowledgement. The two bounded loops recurse on the number of turns left.
\<close>

subsection \<open>The operations\<close>

definition kConfirmedSends :: nat where "kConfirmedSends = 3"

datatype confirmation = Acknowledged | DeliveryOnly | Unconfirmed

definition hex_byte :: "u8 \<Rightarrow> string" where
  "hex_byte v = ''0x'' @ hex_padded 2 (unat v)"

fun refuses_flag_for :: "contracts \<Rightarrow> device_type \<Rightarrow> u32" where
  "refuses_flag_for ct Rlht = cap_of ct RLHT_CAP_REFUSES"
| "refuses_flag_for ct Dcmt = cap_of ct DCMT_CAP_REFUSES"

definition refusal_for :: "contracts \<Rightarrow> u8 \<Rightarrow> string option \<times> status_code" where
  "refusal_for ct reason =
     (if reason = byte_of ct BREAD_REFUSE_ESTOP then (Some ''ESTOP'', CODE_FAILED_PRECONDITION)
      else if reason = byte_of ct BREAD_REFUSE_WATCHDOG_TRIP then
        (Some ''WATCHDOG_TRIP'', CODE_FAILED_PRECONDITION)
      else if reason = byte_of ct BREAD_REFUSE_WRONG_MODE then
        (Some ''WRONG_MODE'', CODE_FAILED_PRECONDITION)
      else if reason = byte_of ct BREAD_REFUSE_MALFORMED then (Some ''MALFORMED'', CODE_INVALID_ARGUMENT)
      else if reason = byte_of ct BREAD_REFUSE_UNDEFINED_VALUE then
        (Some ''UNDEFINED_VALUE'', CODE_INVALID_ARGUMENT)
      else if reason = byte_of ct BREAD_REFUSE_UNKNOWN_OP then
        (Some ''UNKNOWN_OP'', CODE_INVALID_ARGUMENT)
      else if reason = byte_of ct BREAD_REFUSE_NOT_BUILT then (Some ''NOT_BUILT'', CODE_UNIMPLEMENTED)
      else (None, CODE_FAILED_PRECONDITION))"

definition reject_name :: "contracts \<Rightarrow> u8 \<Rightarrow> string" where
  "reject_name ct reason =
     (if reason = byte_of ct CRUMBS_ACK_REJECT_NO_HANDLER then ''NO_HANDLER''
      else if reason = byte_of ct CRUMBS_ACK_REJECT_TYPE then ''TYPE''
      else hex_byte reason)"

fun read_ack_loop ::
  "contracts \<Rightarrow> 'w transport \<Rightarrow> u8 \<Rightarrow> nat \<Rightarrow> string \<Rightarrow> 'w session \<Rightarrow> (string + crumbs_ack) \<times> 'w session" where
  "read_ack_loop ct tr a 0 why ss = (Inl why, ss)"
| "read_ack_loop ct tr a (Suc n) why ss =
     (let (st, reply, ss1) = query_read tr a (byte_of ct CRUMBS_CMD_GET_ACK) empty_frame ss in
      if \<not> status_ok st then (Inl (st_message st), ss1)
      else case crumbs_ack_decode ct (populate_message reply) of
        Some ack \<Rightarrow> (Inr ack, ss1)
      | None \<Rightarrow>
          read_ack_loop ct tr a n
            (''reply is not a GET_ACK record (opcode '' @ hex_byte (fr_opcode reply) @ '')'')
            (record_rejection a ss1))"

definition read_ack ::
  "contracts \<Rightarrow> 'w transport \<Rightarrow> u8 \<Rightarrow> string \<Rightarrow> 'w session \<Rightarrow> (string + crumbs_ack) \<times> 'w session" where
  "read_ack ct tr a why ss = read_ack_loop ct tr a (num_of ct CRUMBS_ACK_READ_ATTEMPTS) why ss"

definition set_confirmation :: "contracts \<Rightarrow> inventory_device \<Rightarrow> confirmation" where
  "set_confirmation ct d =
     (if unat (crumbs_version (dev_version d)) < num_of ct CRUMBS_ACK_MIN_VERSION then Unconfirmed
      else
        let refuses = refuses_flag_for ct (dev_type d) in
        if refuses \<noteq> 0 \<and> cp_flags (dev_profile d) AND refuses \<noteq> 0 then Acknowledged else DeliveryOnly)"

fun set_confirmation_to_string :: "confirmation \<Rightarrow> string" where
  "set_confirmation_to_string Acknowledged = ''acknowledged''"
| "set_confirmation_to_string DeliveryOnly = ''delivery_only''"
| "set_confirmation_to_string Unconfirmed = ''unconfirmed''"

text \<open>The \<open>switch\<close> on the classification; \<open>None\<close> where the loop goes on to the next send.\<close>

definition outcome_result :: "contracts \<Rightarrow> string \<Rightarrow> crumbs_ack \<Rightarrow> ack_outcome \<Rightarrow> adapter_call_result option" where
  "outcome_result ct op after oc =
     (case oc of
        CRUMBS_SET_APPLIED \<Rightarrow> Some (call_ok ''ok'')
      | CRUMBS_SET_REFUSED \<Rightarrow>
          (let (name, code) = refusal_for ct (ack_reason after) in
           Some (call_error code
             (op @ '' refused: '' @ (case name of Some n \<Rightarrow> n | None \<Rightarrow> hex_byte (ack_reason after)))))
      | CRUMBS_SET_REJECTED \<Rightarrow>
          Some (call_error CODE_INTERNAL (op @ '' rejected: '' @ reject_name ct (ack_reason after)))
      | CRUMBS_SET_NOT_ADVANCED \<Rightarrow> None
      | CRUMBS_RX_ACK_MISMATCH \<Rightarrow>
          Some (call_error CODE_UNAVAILABLE
            (op @ '' unconfirmed: the device counted another command (opcode '' @
             hex_byte (ack_opcode after) @ '')''))
      | CRUMBS_RX_ACK_UNKNOWN \<Rightarrow>
          Some (call_error CODE_UNAVAILABLE
            (op @ '' unconfirmed: the acknowledgement cannot say (the device may have restarted)''))
      | CRUMBS_RX_ACK_INVALID \<Rightarrow>
          Some (call_error CODE_INTERNAL (op @ '' unconfirmed: invalid acknowledgement'')))"

definition ack_lost_text :: "string \<Rightarrow> string \<Rightarrow> session_status \<Rightarrow> string" where
  "ack_lost_text op why send_status =
     op @ '' unconfirmed: GET_ACK after send failed: '' @ why @
     (if \<not> status_ok send_status then '' (the write also failed: '' @ st_message send_status @ '')''
      else [])"

fun confirm_loop ::
  "contracts \<Rightarrow> 'w transport \<Rightarrow> u8 \<Rightarrow> raw_frame \<Rightarrow> string \<Rightarrow> crumbs_ack \<Rightarrow> nat \<Rightarrow> string \<Rightarrow> 'w session \<Rightarrow>
   adapter_call_result \<times> 'w session" where
  "confirm_loop ct tr a frame op before 0 why ss =
     (call_error CODE_UNAVAILABLE
        (op @ '' not applied: the device did not count it after '' @ nat_to_string kConfirmedSends @
         '' sends''), ss)"
| "confirm_loop ct tr a frame op before (Suc n) why ss =
     (let (send_status, ss1) = session_send tr a frame ss;
          (got, ss2) = read_ack ct tr a why ss1
      in case got of
           Inl why' \<Rightarrow> (call_error CODE_UNAVAILABLE (ack_lost_text op why' send_status), ss2)
         | Inr after \<Rightarrow>
             (case outcome_result ct op after (crumbs_ack_classify ct before after (fr_opcode frame)) of
                Some r \<Rightarrow> (r, ss2)
              | None \<Rightarrow> confirm_loop ct tr a frame op before n why ss2))"

definition transmit_confirmed ::
  "contracts \<Rightarrow> 'w transport \<Rightarrow> inventory_device \<Rightarrow> raw_frame \<Rightarrow> string \<Rightarrow> 'w session \<Rightarrow>
   adapter_call_result \<times> 'w session" where
  "transmit_confirmed ct tr d frame op ss =
     (let a = word_of_int (dev_address d) in
      if set_confirmation ct d = Unconfirmed then
        (let (st, ss1) = session_send tr a frame ss in
         if \<not> status_ok st then (call_error_from_session st op, ss1)
         else (call_ok ''ok (unconfirmed)'', ss1))
      else
        (let (got, ss1) = read_ack ct tr a [] ss in
         case got of
           Inl why \<Rightarrow>
             (call_error CODE_UNAVAILABLE (op @ '' not sent: GET_ACK baseline failed: '' @ why), ss1)
         | Inr before \<Rightarrow> confirm_loop ct tr a frame op before kConfirmedSends [] ss1))"

subsection \<open>What a confirmed send puts on the bus\<close>

definition ack_event :: "contracts \<Rightarrow> u8 \<Rightarrow> bus_event \<Rightarrow> bool" where
  "ack_event ct a e \<longleftrightarrow>
     e = EvSend a (query_frame (byte_of ct CRUMBS_CMD_GET_ACK)) \<or> (\<exists>d. e = EvDelay d) \<or> (\<exists>t. e = EvRead a t)"

lemma session_send_options:
  "session_send tr a f ss = (st, ss') \<Longrightarrow> s_options ss' = s_options ss"
  by (auto dest!: session_send_cases)

lemma query_read_options:
  "query_read tr a p g ss = (st, out, ss') \<Longrightarrow> s_options ss' = s_options ss"
  by (auto dest!: query_read_cases)

lemma record_rejection_simps [simp]:
  "s_transport (record_rejection a ss) = s_transport ss" "s_options (record_rejection a ss) = s_options ss"
  by (simp_all add: record_rejection_def)

lemma ack_query_traffic:
  assumes "query_read (traced tr) a (byte_of ct CRUMBS_CMD_GET_ACK) g ss = (st, out, ss')"
  shows "\<exists>es. snd (s_transport ss') = snd (s_transport ss) @ es \<and> (\<forall>e \<in> set es. ack_event ct a e)"
proof -
  from query_read_traffic [OF assms] obtain bs where
    bs: "set bs \<subseteq> {full_query (s_options ss) a (byte_of ct CRUMBS_CMD_GET_ACK),
           [EvSend a (query_frame (byte_of ct CRUMBS_CMD_GET_ACK))]}"
      "snd (s_transport ss') = snd (s_transport ss) @ concat bs" by blast
  then have "\<forall>e \<in> set (concat bs). ack_event ct a e"
    by (auto simp: full_query_def ack_event_def dest!: subsetD)
  with bs show ?thesis by blast
qed

lemma read_ack_loop_traffic:
  "read_ack_loop ct (traced tr) a n why ss = (r, ss') \<Longrightarrow>
     s_options ss' = s_options ss \<and>
     (\<exists>es. snd (s_transport ss') = snd (s_transport ss) @ es \<and> (\<forall>e \<in> set es. ack_event ct a e))"
proof (induction n arbitrary: why ss)
  case (Suc n)
  obtain st reply ss1 where
    q: "query_read (traced tr) a (byte_of ct CRUMBS_CMD_GET_ACK) empty_frame ss = (st, reply, ss1)"
    by (metis prod_cases3)
  from ack_query_traffic [OF q] obtain es where es:
    "snd (s_transport ss1) = snd (s_transport ss) @ es" "\<forall>e \<in> set es. ack_event ct a e" by blast
  show ?case
  proof (cases "status_ok st \<and> crumbs_ack_decode ct (populate_message reply) = None")
    case True
    with Suc.prems q Suc.IH obtain es' where
      "s_options ss' = s_options ss1" "snd (s_transport ss') = snd (s_transport ss1) @ es'"
      "\<forall>e \<in> set es'. ack_event ct a e"
      by (fastforce simp: Let_def)
    with es query_read_options [OF q] show ?thesis by (auto intro!: exI [of _ "es @ es'"])
  next
    case False
    with Suc.prems q have "ss' = ss1" by (auto split: if_splits option.splits)
    with es query_read_options [OF q] show ?thesis by blast
  qed
qed auto

lemma read_ack_traffic:
  assumes "read_ack ct (traced tr) a why ss = (r, ss')"
  obtains es where "snd (s_transport ss') = snd (s_transport ss) @ es" "\<forall>e \<in> set es. ack_event ct a e"
    and "s_options ss' = s_options ss"
  using read_ack_loop_traffic assms unfolding read_ack_def by blast

text \<open>Events in which the acknowledgement is asked for, and nothing else is done.\<close>

definition asks_ack :: "contracts \<Rightarrow> u8 \<Rightarrow> bus_event list \<Rightarrow> bool" where
  "asks_ack ct a es \<longleftrightarrow>
     EvSend a (query_frame (byte_of ct CRUMBS_CMD_GET_ACK)) \<in> set es \<and> (\<forall>e \<in> set es. ack_event ct a e)"

lemma read_ack_loop_asks:
  assumes "read_ack_loop ct (traced tr) a (Suc n) why ss = (r, ss')" "serves (traced tr) a ss"
    and "snd (s_transport ss') = snd (s_transport ss) @ es"
  shows "EvSend a (query_frame (byte_of ct CRUMBS_CMD_GET_ACK)) \<in> set es"
proof -
  obtain st reply ss1 where
    q: "query_read (traced tr) a (byte_of ct CRUMBS_CMD_GET_ACK) empty_frame ss = (st, reply, ss1)"
    by (metis prod_cases3)
  from query_read_asks [OF q assms(2)] obtain es1 where
    "snd (s_transport ss1) = snd (s_transport ss) @ EvSend a (query_frame (byte_of ct CRUMBS_CMD_GET_ACK)) # es1" by blast
  moreover have "\<exists>es2. snd (s_transport ss') = snd (s_transport ss1) @ es2"
    using assms(1) q read_ack_loop_traffic [of ct tr a n _ "record_rejection a ss1" r ss']
    by (auto simp: Let_def split: if_splits option.splits)
  ultimately show ?thesis using assms(3) by auto
qed

context transport_contract
begin

lemma read_ack_loop_serves:
  "read_ack_loop ct tr a n why ss = (r, ss') \<Longrightarrow> serves tr b ss' = serves tr b ss"
proof (induction n arbitrary: why ss)
  case (Suc n)
  obtain st reply ss1 where q: "query_read tr a (byte_of ct CRUMBS_CMD_GET_ACK) empty_frame ss = (st, reply, ss1)"
    by (metis prod_cases3)
  have "serves tr b (record_rejection a ss1) = serves tr b ss"
    using serves_keeps(1) [OF q, of b] by (simp add: serves_def session_is_open_def)
  with Suc serves_keeps(1) [OF q, of b] q show ?case by (auto split: if_splits option.splits)
qed simp

end

text \<open>Reading a record succeeds only where operations are served, and there it asks for one.\<close>

lemma read_ack_serves:
  assumes "read_ack ct tr a why ss = (Inr ack, ss')"
  shows "serves tr a ss" "0 < num_of ct CRUMBS_ACK_READ_ATTEMPTS"
proof -
  from assms show n: "0 < num_of ct CRUMBS_ACK_READ_ATTEMPTS"
    by (cases "num_of ct CRUMBS_ACK_READ_ATTEMPTS") (simp_all add: read_ack_def)
  then obtain m where "num_of ct CRUMBS_ACK_READ_ATTEMPTS = Suc m" by (auto simp: gr0_conv_Suc)
  with assms show "serves tr a ss"
    by (auto simp: read_ack_def query_read_def serves_def session_is_open_def not_open_def Let_def split: if_splits)
qed

lemma read_ack_asks:
  assumes "read_ack ct (traced tr) a why ss = (r, ss')" "serves (traced tr) a ss" "0 < num_of ct CRUMBS_ACK_READ_ATTEMPTS"
  obtains es where "snd (s_transport ss') = snd (s_transport ss) @ es" "asks_ack ct a es"
    and "s_options ss' = s_options ss"
proof -
  obtain es where es: "snd (s_transport ss') = snd (s_transport ss) @ es" "\<forall>e \<in> set es. ack_event ct a e"
    "s_options ss' = s_options ss" by (rule read_ack_traffic [OF assms(1)])
  obtain m where m: "num_of ct CRUMBS_ACK_READ_ATTEMPTS = Suc m" using assms(3) by (auto simp: gr0_conv_Suc)
  from read_ack_loop_asks [OF _ assms(2) es(1)] assms(1) m es that show thesis
    by (auto simp: read_ack_def asks_ack_def)
qed

text \<open>The traffic of rounds: each its writes of the frame, then acknowledgement queries.\<close>

definition round_events :: "u8 \<Rightarrow> raw_frame \<Rightarrow> (nat \<times> bus_event list) list \<Rightarrow> bus_event list" where
  "round_events a frame rs = concat (map (\<lambda>(k, es). replicate k (EvSend a frame) @ es) rs)"

definition rounds_ok :: "contracts \<Rightarrow> u8 \<Rightarrow> int \<Rightarrow> (nat \<times> bus_event list) list \<Rightarrow> bool" where
  "rounds_ok ct a bound rs \<longleftrightarrow> (\<forall>(k, es) \<in> set rs. int k \<le> bound \<and> asks_ack ct a es)"

lemma max_attempts_nonneg [simp]: "0 \<le> max_attempts opts"
  using max_attempts_pos [of opts] by linarith

lemma session_send_attempts:
  assumes "session_send tr a frame ss = (st, ss')"
  shows "st_attempts st \<le> max_attempts (s_options ss)"
  using session_send_cases [OF assms] execute_with_retry_attempts(2)
  by (auto simp: not_io_def)

lemma confirm_loop_traffic:
  assumes "transport_contract tr" "0 < num_of ct CRUMBS_ACK_READ_ATTEMPTS"
  shows "confirm_loop ct (traced tr) a frame op before n why ss = (r, ss') \<Longrightarrow> serves (traced tr) a ss \<Longrightarrow>
     \<exists>rs. snd (s_transport ss') = snd (s_transport ss) @ round_events a frame rs \<and>
       length rs \<le> n \<and> rounds_ok ct a (max_attempts (s_options ss)) rs"
proof (induction n arbitrary: ss)
  case (Suc n)
  note contract = transport_contract.traced_contract [OF assms(1)]
  obtain st ss1 where s: "session_send (traced tr) a frame ss = (st, ss1)" by fastforce
  obtain got ss2 where g: "read_ack ct (traced tr) a why ss1 = (got, ss2)" by fastforce
  have serves: "serves (traced tr) a ss1" "serves (traced tr) a ss2"
    using Suc.prems(2) transport_contract.serves_keeps(2) [OF contract s]
      transport_contract.read_ack_loop_serves [OF contract] g by (auto simp: read_ack_def)
  obtain es where es: "snd (s_transport ss2) = snd (s_transport ss1) @ es"
    "asks_ack ct a es" "s_options ss2 = s_options ss1"
    by (rule read_ack_asks [OF g serves(1) assms(2)])
  let ?k = "nat (st_attempts st)"
  have k: "int ?k \<le> max_attempts (s_options ss)"
    using session_send_attempts [OF s] max_attempts_pos [of "s_options ss"] by linarith
  have tr: "snd (s_transport ss2) = snd (s_transport ss) @ replicate ?k (EvSend a frame) @ es"
    using es(1) session_send_traffic [OF s] by simp
  consider (stop) "ss' = ss2" | (again) "confirm_loop ct (traced tr) a frame op before n why ss2 = (r, ss')"
    using Suc.prems(1) s g by (auto simp: Let_def split: sum.splits option.splits)
  then show ?case
  proof cases
    case stop
    with tr k es(2) show ?thesis
      by (intro exI [of _ "[(?k, es)]"]) (simp add: round_events_def rounds_ok_def)
  next
    case again
    from Suc.IH [OF again serves(2)] obtain rs where "snd (s_transport ss') = snd (s_transport ss2) @ round_events a frame rs"
      "length rs \<le> n" "rounds_ok ct a (max_attempts (s_options ss2)) rs" by blast
    with tr k es session_send_options [OF s] show ?thesis
      by (intro exI [of _ "(?k, es) # rs"]) (simp add: round_events_def rounds_ok_def)
  qed
qed (auto intro: exI [of _ "[]"] simp: round_events_def rounds_ok_def)

text \<open>
  C19: the bus traffic of a SET, over any transport that stays open. To a device without acknowledgements it is the writes of
  one session send (at most \<open>retry_count + 1\<close>). To any other device it is acknowledgement queries,
  then at most three rounds, each of them the writes of one session send followed by acknowledgement queries, at least one: the frame is
  always written between two readings of the record. When the baseline cannot be read
  the frame is not written at all and the call fails as unavailable.
\<close>

theorem confirmed_set_traffic:
  assumes "transport_contract tr"
  shows "let a = word_of_int (dev_address d); (r, ss') = transmit_confirmed ct (traced tr) d frame op ss in
   if set_confirmation ct d = Unconfirmed then
     \<exists>k. snd (s_transport ss') = snd (s_transport ss) @ replicate k (EvSend a frame) \<and>
       int k \<le> max_attempts (s_options ss) \<and> (cr_ok r \<longrightarrow> 0 < k)
   else
     \<exists>acks rs. snd (s_transport ss') = snd (s_transport ss) @ acks @ round_events a frame rs \<and>
       (\<forall>e \<in> set acks. ack_event ct a e) \<and> length rs \<le> 3 \<and>
       (\<forall>(k, es) \<in> set rs. int k \<le> max_attempts (s_options ss) \<and> asks_ack ct a acks \<and> asks_ack ct a es) \<and>
       (\<forall>why ss1. read_ack ct (traced tr) a [] ss = (Inl why, ss1) \<longrightarrow>
          rs = [] \<and> \<not> cr_ok r \<and> cr_code r = CODE_UNAVAILABLE)"
proof -
  let ?a = "word_of_int (dev_address d) :: u8"
  note contract = transport_contract.traced_contract [OF assms]
  obtain r ss' where r: "transmit_confirmed ct (traced tr) d frame op ss = (r, ss')" by fastforce
  show ?thesis
  proof (cases "set_confirmation ct d = Unconfirmed")
    case True
    obtain st ss1 where s: "session_send (traced tr) ?a frame ss = (st, ss1)" by fastforce
    from True s r have "ss' = ss1" "cr_ok r \<longrightarrow> status_ok st"
      by (auto simp: transmit_confirmed_def Let_def call_error_from_session_def split: if_splits)
    moreover have "status_ok st \<longrightarrow> 1 \<le> st_attempts st"
      using session_send_cases [OF s] execute_with_retry_attempts(1) by (auto simp: not_io_def status_ok_def)
    moreover have "int (nat (st_attempts st)) \<le> max_attempts (s_options ss)"
      using session_send_attempts [OF s] max_attempts_pos [of "s_options ss"] by linarith
    ultimately show ?thesis
      using True session_send_traffic [OF s] unfolding Let_def r prod.case
      by (auto intro!: exI [of _ "nat (st_attempts st)"])
  next
    case False
    obtain got ss1 where g: "read_ack ct (traced tr) ?a [] ss = (got, ss1)" by fastforce
    show ?thesis
    proof (cases got)
      case (Inl why)
      obtain es where "snd (s_transport ss1) = snd (s_transport ss) @ es" "\<forall>e \<in> set es. ack_event ct ?a e"
        by (rule read_ack_traffic [OF g])
      moreover from Inl False g r have "ss' = ss1" "\<not> cr_ok r" "cr_code r = CODE_UNAVAILABLE"
        by (auto simp: transmit_confirmed_def Let_def)
      ultimately show ?thesis unfolding Let_def r prod.case if_not_P [OF False]
        by (intro exI [of _ es] exI [of _ "[]"]) (simp add: round_events_def)
    next
      case (Inr before)
      note ready = read_ack_serves [OF g [unfolded Inr]]
      obtain es where es: "snd (s_transport ss1) = snd (s_transport ss) @ es"
        "asks_ack ct ?a es" "s_options ss1 = s_options ss"
        by (rule read_ack_asks [OF g ready])
      have "serves (traced tr) ?a ss1"
        using ready(1) transport_contract.read_ack_loop_serves [OF contract] g by (auto simp: read_ack_def)
      moreover from Inr False g r have "confirm_loop ct (traced tr) ?a frame op before kConfirmedSends [] ss1 = (r, ss')"
        by (simp add: transmit_confirmed_def Let_def)
      ultimately obtain rs where
        "snd (s_transport ss') = snd (s_transport ss1) @ round_events ?a frame rs"
        "length rs \<le> kConfirmedSends" "rounds_ok ct ?a (max_attempts (s_options ss1)) rs"
        using confirm_loop_traffic [OF assms ready(2)] by blast
      with es g Inr show ?thesis unfolding Let_def r prod.case if_not_P [OF False]
        by (intro exI [of _ es] exI [of _ rs]) (auto simp: rounds_ok_def kConfirmedSends_def asks_ack_def)
    qed
  qed
qed

definition sample_device :: "device_type \<Rightarrow> int \<Rightarrow> inventory_device" where
  "sample_device ty a =
     build_device sample_contracts (\<lambda>_ _. []) (sample_config [])
       \<lparr>pr_address = a, pr_type_id = bread_type_id sample_contracts ty, pr_status = Supported,
        pr_version = \<lparr>crumbs_version = 1600, module_major = 1, module_minor = 0, module_patch = 0\<rparr>,
        pr_profile = make_seeded_capability_profile sample_contracts ty, pr_detail = []\<rparr>
       ty Discovered False ''dev'' []"

lemma sample_device_simps [simp]:
  "dev_address (sample_device ty a) = a" "dev_type (sample_device ty a) = ty"
  "crumbs_version (dev_version (sample_device ty a)) = 1600" "dev_encoders (sample_device ty a)"
  by (simp_all add: sample_device_def)

lemma sample_confirmed: "set_confirmation sample_contracts (sample_device ty a) \<noteq> Unconfirmed"
  by (simp add: set_confirmation_def Let_def)

theorem confirmed_set_traffic_witness:
  "\<exists>acks rs. snd (s_transport (snd (transmit_confirmed sample_contracts
      (traced (canned_transport sample_contracts (\<lambda>_. 0) (\<lambda>_. 0) undefined)) (sample_device Dcmt 20) empty_frame ''op''
      (new_session (s_transport (sample_session sample_dcmt_bus), []) sample_options)))) = acks @ round_events 20 empty_frame rs \<and>
    length rs \<le> 3 \<and> (\<forall>(k, es) \<in> set rs. asks_ack sample_contracts 20 acks \<and> asks_ack sample_contracts 20 es)"
proof -
  let ?tr = "canned_transport sample_contracts (\<lambda>_. 0) (\<lambda>_. 0) undefined"
  let ?ss = "new_session (s_transport (sample_session sample_dcmt_bus), []) sample_options"
  obtain r ss' where r: "transmit_confirmed sample_contracts (traced ?tr) (sample_device Dcmt 20) empty_frame ''op'' ?ss = (r, ss')"
    by fastforce
  have "transport_contract ?tr" by (rule crumbs_tr.transport_contract_axioms)
  from confirmed_set_traffic [OF this, of "sample_device Dcmt 20" sample_contracts empty_frame "''op''" ?ss] sample_confirmed [of Dcmt 20]
  obtain acks rs where "snd (s_transport ss') = snd (s_transport ?ss) @ acks @ round_events (word_of_int 20) empty_frame rs \<and>
      (\<forall>e \<in> set acks. ack_event sample_contracts (word_of_int 20) e) \<and> length rs \<le> 3 \<and>
      (\<forall>(k, es) \<in> set rs. asks_ack sample_contracts (word_of_int 20) acks \<and> asks_ack sample_contracts (word_of_int 20) es)"
    by (simp only: Let_def r prod.case if_False sample_device_simps) blast
  then show ?thesis
    unfolding r by (intro exI [of _ acks] exI [of _ rs]) (auto simp: new_session_def)
qed

subsection \<open>OK means the device counted the frame as applied\<close>

lemma outcome_result_ok:
  "outcome_result ct op after oc = Some r \<Longrightarrow>
     (cr_ok r \<longleftrightarrow> oc = CRUMBS_SET_APPLIED) \<and> (cr_ok r \<longleftrightarrow> cr_code r = CODE_OK)"
  by (cases oc) (auto simp: outcome_result_def refusal_for_def Let_def split: if_splits)

text \<open>Rounds after which the device had still not counted the frame: it was sent, and the record read after it said so.\<close>

inductive not_counted ::
  "contracts \<Rightarrow> 'w transport \<Rightarrow> u8 \<Rightarrow> raw_frame \<Rightarrow> crumbs_ack \<Rightarrow> nat \<Rightarrow> 'w session \<Rightarrow> 'w session \<Rightarrow> bool"
  for ct :: contracts and tr :: "'w transport" and a :: u8 and frame :: raw_frame and before :: crumbs_ack where
  no_round: "not_counted ct tr a frame before 0 ss ss"
| one_more: "session_send tr a frame ss = (st, ss1) \<Longrightarrow> read_ack ct tr a [] ss1 = (Inr after, ss2) \<Longrightarrow>
    crumbs_ack_classify ct before after (fr_opcode frame) = CRUMBS_SET_NOT_ADVANCED \<Longrightarrow>
    not_counted ct tr a frame before n ss2 ss3 \<Longrightarrow> not_counted ct tr a frame before (Suc n) ss ss3"

inductive_simps not_counted_simps:
  "not_counted ct tr a frame before 0 ss ss'" "not_counted ct tr a frame before (Suc n) ss ss'"

text \<open>The frame sent once more, and the record that says it was applied.\<close>

definition applied_by ::
  "contracts \<Rightarrow> 'w transport \<Rightarrow> u8 \<Rightarrow> raw_frame \<Rightarrow> crumbs_ack \<Rightarrow> 'w session \<Rightarrow> 'w session \<Rightarrow> bool" where
  "applied_by ct tr a frame before ss ss' \<longleftrightarrow>
     (\<exists>st ss1 after. session_send tr a frame ss = (st, ss1) \<and> read_ack ct tr a [] ss1 = (Inr after, ss') \<and>
        crumbs_ack_classify ct before after (fr_opcode frame) = CRUMBS_SET_APPLIED)"

lemma confirm_loop_exact:
  "confirm_loop ct tr a frame op before n [] ss = (r, ss') \<Longrightarrow>
     (cr_ok r \<longleftrightarrow> cr_code r = CODE_OK) \<and>
     (cr_ok r \<longleftrightarrow> (\<exists>m < n. \<exists>ss1. not_counted ct tr a frame before m ss ss1 \<and> applied_by ct tr a frame before ss1 ss'))"
proof (induction n arbitrary: ss)
  case (Suc n)
  obtain st ss1 where s: "session_send tr a frame ss = (st, ss1)" by fastforce
  obtain got ss2 where g: "read_ack ct tr a [] ss1 = (got, ss2)" by fastforce
  show ?case
  proof (cases got)
    case (Inl w)
    with Suc.prems s g show ?thesis
      by (auto simp: Ex_less_Suc2 not_counted_simps applied_by_def)
  next
    case (Inr after)
    show ?thesis
    proof (cases "outcome_result ct op after (crumbs_ack_classify ct before after (fr_opcode frame))")
      case None
      then have "crumbs_ack_classify ct before after (fr_opcode frame) = CRUMBS_SET_NOT_ADVANCED"
        by (auto simp: outcome_result_def Let_def split: ack_outcome.splits prod.splits)
      moreover from this have "\<not> applied_by ct tr a frame before ss ss'" by (simp add: applied_by_def s g Inr)
      ultimately show ?thesis
        using Suc.prems Suc.IH [of ss2] s g Inr None by (simp add: Ex_less_Suc2 not_counted_simps) blast
    next
      case (Some r')
      then have "crumbs_ack_classify ct before after (fr_opcode frame) \<noteq> CRUMBS_SET_NOT_ADVANCED"
        by (auto simp: outcome_result_def)
      moreover from Some Suc.prems s g Inr have "r' = r" "ss2 = ss'" by simp_all
      moreover from this have "applied_by ct tr a frame before ss ss' \<longleftrightarrow>
          crumbs_ack_classify ct before after (fr_opcode frame) = CRUMBS_SET_APPLIED"
        by (simp add: applied_by_def s g Inr)
      ultimately show ?thesis
        using outcome_result_ok [OF Some] s g Inr by (auto simp: Ex_less_Suc2 not_counted_simps)
    qed
  qed
qed auto

text \<open>
  C20: a SET to a device with acknowledgements succeeds exactly when a baseline record was read, the frame was then sent
  at most twice without the device counting it, and was sent once more with the record read after it, the last thing
  read, classified against the baseline as applied for the frame's opcode. A
  written frame alone is never reported as success. A result is a success exactly when its
  code is OK.
\<close>

theorem confirmed_set_sound:
  assumes "transmit_confirmed ct tr d frame op ss = (r, ss')" "set_confirmation ct d \<noteq> Unconfirmed"
  shows "(cr_ok r \<longleftrightarrow> cr_code r = CODE_OK) \<and>
    (cr_ok r \<longleftrightarrow> (\<exists>before ss1 n ss2 st ss3 after.
       read_ack ct tr (word_of_int (dev_address d)) [] ss = (Inr before, ss1) \<and>
       n < 3 \<and> not_counted ct tr (word_of_int (dev_address d)) frame before n ss1 ss2 \<and>
       session_send tr (word_of_int (dev_address d)) frame ss2 = (st, ss3) \<and>
       read_ack ct tr (word_of_int (dev_address d)) [] ss3 = (Inr after, ss') \<and>
       crumbs_ack_classify ct before after (fr_opcode frame) = CRUMBS_SET_APPLIED))"
proof -
  let ?a = "word_of_int (dev_address d) :: u8"
  obtain got ss1 where g: "read_ack ct tr ?a [] ss = (got, ss1)" by fastforce
  show ?thesis
  proof (cases got)
    case (Inl w)
    with assms g show ?thesis by (auto simp: transmit_confirmed_def Let_def)
  next
    case (Inr before)
    with assms g have "confirm_loop ct tr ?a frame op before 3 [] ss1 = (r, ss')"
      by (simp add: transmit_confirmed_def Let_def kConfirmedSends_def)
    from confirm_loop_exact [OF this] g Inr show ?thesis unfolding applied_by_def by simp blast
  qed
qed

subsection \<open>Exactly once on the canned bus\<close>

lemma same_outputs_staged [simp]: "same_outputs (staged p x) y = same_outputs x y"
  by (simp add: same_outputs_def staged_def)

lemma staged_simps [simp]:
  "ack_record (staged p x) = ack_record x" "d_drop_count (staged p x) = d_drop_count x"
  "next_outcome ct (staged p x) = next_outcome ct x" "d_ack_read_skip (staged p x) = d_ack_read_skip x"
  "d_ack_read_failures (staged p x) = d_ack_read_failures x" "d_type_id (staged p x) = d_type_id x"
  "d_ack_status (staged p x) = d_ack_status x" "d_ack_counter (staged p x) = d_ack_counter x"
  by (simp_all add: staged_def ack_record_def next_outcome_def)

lemma apply_message_reads [simp]:
  "d_ack_read_skip (apply_message ct m x) = d_ack_read_skip x"
  "d_ack_read_failures (apply_message ct m x) = d_ack_read_failures x"
  by (auto simp: apply_message_def count_write_def Let_def split: prod.splits)

lemma canned_read_ack:
  assumes ok: "codec_ok ct" "ack_ok ct" "opcodes_ok ct" and dev: "has_device ss a x"
    and reads: "d_ack_read_skip x \<le> 0" "d_ack_read_failures x \<le> 0"
  shows "\<exists>ss'. read_ack ct (canned_transport ct sys steady scan) a why ss = (Inr (ack_record x), ss') \<and>
     has_device ss' a (staged (byte_of ct CRUMBS_CMD_GET_ACK) x)"
proof -
  let ?p = "byte_of ct CRUMBS_CMD_GET_ACK"
  let ?payload = "[d_ack_counter x, d_ack_opcode x, d_ack_status x, d_ack_reason x]"
  have "?p \<noteq> byte_of ct RLHT_OP_GET_STATE" "?p \<noteq> byte_of ct DCMT_OP_GET_STATE"
    "?p \<noteq> byte_of ct BREAD_OP_GET_WATCHDOG"
    using ok(3) by (auto simp: opcodes_ok_def shared_opcodes_def)
  then have "reply_payload ct (staged ?p x) = (Inr ?payload, staged ?p x)"
    using reads by (simp add: reply_payload_def Let_def) (simp add: staged_def)
  from canned_session_query [OF ok(1) dev this, of sys steady scan empty_frame] obtain ss' where
    q: "query_read (canned_transport ct sys steady scan) a ?p empty_frame ss =
         (ok_once, \<lparr>fr_type_id = d_type_id x, fr_opcode = ?p, fr_payload = ?payload\<rparr>, ss')"
      "has_device ss' a (staged ?p x)" by blast
  have "crumbs_ack_decode ct (populate_message
      \<lparr>fr_type_id = d_type_id x, fr_opcode = ?p, fr_payload = ?payload\<rparr>) = Some (ack_record x)"
    using ok(2) by (simp add: ack_ok_def populate_message_def ack_record_def)
  moreover obtain n where "num_of ct CRUMBS_ACK_READ_ATTEMPTS = Suc n"
    using ok(2) by (auto simp: ack_ok_def gr0_conv_Suc)
  ultimately show ?thesis using q by (simp add: read_ack_def)
qed

lemma if_related:
  "(b \<Longrightarrow> P x y) \<Longrightarrow> (\<not> b \<Longrightarrow> P x' y') \<Longrightarrow> P (if b then x else x') (if b then y else y')"
  by simp

lemma same_outputs_apply_set:
  assumes "same_outputs x y"
  shows "same_outputs (apply_set ct m x) (apply_set ct m y)"
proof -
  have type: "d_type_id x = d_type_id y" using assms by (simp add: same_outputs_def)
  show ?thesis
    unfolding apply_set_def Let_def type
    by (intro if_related [where P = same_outputs]) (use assms in \<open>simp_all add: same_outputs_def\<close>)
qed

lemma same_outputs_refl [simp]: "same_outputs x x"
  by (simp add: same_outputs_def)

lemma same_outputs_trans: "same_outputs x y \<Longrightarrow> same_outputs y z \<Longrightarrow> same_outputs x z"
  by (simp add: same_outputs_def)

text \<open>The two ways a command frame can go: lost, or counted with the next outcome.\<close>

lemma apply_message_command:
  "is_command m \<Longrightarrow> apply_message ct m x =
     (let dev1 = count_write (m_opcode m) x in
      if 0 < d_drop_count dev1 then dev1\<lparr>d_drop_count := d_drop_count dev1 - 1\<rparr>
      else let (status, reason) = next_outcome ct dev1;
               dev2 = dev1\<lparr>d_next_outcomes := drop 1 (d_next_outcomes dev1),
                           d_ack_opcode := m_opcode m, d_ack_status := status,
                           d_ack_reason := reason, d_ack_counter := d_ack_counter dev1 + 1\<rparr>
           in if status \<noteq> byte_of ct CRUMBS_ACK_APPLIED then dev2 else apply_set ct m dev2)"
  unfolding apply_message_def is_command_def by (rule if_not_P)

lemma apply_message_lost:
  assumes "is_command m" "d_drop_count x = int (Suc k)" "y = apply_message ct m x"
  shows "ack_record y = ack_record x" "next_outcome ct y = next_outcome ct x"
    "d_drop_count y = int k" "same_outputs y x"
proof -
  have y: "y = (count_write (m_opcode m) x)\<lparr>d_drop_count := int k\<rparr>"
    using assms(2) unfolding assms(3) apply_message_command [OF assms(1)] by simp
  show "ack_record y = ack_record x" "next_outcome ct y = next_outcome ct x"
    "d_drop_count y = int k" "same_outputs y x"
    by (simp_all add: y ack_record_def next_outcome_def same_outputs_def)
qed

lemma apply_message_counted:
  assumes "is_command m" "d_drop_count x = 0" "next_outcome ct x = (st, r)" "y = apply_message ct m x"
  shows "ack_record y = \<lparr>ack_counter = d_ack_counter x + 1, ack_opcode = m_opcode m, ack_status = st,
      ack_reason = r\<rparr>"
    and "same_outputs y (if st = byte_of ct CRUMBS_ACK_APPLIED then apply_set ct m x else x)"
proof -
  let ?x = "(count_write (m_opcode m) x)\<lparr>d_next_outcomes := drop 1 (d_next_outcomes x),
      d_ack_opcode := m_opcode m, d_ack_status := st, d_ack_reason := r,
      d_ack_counter := d_ack_counter x + 1\<rparr>"
  have y: "y = (if st \<noteq> byte_of ct CRUMBS_ACK_APPLIED then ?x else apply_set ct m ?x)"
    using assms by (simp add: apply_message_command Let_def)
  then show "ack_record y = \<lparr>ack_counter = d_ack_counter x + 1, ack_opcode = m_opcode m, ack_status = st,
      ack_reason = r\<rparr>"
    by (simp add: ack_record_def)
  have "same_outputs ?x x" by (simp add: same_outputs_def)
  then show "same_outputs y (if st = byte_of ct CRUMBS_ACK_APPLIED then apply_set ct m x else x)"
    using y same_outputs_apply_set by auto
qed

abbreviation ack_statuses :: "contracts \<Rightarrow> u8 set" where
  "ack_statuses ct \<equiv> byte_of ct ` {CRUMBS_ACK_APPLIED, CRUMBS_ACK_REFUSED, CRUMBS_ACK_REJECTED}"

lemma outcome_of_counted:
  assumes "ack_ok ct" "ack_counter after = ack_counter before + 1" "ack_status after \<in> ack_statuses ct"
  shows "\<exists>r. outcome_result ct op after (crumbs_ack_classify ct before after (ack_opcode after)) = Some r \<and>
     (cr_ok r \<longleftrightarrow> ack_status after = byte_of ct CRUMBS_ACK_APPLIED)"
proof -
  have "byte_of ct CRUMBS_ACK_REFUSED \<noteq> byte_of ct CRUMBS_ACK_APPLIED"
    "byte_of ct CRUMBS_ACK_REJECTED \<noteq> byte_of ct CRUMBS_ACK_APPLIED"
    using assms(1) by (auto simp: ack_ok_def)
  then show ?thesis
    using assms by (auto simp: ack_ok_def outcome_result_def split: prod.splits)
qed

lemma ack_not_advanced:
  "ack_ok ct \<Longrightarrow> ack_status ack \<in> ack_statuses ct \<Longrightarrow>
     crumbs_ack_classify ct ack ack op = CRUMBS_SET_NOT_ADVANCED"
  unfolding ack_ok_def by blast

lemma ack_record_sel [simp]:
  "ack_counter (ack_record x) = d_ack_counter x" "ack_status (ack_record x) = d_ack_status x"
  by (simp_all add: ack_record_def)

lemma confirm_loop_canned:
  assumes ok: "codec_ok ct" "ack_ok ct" "opcodes_ok ct"
    and frame: "fr_opcode frame \<noteq> kSetReplyOpcode" "length (fr_payload frame) \<le> 27"
  shows "has_device ss a x \<Longrightarrow> d_ack_read_skip x \<le> 0 \<Longrightarrow> d_ack_read_failures x \<le> 0 \<Longrightarrow>
    d_drop_count x = int k \<Longrightarrow> k < n \<Longrightarrow> (0 < k \<longrightarrow> d_ack_status x \<in> ack_statuses ct) \<Longrightarrow>
    fst (next_outcome ct x) \<in> ack_statuses ct \<Longrightarrow>
    \<exists>r ss' y. confirm_loop ct (canned_transport ct sys steady scan) a frame op (ack_record x) n why ss = (r, ss') \<and>
      has_device ss' a y \<and> d_ack_counter y = d_ack_counter x + 1 \<and>
      (cr_ok r \<longleftrightarrow> fst (next_outcome ct x) = byte_of ct CRUMBS_ACK_APPLIED) \<and>
      same_outputs y (if cr_ok r then apply_set ct (populate_message frame) x else x)"
proof (induction k arbitrary: n ss x)
  let ?m = "populate_message frame" and ?tr = "canned_transport ct sys steady scan"
  have cmd: "is_command ?m" using frame(1) by (simp add: is_command_def populate_message_def)
  case 0
  obtain st r where oc: "next_outcome ct x = (st, r)" by fastforce
  obtain n' where n: "n = Suc n'" using "0.prems"(5) by (cases n) auto
  obtain ss1 where s: "session_send ?tr a frame ss = (ok_once, ss1)"
    "has_device ss1 a (apply_message ct ?m x)"
    using canned_session_send [OF ok(1) "0.prems"(1) frame(2)] by blast
  let ?y = "apply_message ct ?m x"
  have drop: "d_drop_count x = 0" using "0.prems"(4) by simp
  note counted = apply_message_counted [OF cmd drop oc refl]
  have "d_ack_read_skip ?y \<le> 0" "d_ack_read_failures ?y \<le> 0" using "0.prems"(2,3) by simp_all
  from canned_read_ack [OF ok s(2) this, of sys steady scan why] obtain ss2 where
    g: "read_ack ct ?tr a why ss1 = (Inr (ack_record ?y), ss2)"
    "has_device ss2 a (staged (byte_of ct CRUMBS_CMD_GET_ACK) ?y)" by blast
  have op: "ack_opcode (ack_record ?y) = fr_opcode frame" and st: "ack_status (ack_record ?y) = st"
    and counter: "d_ack_counter ?y = d_ack_counter x + 1"
    using counted(1) by (simp_all add: populate_message_def ack_record_def)
  have "\<exists>r. outcome_result ct op (ack_record ?y)
      (crumbs_ack_classify ct (ack_record x) (ack_record ?y) (ack_opcode (ack_record ?y))) = Some r \<and>
      (cr_ok r \<longleftrightarrow> ack_status (ack_record ?y) = byte_of ct CRUMBS_ACK_APPLIED)"
    using "0.prems"(7) oc by (intro outcome_of_counted [OF ok(2)]) (simp_all add: counted(1))
  then obtain r' where r': "outcome_result ct op (ack_record ?y)
      (crumbs_ack_classify ct (ack_record x) (ack_record ?y) (fr_opcode frame)) = Some r'"
      "cr_ok r' \<longleftrightarrow> st = byte_of ct CRUMBS_ACK_APPLIED" by (auto simp only: op st)
  have "confirm_loop ct ?tr a frame op (ack_record x) n why ss = (r', ss2)"
    using s(1) g(1) r'(1) n by simp
  then show ?case
    using g(2) counted(2) oc r'(2) counter
    by (intro exI [of _ r'] exI [of _ ss2] exI [of _ "staged (byte_of ct CRUMBS_CMD_GET_ACK) ?y"]) simp
next
  let ?m = "populate_message frame" and ?tr = "canned_transport ct sys steady scan"
  have cmd: "is_command ?m" using frame(1) by (simp add: is_command_def populate_message_def)
  case (Suc k)
  obtain n' where n: "n = Suc n'" "k < n'" using Suc.prems(5) by (cases n) auto
  let ?y = "apply_message ct ?m x" and ?z = "staged (byte_of ct CRUMBS_CMD_GET_ACK) (apply_message ct ?m x)"
  obtain ss1 where s: "session_send ?tr a frame ss = (ok_once, ss1)" "has_device ss1 a ?y"
    using canned_session_send [OF ok(1) Suc.prems(1) frame(2)] by blast
  note lost = apply_message_lost [OF cmd Suc.prems(4) refl]
  have "d_ack_read_skip ?y \<le> 0" "d_ack_read_failures ?y \<le> 0" using Suc.prems(2,3) by simp_all
  from canned_read_ack [OF ok s(2) this, of sys steady scan why] obtain ss2 where
    g: "read_ack ct ?tr a why ss1 = (Inr (ack_record ?y), ss2)" "has_device ss2 a ?z" by blast
  have z: "d_ack_counter ?z = d_ack_counter x" "d_ack_status ?z = d_ack_status x"
    using lost(1) by (simp_all add: ack_record_def)
  have "crumbs_ack_classify ct (ack_record x) (ack_record x) (fr_opcode frame) = CRUMBS_SET_NOT_ADVANCED"
    using Suc.prems(6) by (intro ack_not_advanced [OF ok(2)]) simp
  then have "confirm_loop ct ?tr a frame op (ack_record x) n why ss =
      confirm_loop ct ?tr a frame op (ack_record ?z) n' why ss2"
    using s(1) g(1) lost(1) n(1) by (simp add: outcome_result_def)
  moreover obtain r ss' y where "confirm_loop ct ?tr a frame op (ack_record ?z) n' why ss2 = (r, ss')"
      "has_device ss' a y" "d_ack_counter y = d_ack_counter ?z + 1"
      "cr_ok r \<longleftrightarrow> fst (next_outcome ct ?z) = byte_of ct CRUMBS_ACK_APPLIED"
      "same_outputs y (if cr_ok r then apply_set ct ?m ?z else ?z)"
  proof -
    have "\<exists>r ss' y. confirm_loop ct ?tr a frame op (ack_record ?z) n' why ss2 = (r, ss') \<and>
      has_device ss' a y \<and> d_ack_counter y = d_ack_counter ?z + 1 \<and>
      (cr_ok r \<longleftrightarrow> fst (next_outcome ct ?z) = byte_of ct CRUMBS_ACK_APPLIED) \<and>
      same_outputs y (if cr_ok r then apply_set ct ?m ?z else ?z)"
      using Suc.prems(2,3,6,7) lost(2,3) z n(2) g(2) by (intro Suc.IH) simp_all
    then show ?thesis using that by blast
  qed
  moreover have "fst (next_outcome ct ?z) = fst (next_outcome ct x)" using lost(2) by simp
  moreover have "same_outputs (if b then apply_set ct ?m ?z else ?z) (if b then apply_set ct ?m x else x)" for b
    using lost(4) same_outputs_apply_set [of ?z x] by simp
  ultimately show ?case
    using z(1) same_outputs_trans by (intro exI [of _ r] exI [of _ ss'] exI [of _ y]) simp
qed

lemma transmit_canned:
  assumes "codec_ok ct" "ack_ok ct" "opcodes_ok ct" "set_confirmation ct d \<noteq> Unconfirmed"
    and "has_device ss (word_of_int (dev_address d)) x" "d_ack_read_skip x \<le> 0" "d_ack_read_failures x \<le> 0"
    and "fr_opcode frame \<noteq> kSetReplyOpcode" "length (fr_payload frame) \<le> 27"
    and "d_drop_count x = int k" "k < 3" "0 < k \<longrightarrow> d_ack_status x \<in> ack_statuses ct"
    and "fst (next_outcome ct x) \<in> ack_statuses ct"
  shows "\<exists>r ss' y. transmit_confirmed ct (canned_transport ct sys steady scan) d frame op ss = (r, ss') \<and>
      has_device ss' (word_of_int (dev_address d)) y \<and> d_ack_counter y = d_ack_counter x + 1 \<and>
      (cr_ok r \<longleftrightarrow> fst (next_outcome ct x) = byte_of ct CRUMBS_ACK_APPLIED) \<and>
      same_outputs y (if cr_ok r then apply_set ct (populate_message frame) x else x)"
proof -
  let ?a = "word_of_int (dev_address d) :: u8" and ?tr = "canned_transport ct sys steady scan"
  let ?x = "staged (byte_of ct CRUMBS_CMD_GET_ACK) x"
  obtain ss1 where g: "read_ack ct ?tr ?a [] ss = (Inr (ack_record x), ss1)" "has_device ss1 ?a ?x"
    using canned_read_ack [OF assms(1-3,5-7)] by blast
  have "\<exists>r ss' y. confirm_loop ct ?tr ?a frame op (ack_record ?x) kConfirmedSends [] ss1 = (r, ss') \<and>
      has_device ss' ?a y \<and> d_ack_counter y = d_ack_counter ?x + 1 \<and>
      (cr_ok r \<longleftrightarrow> fst (next_outcome ct ?x) = byte_of ct CRUMBS_ACK_APPLIED) \<and>
      same_outputs y (if cr_ok r then apply_set ct (populate_message frame) ?x else ?x)"
    using assms(6-) g(2) by (intro confirm_loop_canned assms(1-3)) (simp_all add: kConfirmedSends_def)
  then obtain r ss' y where "confirm_loop ct ?tr ?a frame op (ack_record ?x) kConfirmedSends [] ss1 = (r, ss')"
      "has_device ss' ?a y" "d_ack_counter y = d_ack_counter ?x + 1"
      "cr_ok r \<longleftrightarrow> fst (next_outcome ct ?x) = byte_of ct CRUMBS_ACK_APPLIED"
      "same_outputs y (if cr_ok r then apply_set ct (populate_message frame) ?x else ?x)" by blast
  moreover have "same_outputs (if b then apply_set ct (populate_message frame) ?x else ?x)
      (if b then apply_set ct (populate_message frame) x else x)" for b
    using same_outputs_apply_set [of ?x x] by simp
  moreover have "transmit_confirmed ct ?tr d frame op ss =
      confirm_loop ct ?tr ?a frame op (ack_record ?x) kConfirmedSends [] ss1"
    using g(1) assms(4) by (simp add: transmit_confirmed_def)
  ultimately show ?thesis
    using same_outputs_trans by (intro exI [of _ r] exI [of _ ss'] exI [of _ y]) simp
qed

text \<open>
  C5: on a canned device with an acknowledgement record, of which up to two copies of the frame
  are lost, a confirmed SET has the device act on the frame exactly once: its acknowledgement
  counter moves by one, the call succeeds exactly when the device applied the frame, its outputs
  are then those the frame asks for, and a refused or rejected frame leaves the outputs as they
  were.
\<close>

theorem canned_set_exactly_once:
  assumes "codec_ok ct" "ack_ok ct" "opcodes_ok ct" "set_confirmation ct d \<noteq> Unconfirmed"
    and "has_device ss (word_of_int (dev_address d)) x" "d_ack_read_skip x \<le> 0" "d_ack_read_failures x \<le> 0"
    and "fr_opcode frame \<noteq> kSetReplyOpcode" "length (fr_payload frame) \<le> 27"
    and "d_drop_count x = int k" "k < 3" "0 < k \<longrightarrow> d_ack_status x \<in> ack_statuses ct"
    and "fst (next_outcome ct x) \<in> ack_statuses ct"
  shows "\<exists>r ss' y. transmit_confirmed ct (canned_transport ct sys steady scan) d frame op ss = (r, ss') \<and>
      has_device ss' (word_of_int (dev_address d)) y \<and> d_ack_counter y = d_ack_counter x + 1 \<and>
      (cr_ok r \<longleftrightarrow> fst (next_outcome ct x) = byte_of ct CRUMBS_ACK_APPLIED) \<and>
      same_outputs y (if cr_ok r then apply_set ct (populate_message frame) x else x)"
  using assms by (rule transmit_canned)

text \<open>A DCMT that has acknowledged a command before and loses the next two.\<close>

definition lossy_device :: device_state where
  "lossy_device = new_device\<lparr>d_type_id := 2, d_ack_status := 1, d_drop_count := 2\<rparr>"

abbreviation lossy_session :: "canned_bus crumbs_transport session" where
  "lossy_session \<equiv> sample_session (put_device 20 lossy_device (new_canned_bus ''mock://t''))"

abbreviation mode_frame :: raw_frame where
  "mode_frame \<equiv> \<lparr>fr_type_id = 2, fr_opcode = 3, fr_payload = [1]\<rparr>"

lemma lossy_simps:
  "has_device lossy_session (word_of_int (dev_address (sample_device Dcmt 20))) lossy_device"
  "d_ack_read_skip lossy_device \<le> 0" "d_ack_read_failures lossy_device \<le> 0"
  "d_drop_count lossy_device = int 2" "d_ack_status lossy_device = 1" "d_ack_counter lossy_device = 0"
  "next_outcome sample_contracts lossy_device = (1, 0)" "d_type_id lossy_device = 2"
  by (simp_all add: placed_defs lossy_device_def new_device_def next_outcome_def)

theorem canned_set_exactly_once_witness:
  "\<exists>r ss' y. transmit_confirmed sample_contracts
      (canned_transport sample_contracts (\<lambda>_. 0) (\<lambda>_. 0) undefined) (sample_device Dcmt 20)
      \<lparr>fr_type_id = 2, fr_opcode = 3, fr_payload = [1]\<rparr> ''op''
      (sample_session (put_device 20 lossy_device (new_canned_bus ''mock://t''))) = (r, ss') \<and>
    has_device ss' 20 y \<and> d_ack_counter y = 1 \<and> cr_ok r \<and> d_dcmt_mode y = 1"
proof -
  have "\<exists>r ss' y. transmit_confirmed sample_contracts
      (canned_transport sample_contracts (\<lambda>_. 0) (\<lambda>_. 0) undefined) (sample_device Dcmt 20)
      mode_frame ''op'' lossy_session = (r, ss') \<and>
    has_device ss' (word_of_int (dev_address (sample_device Dcmt 20))) y \<and>
    d_ack_counter y = d_ack_counter lossy_device + 1 \<and>
    (cr_ok r \<longleftrightarrow> fst (next_outcome sample_contracts lossy_device) =
      byte_of sample_contracts CRUMBS_ACK_APPLIED) \<and>
    same_outputs y (if cr_ok r then apply_set sample_contracts (populate_message mode_frame) lossy_device else lossy_device)"
    by (rule canned_set_exactly_once [OF sample_codec_ok sample_ack_ok sample_opcodes_ok
          sample_confirmed lossy_simps(1-3) _ _ lossy_simps(4)])
       (simp_all add: lossy_simps kSetReplyOpcode_def)
  then show ?thesis
    by (auto simp: lossy_simps apply_set_def populate_message_def same_outputs_def)
qed

theorem confirmed_set_sound_witness:
  "\<exists>r ss' before ss1 n ss2 st ss3 after.
     let tr = canned_transport sample_contracts (\<lambda>_. 0) (\<lambda>_. 0) undefined in
     transmit_confirmed sample_contracts tr (sample_device Dcmt 20) mode_frame ''op'' lossy_session = (r, ss') \<and>
     cr_ok r \<and> cr_code r = CODE_OK \<and> read_ack sample_contracts tr 20 [] lossy_session = (Inr before, ss1) \<and> n < 3 \<and>
     not_counted sample_contracts tr 20 mode_frame before n ss1 ss2 \<and>
     session_send tr 20 mode_frame ss2 = (st, ss3) \<and> read_ack sample_contracts tr 20 [] ss3 = (Inr after, ss') \<and>
     crumbs_ack_classify sample_contracts before after 3 = CRUMBS_SET_APPLIED"
proof -
  let ?tr = "canned_transport sample_contracts (\<lambda>_. 0) (\<lambda>_. 0) undefined"
  obtain r ss' where r: "transmit_confirmed sample_contracts ?tr (sample_device Dcmt 20) mode_frame ''op'' lossy_session = (r, ss')"
    by fastforce
  have "\<exists>r ss' y. transmit_confirmed sample_contracts ?tr (sample_device Dcmt 20) mode_frame ''op'' lossy_session = (r, ss') \<and>
    has_device ss' (word_of_int (dev_address (sample_device Dcmt 20))) y \<and>
    d_ack_counter y = d_ack_counter lossy_device + 1 \<and>
    (cr_ok r \<longleftrightarrow> fst (next_outcome sample_contracts lossy_device) = byte_of sample_contracts CRUMBS_ACK_APPLIED) \<and>
    same_outputs y (if cr_ok r then apply_set sample_contracts (populate_message mode_frame) lossy_device else lossy_device)"
    by (rule transmit_canned [OF sample_codec_ok sample_ack_ok sample_opcodes_ok
          sample_confirmed lossy_simps(1-3) _ _ lossy_simps(4)])
       (simp_all add: lossy_simps kSetReplyOpcode_def)
  then have ok: "cr_ok r" by (auto simp: r lossy_simps)
  from confirmed_set_sound [OF r sample_confirmed] ok obtain before ss1 n ss2 st ss3 after where
    "read_ack sample_contracts ?tr 20 [] lossy_session = (Inr before, ss1)" "n < 3"
    "not_counted sample_contracts ?tr 20 mode_frame before n ss1 ss2" "session_send ?tr 20 mode_frame ss2 = (st, ss3)"
    "read_ack sample_contracts ?tr 20 [] ss3 = (Inr after, ss')"
    "crumbs_ack_classify sample_contracts before after (fr_opcode mode_frame) = CRUMBS_SET_APPLIED" "cr_code r = CODE_OK"
    by (simp only: sample_device_simps of_int_numeral) blast
  with r ok show ?thesis unfolding Let_def
    by (intro exI [of _ r] exI [of _ ss'] exI [of _ before] exI [of _ ss1] exI [of _ n] exI [of _ ss2] exI [of _ st]
        exI [of _ ss3] exI [of _ after]) simp
qed

end
