(* ===== verification/Rlht_Adapter.thy ===== *)
theory Rlht_Adapter
  imports Set_Confirm
begin

text \<open>
  \<open>src/devices/rlht/rlht_adapter\<close>: reading the RLHT's state as signals, and validating and
  encoding its control calls. Each \<open>case\<close> of \<open>build_frame\<close>'s \<open>switch\<close> is a definition, which
  returns the error, or the opcode and payload written to the frame; every caller passes a
  default-constructed frame.
\<close>

subsection \<open>Signals\<close>

record rlht_state =
  rl_mode :: u8
  rl_flags :: u8
  rl_t1_dc :: i16
  rl_t2_dc :: i16
  rl_sp1_dc :: i16
  rl_sp2_dc :: i16
  rl_period1 :: u16
  rl_period2 :: u16
  rl_on1 :: u16
  rl_on2 :: u16
  rl_tc1 :: u8
  rl_tc2 :: u8
  rl_estop_count :: u8

definition rlht_parse_state :: "contracts \<Rightarrow> bytes \<Rightarrow> rlht_state option" where
  "rlht_parse_state ct payload =
     (if UINT8_MAX < length payload then None
      else case rlht_parse_state_payload ct payload of
        None \<Rightarrow> None
      | Some raw \<Rightarrow>
          Some \<lparr>rl_mode = rr_mode raw, rl_flags = rr_flags raw, rl_t1_dc = rr_t1_deci_c raw,
                rl_t2_dc = rr_t2_deci_c raw, rl_sp1_dc = rr_sp1_deci_c raw,
                rl_sp2_dc = rr_sp2_deci_c raw, rl_period1 = rr_period1_ms raw,
                rl_period2 = rr_period2_ms raw, rl_on1 = rr_on1_ms raw, rl_on2 = rr_on2_ms raw,
                rl_tc1 = rr_tc1 raw, rl_tc2 = rr_tc2 raw, rl_estop_count = rr_estop_count raw\<rparr>)"

definition rlht_is_default_signal :: "string \<Rightarrow> bool" where
  "rlht_is_default_signal sid \<longleftrightarrow> sid \<in> {''t1_c'', ''t2_c'', ''relay1_on'', ''relay2_on''}"

definition rlht_should_include :: "string list \<Rightarrow> string \<Rightarrow> bool" where
  "rlht_should_include ids sid = (if ids = [] then rlht_is_default_signal sid else sid \<in> set ids)"

definition deci_c_signal :: "contracts \<Rightarrow> string \<Rightarrow> i16 \<Rightarrow> signal_value" where
  "deci_c_signal ct sid v =
     (if \<not> bread_is_valid_i16 ct v then make_signal_value sid (make_double_val (DFin 0)) QUALITY_FAULT
      else make_signal_value sid (make_double_val (int_div_10 (sint v))) QUALITY_OK)"

definition thermocouple_signal :: "string \<Rightarrow> u8 \<Rightarrow> signal_value" where
  "thermocouple_signal sid select =
     (if unat select < kRlhtThermocoupleMin \<or> kRlhtThermocoupleMax < unat select
      then make_signal_value sid (make_uint64_val (unat select)) QUALITY_FAULT
      else make_signal_value sid (make_uint64_val (unat select)) QUALITY_OK)"

text \<open>The candidate signals in the order they are pushed, each under its own \<open>should_include\<close>.\<close>

definition rlht_signal_values :: "contracts \<Rightarrow> bool \<Rightarrow> rlht_state \<Rightarrow> signal_value list" where
  "rlht_signal_values ct has_estop_count s =
     [make_signal_value ''mode''
        (make_string_val (if rl_mode s = byte_of ct RLHT_MODE_OPEN_LOOP then ''open_loop'' else ''closed_loop''))
        QUALITY_OK,
      deci_c_signal ct ''t1_c'' (rl_t1_dc s), deci_c_signal ct ''t2_c'' (rl_t2_dc s),
      deci_c_signal ct ''setpoint1_c'' (rl_sp1_dc s), deci_c_signal ct ''setpoint2_c'' (rl_sp2_dc s),
      make_signal_value ''period1_ms'' (make_uint64_val (unat (rl_period1 s))) QUALITY_OK,
      make_signal_value ''period2_ms'' (make_uint64_val (unat (rl_period2 s))) QUALITY_OK,
      make_signal_value ''on1_ms'' (make_uint64_val (unat (rl_on1 s))) QUALITY_OK,
      make_signal_value ''on2_ms'' (make_uint64_val (unat (rl_on2 s))) QUALITY_OK,
      thermocouple_signal ''channel1_thermocouple'' (rl_tc1 s),
      thermocouple_signal ''channel2_thermocouple'' (rl_tc2 s),
      make_signal_value ''relay1_on''
        (make_bool_val (rl_flags s AND byte_of ct RLHT_FLAG_RELAY1_ON \<noteq> 0)) QUALITY_OK,
      make_signal_value ''relay2_on''
        (make_bool_val (rl_flags s AND byte_of ct RLHT_FLAG_RELAY2_ON \<noteq> 0)) QUALITY_OK,
      make_signal_value ''estop''
        (make_bool_val (rl_flags s AND byte_of ct RLHT_FLAG_ESTOP \<noteq> 0)) QUALITY_OK] @
     (if has_estop_count
      then [make_signal_value ''estop_count'' (make_uint64_val (unat (rl_estop_count s))) QUALITY_OK]
      else [])"

definition rlht_read_signals ::
  "contracts \<Rightarrow> 'w transport \<Rightarrow> inventory_device \<Rightarrow> string list \<Rightarrow> 'w session \<Rightarrow>
   adapter_read_result \<times> 'w session" where
  "rlht_read_signals ct tr d ids ss =
     (let a = word_of_int (dev_address d);
          (st, frame, ss1) = query_read tr a (byte_of ct RLHT_OP_GET_STATE) empty_frame ss
      in if \<not> status_ok st then (read_error_from_session st ''RLHT GET_STATE'', ss1)
         else if fr_type_id frame \<noteq> byte_of ct RLHT_TYPE_ID \<or>
                 fr_opcode frame \<noteq> byte_of ct RLHT_OP_GET_STATE then
           (read_error CODE_INTERNAL ''unexpected RLHT GET_STATE frame header'', record_rejection a ss1)
         else case rlht_parse_state ct (fr_payload frame) of
           None \<Rightarrow>
             (read_error CODE_INTERNAL ''RLHT GET_STATE payload too short or malformed'',
              record_rejection a ss1)
         | Some s \<Rightarrow>
             let has_estop_count = has_flag (cp_flags (dev_profile d)) (cap_of ct RLHT_CAP_ESTOP_COUNT) in
             if has_estop_count \<and> length (fr_payload frame) \<le> num_of ct RLHT_STATE_OFF_ESTOP_COUNT then
               (read_error CODE_INTERNAL
                  ''RLHT GET_STATE payload lacks estop_count although the device advertises it'',
                record_rejection a ss1)
             else
               (read_values (filter (\<lambda>v. rlht_should_include ids (sv_id v))
                  (rlht_signal_values ct has_estop_count s)), ss1))"

subsection \<open>Control calls\<close>

definition frame_of :: "u8 \<Rightarrow> u8 \<Rightarrow> bytes \<Rightarrow> raw_frame" where
  "frame_of ty p payload = \<lparr>fr_type_id = ty, fr_opcode = p, fr_payload = payload\<rparr>"

definition quoted :: "string \<Rightarrow> string" where
  "quoted t = [CHR 0x27] @ t @ [CHR 0x27]"

definition rlht_set_mode :: "contracts \<Rightarrow> value_map \<Rightarrow> adapter_call_result + u8 \<times> bytes" where
  [encode_defs]: "rlht_set_mode ct args =
     (case get_arg_string args ''mode'' of
        None \<Rightarrow> Inl (call_error CODE_INVALID_ARGUMENT ''missing or invalid arg: mode (string)'')
      | Some mode \<Rightarrow>
          if mode \<noteq> ''closed_loop'' \<and> mode \<noteq> ''open_loop'' then
            Inl (call_error CODE_INVALID_ARGUMENT
              (''mode must be '' @ quoted ''closed_loop'' @ '' or '' @ quoted ''open_loop''))
          else
            Inr (byte_of ct RLHT_OP_SET_MODE,
              [if mode = ''open_loop'' then byte_of ct RLHT_MODE_OPEN_LOOP
               else byte_of ct RLHT_MODE_CLOSED_LOOP]))"

definition rlht_set_setpoints :: "contracts \<Rightarrow> value_map \<Rightarrow> adapter_call_result + u8 \<times> bytes" where
  [encode_defs]: "rlht_set_setpoints ct args =
     (case get_arg_double args ''setpoint1_c'' of
        None \<Rightarrow> Inl (call_error CODE_INVALID_ARGUMENT ''missing or invalid arg: setpoint1_c (double)'')
      | Some sp1 \<Rightarrow>
      case get_arg_double args ''setpoint2_c'' of
        None \<Rightarrow> Inl (call_error CODE_INVALID_ARGUMENT ''missing or invalid arg: setpoint2_c (double)'')
      | Some sp2 \<Rightarrow>
          if \<not> isfinite sp1 \<or> \<not> isfinite sp2 then
            Inl (call_error CODE_INVALID_ARGUMENT ''setpoint values must be finite (not NaN or +/-Inf)'')
          else if dbl_lt sp1 kMinSetpointC \<or> dbl_lt kMaxSetpointC sp1 \<or>
                  dbl_lt sp2 kMinSetpointC \<or> dbl_lt kMaxSetpointC sp2 then
            Inl (call_error CODE_OUT_OF_RANGE ''setpoint values must be in [-3276.8, 3276.7] C'')
          else
            let sp1_deci = llround (dbl_times_10 sp1); sp2_deci = llround (dbl_times_10 sp2) in
            if sp1_deci < INT16_MIN \<or> INT16_MAX < sp1_deci \<or> sp2_deci < INT16_MIN \<or> INT16_MAX < sp2_deci then
              Inl (call_error CODE_INVALID_ARGUMENT ''setpoint conversion out of int16 range'')
            else
              Inr (byte_of ct RLHT_OP_SET_SETPOINTS,
                   le_bytes (word_of_int sp1_deci) @ le_bytes (word_of_int sp2_deci)))"

text \<open>The unsigned arguments with the given names, \<open>None\<close> unless all are there.\<close>

definition get_args_uint64 :: "value_map \<Rightarrow> string list \<Rightarrow> nat list option" where
  "get_args_uint64 args keys =
     (if \<forall>k \<in> set keys. get_arg_uint64 args k \<noteq> None
      then Some (map (\<lambda>k. the (get_arg_uint64 args k)) keys) else None)"

definition rlht_set_pid :: "contracts \<Rightarrow> value_map \<Rightarrow> adapter_call_result + u8 \<times> bytes" where
  [encode_defs]: "rlht_set_pid ct args =
     (case get_args_uint64 args
             [''kp1_x10'', ''ki1_x10'', ''kd1_x10'', ''kp2_x10'', ''ki2_x10'', ''kd2_x10''] of
        None \<Rightarrow>
          Inl (call_error CODE_INVALID_ARGUMENT
            ''missing or invalid PID gain args (kp1/ki1/kd1/kp2/ki2/kd2_x10, all uint64)'')
      | Some gains \<Rightarrow>
          if \<exists>g \<in> set gains. 255 < g then
            Inl (call_error CODE_OUT_OF_RANGE ''PID gain values must be in [0, 255]'')
          else Inr (byte_of ct RLHT_OP_SET_PID, map of_nat gains))"

definition rlht_set_periods :: "contracts \<Rightarrow> value_map \<Rightarrow> adapter_call_result + u8 \<times> bytes" where
  [encode_defs]: "rlht_set_periods ct args =
     (case get_args_uint64 args [''period1_ms'', ''period2_ms''] of
        None \<Rightarrow>
          Inl (call_error CODE_INVALID_ARGUMENT ''missing or invalid args: period1_ms, period2_ms (uint64)'')
      | Some ps \<Rightarrow>
          if \<exists>p \<in> set ps. p < num_of ct RLHT_PERIOD_MIN_MS \<or> num_of ct RLHT_PERIOD_MAX_MS < p then
            Inl (call_error CODE_OUT_OF_RANGE
              (''period values must be in ['' @ nat_to_string (num_of ct RLHT_PERIOD_MIN_MS) @ '', '' @
               nat_to_string (num_of ct RLHT_PERIOD_MAX_MS) @ ''] ms''))
          else Inr (byte_of ct RLHT_OP_SET_PERIODS, concat (map (\<lambda>p. le_bytes (of_nat p)) ps)))"

definition rlht_set_tc_select :: "contracts \<Rightarrow> value_map \<Rightarrow> adapter_call_result + u8 \<times> bytes" where
  [encode_defs]: "rlht_set_tc_select ct args =
     (case get_args_uint64 args [''channel1_thermocouple'', ''channel2_thermocouple''] of
        None \<Rightarrow>
          Inl (call_error CODE_INVALID_ARGUMENT
            ''missing or invalid args: channel1_thermocouple, channel2_thermocouple (uint64)'')
      | Some tcs \<Rightarrow>
          if \<exists>t \<in> set tcs. t < kRlhtThermocoupleMin \<or> kRlhtThermocoupleMax < t then
            Inl (call_error CODE_OUT_OF_RANGE ''thermocouple values must be 1 or 2'')
          else Inr (byte_of ct RLHT_OP_SET_TC_SELECT, map of_nat tcs))"

definition rlht_set_open_duty :: "contracts \<Rightarrow> value_map \<Rightarrow> adapter_call_result + u8 \<times> bytes" where
  [encode_defs]: "rlht_set_open_duty ct args =
     (case get_args_uint64 args [''duty1_pct'', ''duty2_pct''] of
        None \<Rightarrow>
          Inl (call_error CODE_INVALID_ARGUMENT ''missing or invalid args: duty1_pct, duty2_pct (uint64)'')
      | Some ds \<Rightarrow>
          if \<exists>d \<in> set ds. 100 < d then
            Inl (call_error CODE_OUT_OF_RANGE ''duty_pct values must be in [0, 100]'')
          else Inr (byte_of ct RLHT_OP_SET_OPEN_DUTY, map of_nat ds))"

definition rlht_encode :: "contracts \<Rightarrow> u32 \<Rightarrow> value_map \<Rightarrow> adapter_call_result + u8 \<times> bytes" where
  [encode_defs]: "rlht_encode ct fid args =
     (if fid = 1 then rlht_set_mode ct args
      else if fid = 2 then rlht_set_setpoints ct args
      else if fid = 3 then rlht_set_pid ct args
      else if fid = 4 then rlht_set_periods ct args
      else if fid = 5 then rlht_set_tc_select ct args
      else if fid = 6 then rlht_set_open_duty ct args
      else if fid = 7 then Inr (byte_of ct BREAD_OP_CLEAR_WATCHDOG_TRIP, [])
      else Inl (call_error CODE_NOT_FOUND (''unknown RLHT function_id '' @ nat_to_string (unat fid))))"

definition finish_frame :: "u8 \<Rightarrow> adapter_call_result + u8 \<times> bytes \<Rightarrow> adapter_call_result \<times> raw_frame" where
  "finish_frame ty r =
     (case r of Inl e \<Rightarrow> (e, frame_of ty 0 []) | Inr (p, payload) \<Rightarrow> (call_ok ''ok'', frame_of ty p payload))"

definition rlht_build_frame :: "contracts \<Rightarrow> u32 \<Rightarrow> value_map \<Rightarrow> adapter_call_result \<times> raw_frame" where
  "rlht_build_frame ct fid args = finish_frame (byte_of ct RLHT_TYPE_ID) (rlht_encode ct fid args)"

definition rlht_transmit ::
  "contracts \<Rightarrow> 'w transport \<Rightarrow> inventory_device \<Rightarrow> raw_frame \<Rightarrow> 'w session \<Rightarrow>
   adapter_call_result \<times> 'w session" where
  "rlht_transmit ct tr d frame ss = transmit_confirmed ct tr d frame ''RLHT SET command'' ss"

definition rlht_call ::
  "contracts \<Rightarrow> 'w transport \<Rightarrow> inventory_device \<Rightarrow> u32 \<Rightarrow> value_map \<Rightarrow> 'w session \<Rightarrow>
   adapter_call_result \<times> 'w session" where
  "rlht_call ct tr d fid args ss =
     (let (built, frame) = rlht_build_frame ct fid args in
      if \<not> cr_ok built then (built, ss) else rlht_transmit ct tr d frame ss)"

definition rlht_safe_output_steps :: "safe_output_step list" where
  "rlht_safe_output_steps =
     [\<lparr>step_function_id = 2, step_name = ''set_setpoints'',
       step_args = [''setpoint1_c'' \<mapsto> make_double_val (DFin 0), ''setpoint2_c'' \<mapsto> make_double_val (DFin 0)]\<rparr>,
      \<lparr>step_function_id = 1, step_name = ''set_mode'',
       step_args = [''mode'' \<mapsto> make_string_val ''open_loop'']\<rparr>,
      \<lparr>step_function_id = 6, step_name = ''set_open_duty_pct'',
       step_args = [''duty1_pct'' \<mapsto> make_uint64_val 0, ''duty2_pct'' \<mapsto> make_uint64_val 0]\<rparr>]"

subsection \<open>What is published is what the adapter takes\<close>

lemma has_kMin: "kMinSetpointC = int_div_10 (- 32768)" "kMaxSetpointC = int_div_10 32767"
  by (simp_all add: kMinSetpointC_def kMaxSetpointC_def)

text \<open>An argument map satisfies a published argument.\<close>

fun in_range :: "arg_range \<Rightarrow> value \<Rightarrow> bool" where
  "in_range NoRange v = True"
| "in_range (UintRange lo hi) v = (lo \<le> v_uint64 v \<and> v_uint64 v \<le> hi)"
| "in_range (IntRange lo hi) v = (lo \<le> v_int64 v \<and> v_int64 v \<le> hi)"
| "in_range (DoubleRange lo hi) v =
     (isfinite (v_double v) \<and> \<not> dbl_lt (v_double v) lo \<and> \<not> dbl_lt hi (v_double v))"

definition arg_valid :: "value_map \<Rightarrow> arg_spec \<Rightarrow> bool" where
  "arg_valid args a =
     (case args (arg_name a) of
        None \<Rightarrow> \<not> arg_required a
      | Some v \<Rightarrow> v_type v = arg_type a \<and> in_range (arg_range_of a) v \<and>
                 (arg_allowed_values a = [] \<or> v_string v \<in> set (arg_allowed_values a)))"

lemma arg_simps [simp]:
  "arg_name (arg n t d q u) = n" "arg_type (arg n t d q u) = t" "arg_required (arg n t d q u) = q"
  "arg_range_of (arg n t d q u) = NoRange" "arg_allowed_values (arg n t d q u) = []"
  "arg_name (ranged r a) = arg_name a" "arg_type (ranged r a) = arg_type a"
  "arg_required (ranged r a) = arg_required a" "arg_range_of (ranged r a) = r"
  "arg_allowed_values (ranged r a) = arg_allowed_values a"
  "arg_name (allowed vs a) = arg_name a" "arg_type (allowed vs a) = arg_type a"
  "arg_required (allowed vs a) = arg_required a" "arg_range_of (allowed vs a) = arg_range_of a"
  "arg_allowed_values (allowed vs a) = vs"
  by (simp_all add: arg_def ranged_def allowed_def)

lemma arg_valid_uint:
  "arg_valid args (ranged (UintRange lo hi) (arg n VT_UINT64 d True u)) \<longleftrightarrow>
     (\<exists>v. get_arg_uint64 args n = Some v \<and> lo \<le> v \<and> v \<le> hi)"
  by (auto simp: arg_valid_def get_arg_defs split: option.splits)

lemma arg_valid_int:
  "arg_valid args (ranged (IntRange lo' hi') (arg n VT_INT64 d True u)) \<longleftrightarrow>
     (\<exists>v. get_arg_int64 args n = Some v \<and> lo' \<le> v \<and> v \<le> hi')"
  by (auto simp: arg_valid_def get_arg_defs split: option.splits)

lemma arg_valid_double:
  "arg_valid args (ranged (DoubleRange x y) (arg n VT_DOUBLE d True u)) \<longleftrightarrow>
     (\<exists>v. get_arg_double args n = Some v \<and> isfinite v \<and> \<not> dbl_lt v x \<and> \<not> dbl_lt y v)"
  by (auto simp: arg_valid_def get_arg_defs split: option.splits)

lemma arg_valid_bool:
  "arg_valid args (arg n VT_BOOL d True u) \<longleftrightarrow> (\<exists>v. get_arg_bool args n = Some v)"
  by (auto simp: arg_valid_def get_arg_defs split: option.splits)

lemma arg_valid_string:
  "vs \<noteq> [] \<Longrightarrow> arg_valid args (allowed vs (arg n VT_STRING d True u)) \<longleftrightarrow>
     (\<exists>v. get_arg_string args n = Some v \<and> v \<in> set vs)"
  by (auto simp: arg_valid_def get_arg_defs split: option.splits)

lemmas arg_valid_simps = arg_valid_uint arg_valid_int arg_valid_double arg_valid_bool arg_valid_string

definition accepted :: "adapter_call_result + 'a \<Rightarrow> bool" where
  "accepted r \<longleftrightarrow> (\<exists>x. r = Inr x)"

lemma accepted_simps [simp]: "accepted (Inr x)" "\<not> accepted (Inl e)"
  by (simp_all add: accepted_def)

lemma rlht_set_mode_accepts:
  "accepted (rlht_set_mode ct args) \<longleftrightarrow>
     arg_valid args (allowed [''closed_loop'', ''open_loop''] (arg ''mode'' VT_STRING d True u))"
  by (auto simp: arg_valid_simps rlht_set_mode_def split: option.splits)

lemma rlht_set_setpoints_accepts:
  "accepted (rlht_set_setpoints ct args) \<longleftrightarrow>
     (\<forall>n \<in> {''setpoint1_c'', ''setpoint2_c''}. \<exists>v. get_arg_double args n = Some v \<and> isfinite v \<and>
        \<not> dbl_lt v (int_div_10 (- 32768)) \<and> \<not> dbl_lt (int_div_10 32767) v)"
proof -
  have range: "- 32768 \<le> llround (dbl_times_10 v) \<and> llround (dbl_times_10 v) \<le> 32767"
    if "isfinite v" "\<not> dbl_lt v (int_div_10 (- 32768))" "\<not> dbl_lt (int_div_10 32767) v" for v
    using llround_times_10_bounds [OF that] by simp
  show ?thesis
    by (auto simp: rlht_set_setpoints_def has_kMin Let_def not_less
        split: option.splits dest: range)
qed

lemma accepted_uint_args:
  "accepted (case get_args_uint64 args keys of None \<Rightarrow> Inl e
     | Some vs \<Rightarrow> if \<exists>v \<in> set vs. Q v then Inl e' else Inr (f vs)) \<longleftrightarrow>
   (\<forall>k \<in> set keys. \<exists>v. get_arg_uint64 args k = Some v \<and> \<not> Q v)"
proof (cases "\<forall>k \<in> set keys. get_arg_uint64 args k \<noteq> None")
  case True
  then have "get_args_uint64 args keys = Some (map (\<lambda>k. the (get_arg_uint64 args k)) keys)"
    by (simp add: get_args_uint64_def)
  moreover have "(\<exists>v. get_arg_uint64 args k = Some v \<and> \<not> Q v) \<longleftrightarrow> \<not> Q (the (get_arg_uint64 args k))"
    if "k \<in> set keys" for k using True that by auto
  ultimately show ?thesis by simp
next
  case False
  then have "get_args_uint64 args keys = None" by (simp add: get_args_uint64_def)
  with False show ?thesis by force
qed

lemmas rlht_uint_defs = rlht_set_pid_def rlht_set_periods_def rlht_set_tc_select_def
  rlht_set_open_duty_def

lemma rlht_accepts_published:
  assumes "f \<in> set (rlht_functions ct flags)"
  shows "accepted (rlht_encode ct (fn_id f) args) \<longleftrightarrow> (\<forall>a \<in> set (fn_args f). arg_valid args a)"
proof -
  have mode: "accepted (rlht_encode ct 1 args) \<longleftrightarrow>
      arg_valid args (allowed [''closed_loop'', ''open_loop''] (arg ''mode'' VT_STRING d True u))" for d u
    by (simp add: rlht_encode_def rlht_set_mode_accepts)
  have setpoints: "accepted (rlht_encode ct 2 args) \<longleftrightarrow>
      arg_valid args (ranged (DoubleRange (int_div_10 (- 32768)) (int_div_10 32767))
        (arg ''setpoint1_c'' VT_DOUBLE d True u)) \<and>
      arg_valid args (ranged (DoubleRange (int_div_10 (- 32768)) (int_div_10 32767))
        (arg ''setpoint2_c'' VT_DOUBLE d' True u))" for d d' u
    by (simp add: rlht_encode_def rlht_set_setpoints_accepts arg_valid_double)
  have uints: "accepted (rlht_encode ct 3 args) \<longleftrightarrow>
      (\<forall>k \<in> {''kp1_x10'', ''ki1_x10'', ''kd1_x10'', ''kp2_x10'', ''ki2_x10'', ''kd2_x10''}.
        \<exists>v. get_arg_uint64 args k = Some v \<and> v \<le> 255)"
    "accepted (rlht_encode ct 4 args) \<longleftrightarrow>
      (\<forall>k \<in> {''period1_ms'', ''period2_ms''}. \<exists>v. get_arg_uint64 args k = Some v \<and>
        num_of ct RLHT_PERIOD_MIN_MS \<le> v \<and> v \<le> num_of ct RLHT_PERIOD_MAX_MS)"
    "accepted (rlht_encode ct 5 args) \<longleftrightarrow>
      (\<forall>k \<in> {''channel1_thermocouple'', ''channel2_thermocouple''}. \<exists>v. get_arg_uint64 args k = Some v \<and>
        kRlhtThermocoupleMin \<le> v \<and> v \<le> kRlhtThermocoupleMax)"
    "accepted (rlht_encode ct 6 args) \<longleftrightarrow>
      (\<forall>k \<in> {''duty1_pct'', ''duty2_pct''}. \<exists>v. get_arg_uint64 args k = Some v \<and> v \<le> 100)"
    by (simp_all add: rlht_encode_def rlht_uint_defs accepted_uint_args not_less)
  have clear: "accepted (rlht_encode ct 7 args)" by (simp add: rlht_encode_def)
  have "\<forall>f \<in> set (rlht_functions ct flags).
      accepted (rlht_encode ct (fn_id f) args) \<longleftrightarrow> (\<forall>a \<in> set (fn_args f). arg_valid args a)"
    unfolding rlht_functions_def set_append ball_Un
    by (intro conjI ball_if) (simp_all add: mode setpoints uints clear arg_valid_uint)
  with assms show ?thesis by blast
qed

lemma finish_frame_ok [simp]: "cr_ok (fst (finish_frame ty r)) \<longleftrightarrow> accepted r" if "\<And>e. r = Inl e \<Longrightarrow> \<not> cr_ok e"
  using that by (cases r) (auto simp: finish_frame_def)

lemma rlht_encode_errors: "rlht_encode ct fid args = Inl e \<Longrightarrow> \<not> cr_ok e"
  by (auto simp: encode_defs Let_def split: if_splits option.splits)

lemma rlht_build_frame_ok: "cr_ok (fst (rlht_build_frame ct fid args)) \<longleftrightarrow> accepted (rlht_encode ct fid args)"
  using rlht_encode_errors by (simp add: rlht_build_frame_def)

text \<open>
  C17: for every function an RLHT publishes, whatever its flags, \<open>build_frame\<close> accepts an argument
  map exactly when the map satisfies every published argument: present, of the published type,
  within the published range, among the published values. An id outside the table is not found.
\<close>

theorem rlht_calls_match_capabilities:
  "(\<forall>f \<in> set (rlht_functions ct flags).
      cr_ok (fst (rlht_build_frame ct (fn_id f) args)) \<longleftrightarrow> (\<forall>a \<in> set (fn_args f). arg_valid args a)) \<and>
   (fid \<notin> {1, 2, 3, 4, 5, 6, 7} \<longrightarrow>
      cr_code (fst (rlht_build_frame ct fid args)) = CODE_NOT_FOUND)"
  using rlht_accepts_published [of _ ct flags args]
  by (auto simp: rlht_build_frame_ok) (simp add: rlht_build_frame_def rlht_encode_def finish_frame_def)

theorem rlht_calls_match_capabilities_witness:
  "cr_ok (fst (rlht_build_frame sample_contracts 6
     [''duty1_pct'' \<mapsto> make_uint64_val 0, ''duty2_pct'' \<mapsto> make_uint64_val 100]))"
proof -
  let ?args = "[''duty1_pct'' \<mapsto> make_uint64_val 0, ''duty2_pct'' \<mapsto> make_uint64_val 100]"
  let ?f = "function_with 6 ''set_open_duty_pct'' ''Set RLHT open-loop duty percentages.'' CAT_ACTUATE
          [ranged (UintRange 0 100)
             (arg ''duty1_pct'' VT_UINT64 ''Channel 1 duty cycle percentage.'' True ''%''),
           ranged (UintRange 0 100)
             (arg ''duty2_pct'' VT_UINT64 ''Channel 2 duty cycle percentage.'' True ''%'')]"
  have "?f \<in> set (rlht_functions sample_contracts 0x20)"
    by (simp add: rlht_functions_def has_flag_def)
  moreover have "\<forall>a \<in> set (fn_args ?f). arg_valid ?args a"
    by (simp add: arg_valid_uint get_arg_defs)
  ultimately show ?thesis
    using conjunct1 [OF rlht_calls_match_capabilities [of sample_contracts "0x20" ?args]] by fastforce
qed

subsection \<open>Setpoints\<close>

text \<open>
  A setpoint given in tenths of a degree, over the whole range of a 16-bit integer, is
  encoded as exactly that number of tenths, and a device that reports those tenths is read back
  as the very setpoint that was given, unless it is the value reserved for an invalid reading.
\<close>

lemma rlht_setpoint_round_trip:
  assumes "i \<in> {INT16_MIN..INT16_MAX}" "j \<in> {INT16_MIN..INT16_MAX}"
    and "get_arg_double args ''setpoint1_c'' = Some (int_div_10 i)"
    and "get_arg_double args ''setpoint2_c'' = Some (int_div_10 j)"
  shows "rlht_build_frame ct 2 args =
      (call_ok ''ok'', frame_of (byte_of ct RLHT_TYPE_ID) (byte_of ct RLHT_OP_SET_SETPOINTS)
         (le_bytes (word_of_int i) @ le_bytes (word_of_int j))) \<and>
    (bread_is_valid_i16 ct (word_of_int i) \<longrightarrow> deci_c_signal ct sid (word_of_int i) =
       make_signal_value sid (make_double_val (int_div_10 i)) QUALITY_OK)"
proof -
  have limits: "isfinite (int_div_10 k) \<and> \<not> dbl_lt (int_div_10 k) kMinSetpointC \<and>
      \<not> dbl_lt kMaxSetpointC (int_div_10 k) \<and> llround (dbl_times_10 (int_div_10 k)) = k"
    if "k \<in> {INT16_MIN..INT16_MAX}" for k
    using that int_div_10_finite [of k] int_div_10_mono [of "- 32768" k] int_div_10_mono [of k 32767]
      deci_round_trip [of k] by (simp add: has_kMin abs_le_iff)
  have "rlht_set_setpoints ct args =
      Inr (byte_of ct RLHT_OP_SET_SETPOINTS, le_bytes (word_of_int i) @ le_bytes (word_of_int j))"
    using assms limits [OF assms(1)] limits [OF assms(2)] by (simp add: rlht_set_setpoints_def)
  moreover have "sint (word_of_int i :: i16) = i" using assms(1) by (intro sint_word_of_int_16) auto
  ultimately show ?thesis
    by (simp add: rlht_build_frame_def rlht_encode_def finish_frame_def deci_c_signal_def)
qed

subsection \<open>Reading signals\<close>

definition typed_value :: "signal_value \<Rightarrow> string \<times> value_type" where
  "typed_value v = (sv_id v, v_type (sv_value v))"

definition typed_spec :: "signal_spec \<Rightarrow> string \<times> value_type" where
  "typed_spec s = (sig_id s, sig_type s)"

lemma signal_simps [simp]: "sig_id (signal i d t u) = i" "sig_type (signal i d t u) = t"
  by (simp_all add: signal_def)

lemma typed_value_simps [simp]:
  "typed_value (make_signal_value i v q) = (i, v_type v)"
  "typed_value (deci_c_signal ct i x) = (i, VT_DOUBLE)"
  "typed_value (thermocouple_signal i t) = (i, VT_UINT64)"
  by (simp_all add: typed_value_def deci_c_signal_def thermocouple_signal_def)

lemma rlht_values_match_specs:
  "map typed_value (rlht_signal_values ct (has_flag flags (cap_of ct RLHT_CAP_ESTOP_COUNT)) s) =
     map typed_spec (rlht_signals ct flags)"
  by (simp add: rlht_signal_values_def rlht_signals_def typed_spec_def)

lemma map_filter_typed:
  assumes "map typed_value vs = ts"
  shows "map typed_value (filter (\<lambda>v. P (sv_id v)) vs) = filter (\<lambda>(i, t). P i) ts"
  using assms by (auto simp: filter_map comp_def typed_value_def)

lemma rlht_wanted:
  "rlht_should_include ids i \<longleftrightarrow> i \<in> set (if ids = [] then [''t1_c'', ''t2_c'', ''relay1_on'', ''relay2_on''] else ids)"
  by (simp add: rlht_should_include_def rlht_is_default_signal_def)


text \<open>What a canned RLHT reports, read through the whole stack.\<close>

definition canned_rlht_state :: "contracts \<Rightarrow> device_state \<Rightarrow> rlht_state" where
  "canned_rlht_state ct x =
     (let f1 = (if 0 < d_rlht_on1_ms x then byte_of ct RLHT_FLAG_RELAY1_ON else 0);
          tc = (d_rlht_tc1 x AND 3) OR push_bit 2 (d_rlht_tc2 x AND 3)
      in \<lparr>rl_mode = d_rlht_mode x,
          rl_flags = (if 0 < d_rlht_on2_ms x then f1 OR byte_of ct RLHT_FLAG_RELAY2_ON else f1),
          rl_t1_dc = 250, rl_t2_dc = 255, rl_sp1_dc = d_rlht_sp1_deci_c x,
          rl_sp2_dc = d_rlht_sp2_deci_c x, rl_period1 = d_rlht_period1_ms x,
          rl_period2 = d_rlht_period2_ms x, rl_on1 = d_rlht_on1_ms x, rl_on2 = d_rlht_on2_ms x,
          rl_tc1 = tc AND 3, rl_tc2 = drop_bit 2 tc AND 3, rl_estop_count = 0\<rparr>)"

lemma canned_rlht_parse:
  assumes "parsers_ok ct"
  shows "rlht_parse_state ct (build_rlht_state_payload ct x) = Some (canned_rlht_state ct x)"
proof -
  have "length (build_rlht_state_payload ct x) \<le> UINT8_MAX" by simp
  moreover have "\<exists>raw. rlht_parse_state_payload ct (build_rlht_state_payload ct x) = Some raw \<and>
      \<lparr>rl_mode = rr_mode raw, rl_flags = rr_flags raw, rl_t1_dc = rr_t1_deci_c raw,
       rl_t2_dc = rr_t2_deci_c raw, rl_sp1_dc = rr_sp1_deci_c raw,
       rl_sp2_dc = rr_sp2_deci_c raw, rl_period1 = rr_period1_ms raw,
       rl_period2 = rr_period2_ms raw, rl_on1 = rr_on1_ms raw, rl_on2 = rr_on2_ms raw,
       rl_tc1 = rr_tc1 raw, rl_tc2 = rr_tc2 raw, rl_estop_count = rr_estop_count raw\<rparr> = canned_rlht_state ct x"
    unfolding build_rlht_state_payload_def Let_def
    using assms [unfolded parsers_ok_def] by (simp only: canned_rlht_state_def Let_def) simp
  ultimately show ?thesis by (auto simp: rlht_parse_state_def)
qed

lemma canned_rlht_read:
  assumes "codec_ok ct" "parsers_ok ct" "has_device ss (word_of_int (dev_address d)) x"
    and "d_type_id x = byte_of ct RLHT_TYPE_ID"
    and "\<not> has_flag (cp_flags (dev_profile d)) (cap_of ct RLHT_CAP_ESTOP_COUNT)"
  shows "\<exists>ss'. rlht_read_signals ct (canned_transport ct sys steady scan) d ids ss =
     (read_values (filter (\<lambda>v. rlht_should_include ids (sv_id v))
        (rlht_signal_values ct False (canned_rlht_state ct x))), ss')"
proof -
  have "reply_payload ct (staged (byte_of ct RLHT_OP_GET_STATE) x) =
      (Inr (build_rlht_state_payload ct (staged (byte_of ct RLHT_OP_GET_STATE) x)),
       staged (byte_of ct RLHT_OP_GET_STATE) x)"
    using assms(4) by (simp add: reply_payload_def Let_def) (simp add: staged_def)
  from canned_session_query [OF assms(1,3) this, of sys steady scan empty_frame]
  show ?thesis
    using assms(4,5) canned_rlht_parse [OF assms(2), of "staged (byte_of ct RLHT_OP_GET_STATE) x"]
    by (auto simp: rlht_read_signals_def Let_def) (simp add: canned_rlht_state_def staged_def)
qed


end
