(* ===== verification/Dcmt_Adapter.thy ===== *)
theory Dcmt_Adapter
  imports Rlht_Adapter
begin

text \<open>
  \<open>src/devices/dcmt/dcmt_adapter\<close>: reading the DCMT's state as signals, validating and encoding
  its control calls, and the two checks its \<open>transmit\<close> makes before a frame goes out. Conditions
  joined by \<open>&&\<close> are evaluated in order, so the state query is made only when those before it
  hold.
\<close>

subsection \<open>Signals\<close>

record dcmt_state =
  dc_mode :: u8
  dc_target1 :: i16
  dc_target2 :: i16
  dc_value1 :: i16
  dc_value2 :: i16
  dc_brakes :: u8
  dc_estop :: u8
  dc_estop_count :: u8

definition dcmt_parse_state :: "contracts \<Rightarrow> bytes \<Rightarrow> dcmt_state option" where
  "dcmt_parse_state ct payload =
     (if UINT8_MAX < length payload then None
      else case dcmt_parse_state_payload ct payload of
        None \<Rightarrow> None
      | Some raw \<Rightarrow>
          let st = (\<lambda>t1 t2 v1 v2.
                \<lparr>dc_mode = dr_mode raw, dc_target1 = t1, dc_target2 = t2, dc_value1 = v1, dc_value2 = v2,
                 dc_brakes = dr_brakes raw, dc_estop = dr_estop raw, dc_estop_count = dr_estop_count raw\<rparr>);
              valid = bread_is_valid_i16 ct
          in if dr_mode raw = byte_of ct DCMT_MODE_OPEN_LOOP then
               Some (st (dr_m1_pwm raw) (dr_m2_pwm raw) (dr_m1_pwm raw) (dr_m2_pwm raw))
             else if dr_mode raw = byte_of ct DCMT_MODE_CLOSED_POSITION then
               (if \<not> valid (dr_sp1 raw) \<or> \<not> valid (dr_sp2 raw) then None
                else Some (st (dr_sp1 raw) (dr_sp2 raw) (dr_pos1 raw) (dr_pos2 raw)))
             else if dr_mode raw = byte_of ct DCMT_MODE_CLOSED_SPEED then
               (if \<not> valid (dr_sp1 raw) \<or> \<not> valid (dr_sp2 raw) \<or> \<not> valid (dr_spd1 raw) \<or>
                   \<not> valid (dr_spd2 raw) then None
                else Some (st (dr_sp1 raw) (dr_sp2 raw) (dr_spd1 raw) (dr_spd2 raw)))
             else None)"

definition dcmt_mode_to_string :: "contracts \<Rightarrow> u8 \<Rightarrow> string" where
  "dcmt_mode_to_string ct mode =
     (if mode = byte_of ct DCMT_MODE_OPEN_LOOP then ''open_loop''
      else if mode = byte_of ct DCMT_MODE_CLOSED_POSITION then ''closed_position''
      else if mode = byte_of ct DCMT_MODE_CLOSED_SPEED then ''closed_speed''
      else ''unknown'')"

definition dcmt_is_default_signal :: "string \<Rightarrow> bool" where
  "dcmt_is_default_signal sid \<longleftrightarrow>
     sid \<in> {''motor1_value'', ''motor2_value'', ''motor1_brake'', ''motor2_brake''}"

definition dcmt_should_include :: "string list \<Rightarrow> string \<Rightarrow> bool" where
  "dcmt_should_include ids sid = (if ids = [] then dcmt_is_default_signal sid else sid \<in> set ids)"

definition dcmt_signal_values :: "contracts \<Rightarrow> dcmt_state \<Rightarrow> signal_value list" where
  "dcmt_signal_values ct s =
     map (\<lambda>(i, v). make_signal_value i v QUALITY_OK)
       [(''mode'', make_string_val (dcmt_mode_to_string ct (dc_mode s))),
        (''motor1_target'', make_int64_val (sint (dc_target1 s))),
        (''motor2_target'', make_int64_val (sint (dc_target2 s))),
        (''motor1_value'', make_int64_val (sint (dc_value1 s))),
        (''motor2_value'', make_int64_val (sint (dc_value2 s))),
        (''motor1_brake'', make_bool_val (dc_brakes s AND 1 \<noteq> 0)),
        (''motor2_brake'', make_bool_val (dc_brakes s AND 2 \<noteq> 0)),
        (''estop'', make_bool_val (dc_estop s \<noteq> 0)),
        (''estop_count'', make_uint64_val (unat (dc_estop_count s)))]"

definition dcmt_read_signals ::
  "contracts \<Rightarrow> 'w transport \<Rightarrow> inventory_device \<Rightarrow> string list \<Rightarrow> 'w session \<Rightarrow>
   adapter_read_result \<times> 'w session" where
  "dcmt_read_signals ct tr d ids ss =
     (let a = word_of_int (dev_address d);
          (st, frame, ss1) = query_read tr a (byte_of ct DCMT_OP_GET_STATE) empty_frame ss
      in if \<not> status_ok st then (read_error_from_session st ''DCMT GET_STATE'', ss1)
         else if fr_type_id frame \<noteq> byte_of ct DCMT_TYPE_ID \<or>
                 fr_opcode frame \<noteq> byte_of ct DCMT_OP_GET_STATE then
           (read_error CODE_INTERNAL ''unexpected DCMT GET_STATE frame header'', record_rejection a ss1)
         else case dcmt_parse_state ct (fr_payload frame) of
           None \<Rightarrow>
             (read_error CODE_INTERNAL ''DCMT GET_STATE payload too short or malformed'',
              record_rejection a ss1)
         | Some s \<Rightarrow>
             (read_values (filter (\<lambda>v. dcmt_should_include ids (sv_id v)) (dcmt_signal_values ct s)), ss1))"

subsection \<open>Control calls\<close>

definition missing_arg :: "string \<Rightarrow> string \<Rightarrow> adapter_call_result" where
  [encode_defs]: "missing_arg name ty =
     call_error CODE_INVALID_ARGUMENT (''missing or invalid arg: '' @ name @ '' ('' @ ty @ '')'')"

definition dcmt_int_pair ::
  "value_map \<Rightarrow> string \<Rightarrow> string \<Rightarrow> int \<Rightarrow> int \<Rightarrow> string \<Rightarrow> u8 \<Rightarrow> adapter_call_result + u8 \<times> bytes" where
  [encode_defs]: "dcmt_int_pair args n1 n2 lo hi range_text p =
     (case get_arg_int64 args n1 of
        None \<Rightarrow> Inl (missing_arg n1 ''int64'')
      | Some v1 \<Rightarrow>
      case get_arg_int64 args n2 of
        None \<Rightarrow> Inl (missing_arg n2 ''int64'')
      | Some v2 \<Rightarrow>
          if v1 < lo \<or> hi < v1 \<or> v2 < lo \<or> hi < v2 then Inl (call_error CODE_OUT_OF_RANGE range_text)
          else Inr (p, le_bytes (word_of_int v1) @ le_bytes (word_of_int v2)))"

definition dcmt_set_open_loop :: "contracts \<Rightarrow> value_map \<Rightarrow> adapter_call_result + u8 \<times> bytes" where
  [encode_defs]: "dcmt_set_open_loop ct args =
     dcmt_int_pair args ''motor1_pwm'' ''motor2_pwm'' (- 255) 255
       ''motor PWM values must be in [-255, 255]'' (byte_of ct DCMT_OP_SET_OPEN_LOOP)"

definition dcmt_set_setpoint :: "contracts \<Rightarrow> value_map \<Rightarrow> adapter_call_result + u8 \<times> bytes" where
  [encode_defs]: "dcmt_set_setpoint ct args =
     dcmt_int_pair args ''motor1_target'' ''motor2_target'' INT16_MIN INT16_MAX
       ''motor target values must be in [-32768, 32767]'' (byte_of ct DCMT_OP_SET_SETPOINT)"

definition dcmt_set_brake :: "contracts \<Rightarrow> value_map \<Rightarrow> adapter_call_result + u8 \<times> bytes" where
  [encode_defs]: "dcmt_set_brake ct args =
     (case get_arg_bool args ''motor1_brake'' of
        None \<Rightarrow> Inl (missing_arg ''motor1_brake'' ''bool'')
      | Some b1 \<Rightarrow>
      case get_arg_bool args ''motor2_brake'' of
        None \<Rightarrow> Inl (missing_arg ''motor2_brake'' ''bool'')
      | Some b2 \<Rightarrow> Inr (byte_of ct DCMT_OP_SET_BRAKE, [if b1 then 1 else 0, if b2 then 1 else 0]))"

definition dcmt_set_mode :: "contracts \<Rightarrow> value_map \<Rightarrow> adapter_call_result + u8 \<times> bytes" where
  [encode_defs]: "dcmt_set_mode ct args =
     (case get_arg_string args ''mode'' of
        None \<Rightarrow> Inl (missing_arg ''mode'' ''string'')
      | Some mode \<Rightarrow>
          let set = (\<lambda>b. Inr (byte_of ct DCMT_OP_SET_MODE, [byte_of ct b])) in
          if mode = ''open_loop'' then set DCMT_MODE_OPEN_LOOP
          else if mode = ''closed_position'' then set DCMT_MODE_CLOSED_POSITION
          else if mode = ''closed_speed'' then set DCMT_MODE_CLOSED_SPEED
          else Inl (call_error CODE_INVALID_ARGUMENT
            (''mode must be '' @ quoted ''open_loop'' @ '', '' @ quoted ''closed_position'' @ '', or '' @
             quoted ''closed_speed'')))"

definition dcmt_set_gains :: "contracts \<Rightarrow> u32 \<Rightarrow> value_map \<Rightarrow> adapter_call_result + u8 \<times> bytes" where
  [encode_defs]: "dcmt_set_gains ct fid args =
     (case get_args_uint64 args
             [''kp1_x1000'', ''ki1_x1000'', ''kd1_x1000'', ''kp2_x1000'', ''ki2_x1000'', ''kd2_x1000''] of
        None \<Rightarrow>
          Inl (call_error CODE_INVALID_ARGUMENT
            ''missing or invalid PID gain args (kp1/ki1/kd1/kp2/ki2/kd2_x1000, all uint64)'')
      | Some gains \<Rightarrow>
          if \<exists>g \<in> set gains. UINT16_MAX < g then
            Inl (call_error CODE_OUT_OF_RANGE ''PID gain values must be in [0, 65535]'')
          else
            Inr (byte_of ct DCMT_OP_SET_PID,
              dcmt_set_pid_pack ct
                \<lparr>pid_loop = byte_of ct (if fid = 5 then DCMT_PID_LOOP_POSITION else DCMT_PID_LOOP_SPEED),
                 pid_kp1 = of_nat (gains ! 0), pid_ki1 = of_nat (gains ! 1), pid_kd1 = of_nat (gains ! 2),
                 pid_kp2 = of_nat (gains ! 3), pid_ki2 = of_nat (gains ! 4), pid_kd2 = of_nat (gains ! 5)\<rparr>))"

definition dcmt_encode :: "contracts \<Rightarrow> u32 \<Rightarrow> value_map \<Rightarrow> adapter_call_result + u8 \<times> bytes" where
  [encode_defs]: "dcmt_encode ct fid args =
     (if fid = 1 then dcmt_set_open_loop ct args
      else if fid = 2 then dcmt_set_brake ct args
      else if fid = 3 then dcmt_set_mode ct args
      else if fid = 4 then dcmt_set_setpoint ct args
      else if fid = 5 \<or> fid = 7 then dcmt_set_gains ct fid args
      else if fid = 6 then Inr (byte_of ct BREAD_OP_CLEAR_WATCHDOG_TRIP, [])
      else Inl (call_error CODE_NOT_FOUND (''unknown DCMT function_id '' @ nat_to_string (unat fid))))"

definition dcmt_build_frame :: "contracts \<Rightarrow> u32 \<Rightarrow> value_map \<Rightarrow> adapter_call_result \<times> raw_frame" where
  "dcmt_build_frame ct fid args = finish_frame (byte_of ct DCMT_TYPE_ID) (dcmt_encode ct fid args)"

subsection \<open>Transmitting\<close>

definition brake_refusal :: "nat \<Rightarrow> adapter_call_result" where
  "brake_refusal motor =
     (let m = ''motor'' @ nat_to_string motor in
      call_error CODE_FAILED_PRECONDITION
        (m @ '' brake is engaged, so the command would not move it; release it first with set_brake ('' @ m @
         ''_brake: false)''))"

definition braked_motor :: "i16 \<Rightarrow> i16 \<Rightarrow> u8 \<Rightarrow> nat option" where
  "braked_motor command1 command2 brakes =
     (if command1 \<noteq> 0 \<and> brakes AND 1 \<noteq> 0 then Some 1
      else if command2 \<noteq> 0 \<and> brakes AND 2 \<noteq> 0 then Some 2
      else None)"

text \<open>The brake check: the refusal it ends with, if any, and the session after its state query.\<close>

definition brake_check ::
  "contracts \<Rightarrow> 'w transport \<Rightarrow> inventory_device \<Rightarrow> raw_frame \<Rightarrow> 'w session \<Rightarrow>
   adapter_call_result option \<times> 'w session" where
  "brake_check ct tr d frame ss =
     (if fr_opcode frame \<noteq> byte_of ct DCMT_OP_SET_OPEN_LOOP \<and> fr_opcode frame \<noteq> byte_of ct DCMT_OP_SET_SETPOINT
      then (None, ss)
      else case (read_i16_le_at (fr_payload frame) 0, read_i16_le_at (fr_payload frame) 2) of
        (Some command1, Some command2) \<Rightarrow>
          if command1 = 0 \<and> command2 = 0 then (None, ss)
          else
            let (st, sf, ss1) = query_read tr (word_of_int (dev_address d)) (byte_of ct DCMT_OP_GET_STATE)
                                  empty_frame ss
            in if \<not> status_ok st \<or> fr_type_id sf \<noteq> byte_of ct DCMT_TYPE_ID \<or>
                  fr_opcode sf \<noteq> byte_of ct DCMT_OP_GET_STATE then (None, ss1)
               else case dcmt_parse_state ct (fr_payload sf) of
                 None \<Rightarrow> (None, ss1)
               | Some s \<Rightarrow> (map_option brake_refusal (braked_motor command1 command2 (dc_brakes s)), ss1)
      | _ \<Rightarrow> (None, ss))"

definition needs_encoders :: "contracts \<Rightarrow> inventory_device \<Rightarrow> raw_frame \<Rightarrow> bool" where
  "needs_encoders ct d frame \<longleftrightarrow>
     \<not> dev_encoders d \<and> fr_opcode frame = byte_of ct DCMT_OP_SET_MODE \<and> fr_payload frame \<noteq> [] \<and>
     hd (fr_payload frame) \<noteq> byte_of ct DCMT_MODE_OPEN_LOOP"

definition dcmt_transmit ::
  "contracts \<Rightarrow> 'w transport \<Rightarrow> inventory_device \<Rightarrow> raw_frame \<Rightarrow> 'w session \<Rightarrow>
   adapter_call_result \<times> 'w session" where
  "dcmt_transmit ct tr d frame ss =
     (case brake_check ct tr d frame ss of
        (Some refusal, ss1) \<Rightarrow> (refusal, ss1)
      | (None, ss1) \<Rightarrow>
          if needs_encoders ct d frame then
            (call_error CODE_INVALID_ARGUMENT
               ''closed-loop modes need encoders; this device is configured with encoders: false'', ss1)
          else transmit_confirmed ct tr d frame ''DCMT SET command'' ss1)"

definition dcmt_call ::
  "contracts \<Rightarrow> 'w transport \<Rightarrow> inventory_device \<Rightarrow> u32 \<Rightarrow> value_map \<Rightarrow> 'w session \<Rightarrow>
   adapter_call_result \<times> 'w session" where
  "dcmt_call ct tr d fid args ss =
     (let (built, frame) = dcmt_build_frame ct fid args in
      if \<not> cr_ok built then (built, ss) else dcmt_transmit ct tr d frame ss)"

definition dcmt_safe_output_steps :: "safe_output_step list" where
  "dcmt_safe_output_steps =
     [\<lparr>step_function_id = 3, step_name = ''set_mode'',
       step_args = [''mode'' \<mapsto> make_string_val ''open_loop'']\<rparr>,
      \<lparr>step_function_id = 1, step_name = ''set_open_loop'',
       step_args = [''motor1_pwm'' \<mapsto> make_int64_val 0, ''motor2_pwm'' \<mapsto> make_int64_val 0]\<rparr>]"

subsection \<open>What is published is what the adapter takes\<close>

lemma dcmt_int_pair_accepts:
  "accepted (dcmt_int_pair args n1 n2 lo hi t p) \<longleftrightarrow>
     (\<forall>n \<in> {n1, n2}. \<exists>v. get_arg_int64 args n = Some v \<and> lo \<le> v \<and> v \<le> hi)"
  by (auto simp: dcmt_int_pair_def not_less split: option.splits)

lemma dcmt_encode_errors: "dcmt_encode ct fid args = Inl e \<Longrightarrow> \<not> cr_ok e"
  by (auto simp: encode_defs Let_def split: if_splits option.splits)

lemma dcmt_build_frame_ok: "cr_ok (fst (dcmt_build_frame ct fid args)) \<longleftrightarrow> accepted (dcmt_encode ct fid args)"
  using dcmt_encode_errors by (simp add: dcmt_build_frame_def)

text \<open>A published argument with every mode of the family allowed.\<close>

definition any_mode :: "arg_spec \<Rightarrow> arg_spec" where
  "any_mode a =
     (if arg_allowed_values a = [] then a
      else a\<lparr>arg_allowed_values := [''open_loop'', ''closed_position'', ''closed_speed'']\<rparr>)"

lemma any_mode_simps [simp]:
  "any_mode (arg n t d q u) = arg n t d q u" "any_mode (ranged r (arg n t d q u)) = ranged r (arg n t d q u)"
  "vs \<noteq> [] \<Longrightarrow> any_mode (allowed vs a) =
     allowed [''open_loop'', ''closed_position'', ''closed_speed''] a"
  by (simp_all add: any_mode_def) (simp add: allowed_def)

lemma dcmt_gains_published:
  "accepted (dcmt_set_gains ct fid args) \<longleftrightarrow>
     (\<forall>a \<in> set (fn_args (dcmt_pid_function fid name desc)). arg_valid args (any_mode a))"
  by (simp add: dcmt_set_gains_def accepted_uint_args dcmt_pid_function_def arg_valid_uint not_less)

lemma dcmt_accepts_published:
  assumes "f \<in> set (dcmt_functions ct flags)"
  shows "accepted (dcmt_encode ct (fn_id f) args) \<longleftrightarrow> (\<forall>a \<in> set (fn_args f). arg_valid args (any_mode a))"
proof -
  have pwm: "accepted (dcmt_encode ct 1 args) \<longleftrightarrow>
      (\<forall>n \<in> {''motor1_pwm'', ''motor2_pwm''}. \<exists>v. get_arg_int64 args n = Some v \<and> - 255 \<le> v \<and> v \<le> 255)"
    by (simp add: dcmt_encode_def dcmt_set_open_loop_def dcmt_int_pair_accepts)
  have brake: "accepted (dcmt_encode ct 2 args) \<longleftrightarrow>
      (\<forall>n \<in> {''motor1_brake'', ''motor2_brake''}. \<exists>v. get_arg_bool args n = Some v)"
    by (auto simp: dcmt_encode_def dcmt_set_brake_def split: option.splits)
  have mode: "accepted (dcmt_encode ct 3 args) \<longleftrightarrow> (\<exists>v. get_arg_string args ''mode'' = Some v \<and>
      v \<in> {''open_loop'', ''closed_position'', ''closed_speed''})"
    by (auto simp: dcmt_encode_def dcmt_set_mode_def Let_def split: option.splits)
  have target: "accepted (dcmt_encode ct 4 args) \<longleftrightarrow>
      (\<forall>n \<in> {''motor1_target'', ''motor2_target''}. \<exists>v. get_arg_int64 args n = Some v \<and>
         INT16_MIN \<le> v \<and> v \<le> INT16_MAX)"
    by (simp add: dcmt_encode_def dcmt_set_setpoint_def dcmt_int_pair_accepts)
  have gains: "accepted (dcmt_encode ct 5 args) \<longleftrightarrow>
      (\<forall>a \<in> set (fn_args (dcmt_pid_function 5 n d)). arg_valid args (any_mode a))"
    "accepted (dcmt_encode ct 7 args) \<longleftrightarrow>
      (\<forall>a \<in> set (fn_args (dcmt_pid_function 7 n d)). arg_valid args (any_mode a))" for n d
    by (simp_all add: dcmt_encode_def dcmt_gains_published)
  have ids: "fn_id (dcmt_pid_function i n d) = i" for i n d by (simp add: dcmt_pid_function_def)
  have clear: "accepted (dcmt_encode ct 6 args)" by (simp add: dcmt_encode_def)
  have modes: "dcmt_modes ct flags \<noteq> []" by (simp add: dcmt_modes_def)
  have gain_functions: "\<forall>f \<in> set ([dcmt_pid_function 5 n d] @ (if b then [dcmt_pid_function 7 n' d'] else [])).
      accepted (dcmt_encode ct (fn_id f) args) \<longleftrightarrow> (\<forall>a \<in> set (fn_args f). arg_valid args (any_mode a))"
    for n d n' d' b
    using gains by (simp add: ids)
  have "\<forall>f \<in> set (dcmt_functions ct flags).
      accepted (dcmt_encode ct (fn_id f) args) \<longleftrightarrow> (\<forall>a \<in> set (fn_args f). arg_valid args (any_mode a))"
    unfolding dcmt_functions_def set_append [of "if _ then _ else _"] ball_Un
    by (intro conjI ball_if gain_functions)
       (simp_all add: pwm brake mode target clear modes arg_valid_simps)
  with assms show ?thesis by blast
qed

lemma published_mode_args:
  assumes "f \<in> set (dcmt_functions ct flags)" "a \<in> set (fn_args f)"
  shows "set (arg_allowed_values a) \<subseteq> {''open_loop'', ''closed_position'', ''closed_speed''}"
proof -
  have pid: "\<forall>a \<in> set (fn_args (dcmt_pid_function i n d)). arg_allowed_values a = []" for i n d
    by (simp add: dcmt_pid_function_def)
  have modes: "set (dcmt_modes ct flags) \<subseteq> {''open_loop'', ''closed_position'', ''closed_speed''}"
    by (auto simp: dcmt_modes_def)
  have "\<forall>f \<in> set (dcmt_functions ct flags). \<forall>a \<in> set (fn_args f).
      set (arg_allowed_values a) \<subseteq> {''open_loop'', ''closed_position'', ''closed_speed''}"
    unfolding dcmt_functions_def set_append ball_Un
    by (intro conjI ball_if; (simp add: dcmt_modes_def pid; fail)?) (simp_all add: pid modes)
  with assms show ?thesis by blast
qed

lemma arg_valid_any_mode:
  assumes "arg_valid args a" "set (arg_allowed_values a) \<subseteq> {''open_loop'', ''closed_position'', ''closed_speed''}"
  shows "arg_valid args (any_mode a)"
  using assms by (auto simp: any_mode_def arg_valid_def split: option.splits)

text \<open>
  C18: for every function a DCMT publishes, whatever its flags, \<open>build_frame\<close> accepts every argument
  map that satisfies the published arguments, and accepts no map that violates one of them,
  except that it takes each of the three modes where only some are published. An id outside the
  table is not found.
\<close>

theorem dcmt_calls_match_capabilities:
  "(\<forall>f \<in> set (dcmt_functions ct flags).
      ((\<forall>a \<in> set (fn_args f). arg_valid args a) \<longrightarrow> cr_ok (fst (dcmt_build_frame ct (fn_id f) args))) \<and>
      (cr_ok (fst (dcmt_build_frame ct (fn_id f) args)) \<longleftrightarrow>
         (\<forall>a \<in> set (fn_args f). arg_valid args (any_mode a)))) \<and>
   (fid \<notin> {1, 2, 3, 4, 5, 6, 7} \<longrightarrow>
      cr_code (fst (dcmt_build_frame ct fid args)) = CODE_NOT_FOUND)"
proof -
  have "cr_code (fst (dcmt_build_frame ct fid args)) = CODE_NOT_FOUND" if "fid \<notin> {1, 2, 3, 4, 5, 6, 7}"
    using that by (simp add: dcmt_build_frame_def dcmt_encode_def finish_frame_def)
  moreover have "\<forall>a \<in> set (fn_args f). arg_valid args (any_mode a)"
    if "f \<in> set (dcmt_functions ct flags)" "\<forall>a \<in> set (fn_args f). arg_valid args a" for f
    using that published_mode_args arg_valid_any_mode by blast
  ultimately show ?thesis
    using dcmt_accepts_published [of _ ct flags args] by (auto simp: dcmt_build_frame_ok)
qed

theorem dcmt_calls_match_capabilities_witness:
  "cr_ok (fst (dcmt_build_frame sample_contracts 1
     [''motor1_pwm'' \<mapsto> make_int64_val (- 255), ''motor2_pwm'' \<mapsto> make_int64_val 0]))"
proof -
  let ?args = "[''motor1_pwm'' \<mapsto> make_int64_val (- 255), ''motor2_pwm'' \<mapsto> make_int64_val 0]"
  let ?f = "function_with 1 ''set_open_loop'' ''Set DCMT open-loop PWM values.'' CAT_ACTUATE
          [ranged (IntRange (- 255) 255) (arg ''motor1_pwm'' VT_INT64 ''Motor 1 PWM command.'' True []),
           ranged (IntRange (- 255) 255) (arg ''motor2_pwm'' VT_INT64 ''Motor 2 PWM command.'' True [])]"
  have "?f \<in> set (dcmt_functions sample_contracts 1)"
    by (simp add: dcmt_functions_def has_flag_def)
  moreover have "\<forall>a \<in> set (fn_args ?f). arg_valid ?args a"
    by (simp add: arg_valid_int get_arg_defs)
  ultimately show ?thesis
    using conjunct1 [OF dcmt_calls_match_capabilities [of sample_contracts 1 ?args]] by fastforce
qed

subsection \<open>Reading signals\<close>

lemma dcmt_values_match_specs: "map typed_value (dcmt_signal_values ct s) = map typed_spec dcmt_signals"
  by (simp add: dcmt_signal_values_def dcmt_signals_def typed_spec_def)

lemma dcmt_wanted:
  "dcmt_should_include ids i \<longleftrightarrow>
     i \<in> set (if ids = [] then [''motor1_value'', ''motor2_value'', ''motor1_brake'', ''motor2_brake''] else ids)"
  by (simp add: dcmt_should_include_def dcmt_is_default_signal_def)


lemma canned_dcmt_parse:
  assumes "parsers_ok ct" "d_dcmt_mode x = byte_of ct DCMT_MODE_OPEN_LOOP"
  shows "dcmt_parse_state ct (build_dcmt_state_payload ct x) =
    Some \<lparr>dc_mode = d_dcmt_mode x, dc_target1 = d_dcmt_m1_pwm x, dc_target2 = d_dcmt_m2_pwm x,
          dc_value1 = d_dcmt_m1_pwm x, dc_value2 = d_dcmt_m2_pwm x, dc_brakes = 0, dc_estop = 0,
          dc_estop_count = 0\<rparr>"
proof -
  have "dcmt_parse_state_payload ct (build_dcmt_state_payload ct x) =
    Some \<lparr>dr_mode = d_dcmt_mode x, dr_m1_pwm = d_dcmt_m1_pwm x, dr_m2_pwm = d_dcmt_m2_pwm x,
      dr_sp1 = BREAD_INVALID_I16 ct, dr_sp2 = BREAD_INVALID_I16 ct, dr_pos1 = 0, dr_pos2 = 0,
      dr_spd1 = BREAD_INVALID_I16 ct, dr_spd2 = BREAD_INVALID_I16 ct, dr_brakes = 0, dr_estop = 0,
      dr_estop_count = 0\<rparr>"
    unfolding build_dcmt_state_payload_def Let_def
    using assms(1) [unfolded parsers_ok_def] by (simp only: simp_thms)
  then show ?thesis using assms(2) by (simp add: dcmt_parse_state_def)
qed

lemma canned_dcmt_read:
  assumes "codec_ok ct" "parsers_ok ct" "has_device ss (word_of_int (dev_address d)) x"
    and "d_type_id x = byte_of ct DCMT_TYPE_ID" "d_dcmt_mode x = byte_of ct DCMT_MODE_OPEN_LOOP"
    and "labels_distinct ct"
  shows "\<exists>ss'. dcmt_read_signals ct (canned_transport ct sys steady scan) d ids ss =
     (read_values (filter (\<lambda>v. dcmt_should_include ids (sv_id v)) (dcmt_signal_values ct
        \<lparr>dc_mode = d_dcmt_mode x, dc_target1 = d_dcmt_m1_pwm x, dc_target2 = d_dcmt_m2_pwm x,
         dc_value1 = d_dcmt_m1_pwm x, dc_value2 = d_dcmt_m2_pwm x, dc_brakes = 0, dc_estop = 0,
         dc_estop_count = 0\<rparr>)), ss')"
proof -
  let ?p = "byte_of ct DCMT_OP_GET_STATE"
  have "reply_payload ct (staged ?p x) = (Inr (build_dcmt_state_payload ct (staged ?p x)), staged ?p x)"
    using assms(4) labels_distinctD(1) [OF assms(6)]
    by (simp add: reply_payload_def Let_def) (simp add: staged_def)
  from canned_session_query [OF assms(1,3) this, of sys steady scan empty_frame]
  show ?thesis
    using assms(4,5) canned_dcmt_parse [OF assms(2), of "staged ?p x"]
    by (auto simp: dcmt_read_signals_def Let_def staged_def)
qed


subsection \<open>Refused commands stay off the bus\<close>

lemma brake_check_encoder_frame:
  assumes "opcodes_ok ct" "needs_encoders ct d f"
  shows "brake_check ct tr d f ss = (None, ss)"
  using assms(2) opcodes_okD [OF assms(1)] by (simp add: brake_check_def needs_encoders_def)

lemma brake_check_traffic:
  assumes "brake_check ct (traced tr) d f ss = (r, ss')"
  shows "\<exists>es. snd (s_transport ss') = snd (s_transport ss) @ es \<and>
     (\<forall>g. EvSend (word_of_int (dev_address d)) g \<in> set es \<longrightarrow> fr_opcode g = kSetReplyOpcode)"
proof -
  let ?a = "word_of_int (dev_address d) :: u8" and ?p = "byte_of ct DCMT_OP_GET_STATE"
  obtain st sf ss1 where q: "query_read (traced tr) ?a ?p empty_frame ss = (st, sf, ss1)"
    by (metis prod_cases3)
  from query_read_traffic [OF q] obtain bs where
    "set bs \<subseteq> {full_query (s_options ss) ?a ?p, [EvSend ?a (query_frame ?p)]}"
    "snd (s_transport ss1) = snd (s_transport ss) @ concat bs" by blast
  moreover from this(1) have "fr_opcode g = kSetReplyOpcode" if "EvSend ?a g \<in> set (concat bs)" for g
    using that by (auto simp: full_query_def query_frame_def dest!: subsetD)
  moreover have "ss' = ss \<or> ss' = ss1"
    using assms q by (auto simp: brake_check_def Let_def split: if_splits option.splits)
  ultimately show ?thesis by (metis append_Nil2 empty_iff list.set(1))
qed

text \<open>
  C30: a command that the DCMT adapter itself refuses never reaches the bus: a nonzero command for
  a motor whose brake the state just read shows engaged (refused as a failed precondition naming
  the first such motor), and a closed-loop mode for a device configured without encoders. A
  command of zero for both motors is never held back and costs no state query.
\<close>

theorem dcmt_refusals_stay_off_bus:
  assumes "opcodes_ok ct" "dcmt_transmit ct (traced tr) d f ss = (r, ss')" "fr_opcode f \<noteq> kSetReplyOpcode"
  shows "(fst (brake_check ct (traced tr) d f ss) \<noteq> None \<or> needs_encoders ct d f \<longrightarrow>
      \<not> cr_ok r \<and> (\<exists>es. snd (s_transport ss') = snd (s_transport ss) @ es \<and>
         EvSend (word_of_int (dev_address d)) f \<notin> set es)) \<and>
    (fr_payload f = le_bytes 0 @ le_bytes 0 \<and> \<not> needs_encoders ct d f \<longrightarrow>
      dcmt_transmit ct tr' d f ss0 = transmit_confirmed ct tr' d f ''DCMT SET command'' ss0)"
proof -
  obtain b ss1 where b: "brake_check ct (traced tr) d f ss = (b, ss1)" by fastforce
  from brake_check_traffic [OF b] obtain es where es: "snd (s_transport ss1) = snd (s_transport ss) @ es"
    "EvSend (word_of_int (dev_address d)) f \<notin> set es" using assms(3) by blast
  have "\<not> cr_ok m" if "b = Some m" for m
    using that b by (auto simp: brake_check_def brake_refusal_def Let_def
        split: if_splits option.splits prod.splits)
  moreover have "b = None" if "needs_encoders ct d f"
    using brake_check_encoder_frame [OF assms(1) that, of "traced tr" ss] b by simp
  moreover have "brake_check ct tr' d f ss0 = (None, ss0)" if "fr_payload f = le_bytes 0 @ le_bytes 0"
    using that by (simp add: brake_check_def)
  ultimately show ?thesis
    using assms(2) b es by (auto simp: dcmt_transmit_def split: option.splits)
qed

theorem dcmt_refusals_stay_off_bus_witness:
  "\<exists>r ss'. dcmt_transmit sample_contracts (traced (flaky_transport WriteFailed 5))
      ((sample_device Dcmt 20)\<lparr>dev_encoders := False\<rparr>) (frame_of 2 3 [1]) (new_session (2, []) sample_options) =
      (r, ss') \<and> \<not> cr_ok r \<and> EvSend 20 (frame_of 2 3 [1]) \<notin> set (snd (s_transport ss'))"
proof -
  let ?d = "(sample_device Dcmt 20)\<lparr>dev_encoders := False\<rparr>" and ?f = "frame_of 2 3 [1]"
  let ?tr = "traced (flaky_transport WriteFailed 5)" and ?ss = "new_session (2, []) sample_options"
  obtain r ss' where r: "dcmt_transmit sample_contracts ?tr ?d ?f ?ss = (r, ss')" by fastforce
  have "needs_encoders sample_contracts ?d ?f" by (simp add: needs_encoders_def frame_of_def)
  with dcmt_refusals_stay_off_bus [OF sample_opcodes_ok r] show ?thesis
    using r by (auto simp: frame_of_def kSetReplyOpcode_def new_session_def)
qed

end
