(* ===== verification/Device_Adapter.thy ===== *)
theory Device_Adapter
  imports Dcmt_Adapter Rlht_Adapter
begin

text \<open>
  \<open>src/devices/common/device_adapter\<close>: the per-type descriptor of adapter functions, the one
  dispatch on the device type, and \<open>call\<close>, which validates and encodes a function call before it
  touches the hardware. The locale \<open>adapter_contract\<close> is what \<open>call\<close> and its users rely on; both
  descriptors the dispatch can return are shown to keep it.
\<close>

record 'w device_adapter =
  ad_read_signals :: "inventory_device \<Rightarrow> string list \<Rightarrow> 'w session \<Rightarrow> adapter_read_result \<times> 'w session"
  ad_build_frame :: "u32 \<Rightarrow> value_map \<Rightarrow> adapter_call_result \<times> raw_frame"
  ad_transmit :: "inventory_device \<Rightarrow> raw_frame \<Rightarrow> 'w session \<Rightarrow> adapter_call_result \<times> 'w session"
  ad_safe_output_steps :: "safe_output_step list"

definition kRlhtAdapter :: "contracts \<Rightarrow> 'w transport \<Rightarrow> 'w device_adapter" where
  "kRlhtAdapter ct tr =
     \<lparr>ad_read_signals = rlht_read_signals ct tr, ad_build_frame = rlht_build_frame ct,
      ad_transmit = rlht_transmit ct tr, ad_safe_output_steps = rlht_safe_output_steps\<rparr>"

definition kDcmtAdapter :: "contracts \<Rightarrow> 'w transport \<Rightarrow> 'w device_adapter" where
  "kDcmtAdapter ct tr =
     \<lparr>ad_read_signals = dcmt_read_signals ct tr, ad_build_frame = dcmt_build_frame ct,
      ad_transmit = dcmt_transmit ct tr, ad_safe_output_steps = dcmt_safe_output_steps\<rparr>"

text \<open>
  The descriptor for a device of no known family. The switch of \<open>adapter_for\<close> is exhaustive over the closed device
  type, so it is unreachable there; it keeps the control flow of the code total.
\<close>

definition unsupported_device_type :: string where
  "unsupported_device_type = ''unsupported device type''"

definition unknown_read_signals ::
  "inventory_device \<Rightarrow> string list \<Rightarrow> 'w session \<Rightarrow> adapter_read_result \<times> 'w session" where
  "unknown_read_signals d signal_ids ss = (read_error CODE_UNIMPLEMENTED unsupported_device_type, ss)"

definition unknown_build_frame :: "u32 \<Rightarrow> value_map \<Rightarrow> adapter_call_result \<times> raw_frame" where
  "unknown_build_frame fid args = (call_error CODE_UNIMPLEMENTED unsupported_device_type, empty_frame)"

definition unknown_transmit :: "inventory_device \<Rightarrow> raw_frame \<Rightarrow> 'w session \<Rightarrow> adapter_call_result \<times> 'w session" where
  "unknown_transmit d frame ss = (call_error CODE_UNIMPLEMENTED unsupported_device_type, ss)"

definition unknown_safe_output_steps :: "safe_output_step list" where
  "unknown_safe_output_steps = []"

definition kUnknownAdapter :: "'w device_adapter" where
  "kUnknownAdapter =
     \<lparr>ad_read_signals = unknown_read_signals, ad_build_frame = unknown_build_frame,
      ad_transmit = unknown_transmit, ad_safe_output_steps = unknown_safe_output_steps\<rparr>"

fun adapter_for :: "contracts \<Rightarrow> 'w transport \<Rightarrow> device_type \<Rightarrow> 'w device_adapter" where
  "adapter_for ct tr Rlht = kRlhtAdapter ct tr"
| "adapter_for ct tr Dcmt = kDcmtAdapter ct tr"

text \<open>A null session is \<open>None\<close>; the session is returned as the call leaves it.\<close>

definition call_without_session :: adapter_call_result where
  "call_without_session =
     call_error CODE_UNAVAILABLE ''no hardware session (provider not built with hardware support)''"

definition call ::
  "'w device_adapter \<Rightarrow> 'w session option \<Rightarrow> inventory_device \<Rightarrow> u32 \<Rightarrow> value_map \<Rightarrow>
   adapter_call_result \<times> 'w session option" where
  "call ad session d fid args =
     (let (result, frame) = ad_build_frame ad fid args in
      if \<not> cr_ok result then (result, session)
      else case session of
        None \<Rightarrow> (call_without_session, None)
      | Some ss \<Rightarrow> let (r, ss') = ad_transmit ad d frame ss in (r, Some ss'))"

lemma adapter_simps [simp]:
  "ad_read_signals (kRlhtAdapter ct tr) = rlht_read_signals ct tr"
  "ad_build_frame (kRlhtAdapter ct tr) = rlht_build_frame ct"
  "ad_transmit (kRlhtAdapter ct tr) = rlht_transmit ct tr"
  "ad_safe_output_steps (kRlhtAdapter ct tr) = rlht_safe_output_steps"
  "ad_read_signals (kDcmtAdapter ct tr) = dcmt_read_signals ct tr"
  "ad_build_frame (kDcmtAdapter ct tr) = dcmt_build_frame ct"
  "ad_transmit (kDcmtAdapter ct tr) = dcmt_transmit ct tr"
  "ad_safe_output_steps (kDcmtAdapter ct tr) = dcmt_safe_output_steps"
  by (simp_all add: kRlhtAdapter_def kDcmtAdapter_def)

text \<open>The fallback fails safe: no call on it reaches a session, and neither does a read.\<close>

lemma unknown_adapter_fails_safe:
  "call kUnknownAdapter session d fid args = (call_error CODE_UNIMPLEMENTED unsupported_device_type, session)"
  "ad_read_signals kUnknownAdapter d ids ss = (read_error CODE_UNIMPLEMENTED unsupported_device_type, ss)"
  by (simp_all add: call_def kUnknownAdapter_def unknown_build_frame_def unknown_read_signals_def call_error_def)

subsection \<open>What a descriptor promises\<close>

text \<open>
  The packed PID message is a CRUMBS message, so its data fits the 27 byte payload area; a
  documented bound of the contracts' packing helper.
\<close>

definition pid_pack_fits :: "contracts \<Rightarrow> bool" where
  "pid_pack_fits ct \<longleftrightarrow> (\<forall>p. length (dcmt_set_pid_pack ct p) \<le> 27)"

lemma sample_pid_pack_fits: "pid_pack_fits sample_contracts"
  by (simp add: pid_pack_fits_def sample_contracts_def)

text \<open>
  A built frame carries the family's type id, is a command and not the query opcode, and fits a
  CRUMBS payload; a refused call names one of the three argument errors and builds no command; a
  transmitted frame is either refused by the adapter or goes through the confirmed SET, and the
  steps of the safe-output sequence are calls the adapter accepts and transmits.
\<close>

locale adapter_contract =
  fixes ct :: contracts and tr :: "'w transport" and type_id :: u8 and op :: string
    and ad :: "'w device_adapter"
  assumes built_header: "ad_build_frame ad fid args = (r, f) \<Longrightarrow> fr_type_id f = type_id"
    and built_command: "opcodes_ok ct \<Longrightarrow> ad_build_frame ad fid args = (r, f) \<Longrightarrow> cr_ok r \<Longrightarrow>
      fr_opcode f \<noteq> kSetReplyOpcode"
    and built_fits: "pid_pack_fits ct \<Longrightarrow> ad_build_frame ad fid args = (r, f) \<Longrightarrow>
      length (fr_payload f) \<le> 27"
    and build_errors: "ad_build_frame ad fid args = (r, f) \<Longrightarrow> \<not> cr_ok r \<Longrightarrow>
      cr_code r \<in> {CODE_INVALID_ARGUMENT, CODE_OUT_OF_RANGE, CODE_NOT_FOUND}"
    and transmits: "ad_transmit ad d f ss = (r, ss') \<Longrightarrow>
      (\<exists>ss1. (ss1 = ss \<or> (\<exists>st g p. query_read tr (word_of_int (dev_address d)) p empty_frame ss = (st, g, ss1))) \<and>
        ((\<not> cr_ok r \<and> ss' = ss1) \<or> transmit_confirmed ct tr d f op ss1 = (r, ss')))"
    and safe_steps: "step \<in> set (ad_safe_output_steps ad) \<Longrightarrow>
      cr_ok (fst (ad_build_frame ad (step_function_id step) (step_args step)))"
    and safe_transmits: "opcodes_ok ct \<Longrightarrow> step \<in> set (ad_safe_output_steps ad) \<Longrightarrow>
      ad_transmit ad d (snd (ad_build_frame ad (step_function_id step) (step_args step))) ss =
      transmit_confirmed ct tr d (snd (ad_build_frame ad (step_function_id step) (step_args step))) op ss"
begin

lemma call_rejects_before_hardware:
  assumes "call ad session d fid args = (r, session')" "\<not> cr_ok (fst (ad_build_frame ad fid args))"
  shows "session' = session \<and> r = fst (ad_build_frame ad fid args) \<and>
    cr_code r \<in> {CODE_INVALID_ARGUMENT, CODE_OUT_OF_RANGE, CODE_NOT_FOUND}"
proof -
  obtain b f where b: "ad_build_frame ad fid args = (b, f)" by fastforce
  show ?thesis using assms build_errors [OF b] by (simp add: call_def b)
qed

lemma call_accepted:
  assumes "cr_ok (fst (ad_build_frame ad fid args))"
  shows "call ad (Some ss) d fid args =
    map_prod id Some (ad_transmit ad d (snd (ad_build_frame ad fid args)) ss)"
  using assms by (auto simp: call_def split: prod.splits)

lemma call_contract:
  assumes "opcodes_ok ct" "pid_pack_fits ct" "ad_build_frame ad fid args = (b, f)"
    and "call ad session d fid args = (r, session')"
  shows "(if \<not> cr_ok b then r = b \<and> session' = session \<and>
        cr_code r \<in> {CODE_INVALID_ARGUMENT, CODE_OUT_OF_RANGE, CODE_NOT_FOUND}
      else fr_type_id f = type_id \<and> fr_opcode f \<noteq> kSetReplyOpcode \<and> length (fr_payload f) \<le> 27 \<and>
        (case session of None \<Rightarrow> r = call_without_session \<and> session' = None
         | Some _ \<Rightarrow> \<exists>ss'. session' = Some ss' \<and>
             (cr_ok r \<longrightarrow> (\<exists>ss1. transmit_confirmed ct tr d f op ss1 = (r, ss')))))"
proof (cases "cr_ok b")
  case True
  note built = built_header [OF assms(3)] built_command [OF assms(1,3) True] built_fits [OF assms(2,3)]
  show ?thesis
  proof (cases session)
    case (Some ss)
    obtain r1 ss' where t: "ad_transmit ad d f ss = (r1, ss')" by fastforce
    with transmits [OF t] show ?thesis using assms(3,4) True built Some by (auto simp: call_def)
  qed (use assms(3,4) True built in \<open>simp add: call_def\<close>)
qed (use assms(3) call_rejects_before_hardware [OF assms(4)] in auto)

lemma call_safe_step:
  assumes "opcodes_ok ct" "step \<in> set (ad_safe_output_steps ad)"
  shows "call ad (Some ss) d (step_function_id step) (step_args step) = map_prod id Some
    (transmit_confirmed ct tr d (snd (ad_build_frame ad (step_function_id step) (step_args step))) op ss)"
  using call_accepted [OF safe_steps [OF assms(2)]] safe_transmits [OF assms] by simp

end

subsection \<open>Both families keep it\<close>

abbreviation argument_errors :: "status_code set" where
  "argument_errors \<equiv> {CODE_INVALID_ARGUMENT, CODE_OUT_OF_RANGE, CODE_NOT_FOUND}"

lemma finish_frame_laws:
  assumes "finish_frame ty enc = (r, f)"
    and "\<forall>e. enc = Inl e \<longrightarrow> \<not> cr_ok e \<and> cr_code e \<in> argument_errors"
    and "\<forall>p payload. enc = Inr (p, payload) \<longrightarrow> P p \<and> (Q \<longrightarrow> length payload \<le> 27)"
  shows "fr_type_id f = ty" and "cr_ok r \<Longrightarrow> P (fr_opcode f)" and "Q \<Longrightarrow> length (fr_payload f) \<le> 27"
    and "\<not> cr_ok r \<Longrightarrow> cr_code r \<in> argument_errors"
  using assms by (auto simp: finish_frame_def frame_of_def split: sum.splits)

lemma rlht_encode_command:
  assumes "rlht_encode ct fid args = Inr (p, payload)"
  shows "p \<in> byte_of ct ` {RLHT_OP_SET_MODE, RLHT_OP_SET_SETPOINTS, RLHT_OP_SET_PID,
     RLHT_OP_SET_PERIODS, RLHT_OP_SET_TC_SELECT, RLHT_OP_SET_OPEN_DUTY, BREAD_OP_CLEAR_WATCHDOG_TRIP}"
    and "length payload \<le> 27"
  using assms
  by (auto simp: encode_defs get_args_uint64_def Let_def split: if_splits option.splits)

lemma dcmt_encode_command:
  assumes "dcmt_encode ct fid args = Inr (p, payload)"
  shows "p \<in> byte_of ct ` {DCMT_OP_SET_OPEN_LOOP, DCMT_OP_SET_BRAKE, DCMT_OP_SET_MODE,
     DCMT_OP_SET_SETPOINT, DCMT_OP_SET_PID, BREAD_OP_CLEAR_WATCHDOG_TRIP}"
    and "pid_pack_fits ct \<Longrightarrow> length payload \<le> 27"
  using assms
  by (auto simp: encode_defs pid_pack_fits_def Let_def split: if_splits option.splits)

lemma rlht_encode_error_codes: "rlht_encode ct fid args = Inl e \<Longrightarrow> cr_code e \<in> argument_errors"
  by (auto simp: encode_defs Let_def split: if_splits option.splits)

lemma dcmt_encode_error_codes: "dcmt_encode ct fid args = Inl e \<Longrightarrow> cr_code e \<in> argument_errors"
  by (auto simp: encode_defs Let_def split: if_splits option.splits)

lemma shared_commands_not_query: "opcodes_ok ct \<Longrightarrow> byte_of ct BREAD_OP_CLEAR_WATCHDOG_TRIP \<noteq> kSetReplyOpcode"
  using opcodes_okD(5) [of ct] by (auto simp: shared_opcodes_def kSetReplyOpcode_def)

lemma rlht_built:
  assumes "rlht_build_frame ct fid args = (r, f)"
  shows "fr_type_id f = byte_of ct RLHT_TYPE_ID"
    and "opcodes_ok ct \<Longrightarrow> cr_ok r \<Longrightarrow> fr_opcode f \<noteq> kSetReplyOpcode"
    and "length (fr_payload f) \<le> 27" and "\<not> cr_ok r \<Longrightarrow> cr_code r \<in> argument_errors"
proof -
  have "opcodes_ok ct \<longrightarrow> p \<noteq> kSetReplyOpcode" if "rlht_encode ct fid args = Inr (p, payload)" for p payload
    using rlht_encode_command(1) [OF that] opcodes_okD(3) [of ct] shared_commands_not_query [of ct]
    by (auto simp: kSetReplyOpcode_def)
  then show "fr_type_id f = byte_of ct RLHT_TYPE_ID"
    and "opcodes_ok ct \<Longrightarrow> cr_ok r \<Longrightarrow> fr_opcode f \<noteq> kSetReplyOpcode"
    and "length (fr_payload f) \<le> 27" and "\<not> cr_ok r \<Longrightarrow> cr_code r \<in> argument_errors"
    using finish_frame_laws [OF assms [unfolded rlht_build_frame_def],
        of "\<lambda>p. opcodes_ok ct \<longrightarrow> p \<noteq> kSetReplyOpcode" True]
      rlht_encode_errors rlht_encode_error_codes rlht_encode_command(2) by blast+
qed

lemma dcmt_built:
  assumes "dcmt_build_frame ct fid args = (r, f)"
  shows "fr_type_id f = byte_of ct DCMT_TYPE_ID"
    and "opcodes_ok ct \<Longrightarrow> cr_ok r \<Longrightarrow> fr_opcode f \<noteq> kSetReplyOpcode"
    and "pid_pack_fits ct \<Longrightarrow> length (fr_payload f) \<le> 27"
    and "\<not> cr_ok r \<Longrightarrow> cr_code r \<in> argument_errors"
proof -
  have "opcodes_ok ct \<longrightarrow> p \<noteq> kSetReplyOpcode" if "dcmt_encode ct fid args = Inr (p, payload)" for p payload
    using dcmt_encode_command(1) [OF that] opcodes_okD(4) [of ct] shared_commands_not_query [of ct]
    by (auto simp: kSetReplyOpcode_def)
  then show "fr_type_id f = byte_of ct DCMT_TYPE_ID"
    and "opcodes_ok ct \<Longrightarrow> cr_ok r \<Longrightarrow> fr_opcode f \<noteq> kSetReplyOpcode"
    and "pid_pack_fits ct \<Longrightarrow> length (fr_payload f) \<le> 27"
    and "\<not> cr_ok r \<Longrightarrow> cr_code r \<in> argument_errors"
    using finish_frame_laws [OF assms [unfolded dcmt_build_frame_def],
        of "\<lambda>p. opcodes_ok ct \<longrightarrow> p \<noteq> kSetReplyOpcode" "pid_pack_fits ct"]
      dcmt_encode_errors dcmt_encode_error_codes dcmt_encode_command(2) by blast+
qed

lemma dbl_of_zero [simp]: "dbl_of 0 = DFin 0"
  by (simp add: dbl_of_def)

lemma zero_double: "int_div_10 0 = DFin 0"
  by (simp add: int_div_10_def)

lemma round_half_away_zero [simp]: "round_half_away 0 = 0"
  by (rule llround_near) simp

lemma zero_setpoint_in_range [simp]: "\<not> dbl_lt (DFin 0) kMinSetpointC" "\<not> dbl_lt kMaxSetpointC (DFin 0)"
  using int_div_10_mono [of "- 32768" 0] int_div_10_mono [of 0 32767]
  by (simp_all add: has_kMin zero_double)

text \<open>The frames the safe-output steps encode to.\<close>

lemma rlht_safe_built:
  "map (\<lambda>step. rlht_build_frame ct (step_function_id step) (step_args step)) rlht_safe_output_steps =
     map (\<lambda>(p, payload). (call_ok ''ok'', frame_of (byte_of ct RLHT_TYPE_ID) (byte_of ct p) payload))
       [(RLHT_OP_SET_SETPOINTS, [0, 0, 0, 0]), (RLHT_OP_SET_MODE, [byte_of ct RLHT_MODE_OPEN_LOOP]),
        (RLHT_OP_SET_OPEN_DUTY, [0, 0])]"
  by (simp add: rlht_safe_output_steps_def rlht_build_frame_def encode_defs get_arg_defs get_args_uint64_def finish_frame_def
      Let_def le_bytes_def)

lemma dcmt_safe_built:
  "map (\<lambda>step. dcmt_build_frame ct (step_function_id step) (step_args step)) dcmt_safe_output_steps =
     map (\<lambda>(p, payload). (call_ok ''ok'', frame_of (byte_of ct DCMT_TYPE_ID) (byte_of ct p) payload))
       [(DCMT_OP_SET_MODE, [byte_of ct DCMT_MODE_OPEN_LOOP]), (DCMT_OP_SET_OPEN_LOOP, [0, 0, 0, 0])]"
  by (simp add: dcmt_safe_output_steps_def dcmt_build_frame_def encode_defs get_arg_defs finish_frame_def Let_def le_bytes_def)

lemma dcmt_transmit_open_loop:
  assumes "opcodes_ok ct"
  shows "dcmt_transmit ct tr d (frame_of ty (byte_of ct DCMT_OP_SET_MODE) [byte_of ct DCMT_MODE_OPEN_LOOP]) ss =
      transmit_confirmed ct tr d (frame_of ty (byte_of ct DCMT_OP_SET_MODE) [byte_of ct DCMT_MODE_OPEN_LOOP])
        ''DCMT SET command'' ss"
    and "dcmt_transmit ct tr d (frame_of ty (byte_of ct DCMT_OP_SET_OPEN_LOOP) [0, 0, 0, 0]) ss =
      transmit_confirmed ct tr d (frame_of ty (byte_of ct DCMT_OP_SET_OPEN_LOOP) [0, 0, 0, 0])
        ''DCMT SET command'' ss"
  using opcodes_okD(1,2) [OF assms]
  by (simp_all add: dcmt_transmit_def brake_check_def needs_encoders_def frame_of_def
      read_i16_le_at_def read_u16_le_at_def le_value_def)

interpretation rlht_ad: adapter_contract ct tr "byte_of ct RLHT_TYPE_ID" "''RLHT SET command''" "kRlhtAdapter ct tr"
  for ct :: contracts and tr :: "'w transport"
proof (unfold_locales, goal_cases)
  case (1 fid args r f)
  then show ?case using rlht_built by simp
next
  case (2 fid args r f)
  then show ?case using rlht_built by simp
next
  case (3 fid args r f)
  then show ?case using rlht_built by simp
next
  case (4 fid args r f)
  then show ?case using rlht_built by simp
next
  case (5 d f ss r ss')
  then show ?case by (auto simp: rlht_transmit_def)
next
  case (6 step)
  then show ?case using rlht_safe_built [of ct] by (auto simp: rlht_safe_output_steps_def)
next
  case (7 step d ss)
  then show ?case by (simp add: rlht_transmit_def)
qed

lemma brake_check_session:
  assumes "brake_check ct tr d f ss = (b, ss1)"
  shows "ss1 = ss \<or> (\<exists>st g p. query_read tr (word_of_int (dev_address d)) p empty_frame ss = (st, g, ss1))"
    and "b = Some r \<Longrightarrow> \<not> cr_ok r"
  using assms by (auto simp: brake_check_def brake_refusal_def Let_def
      split: if_splits option.splits prod.splits)

interpretation dcmt_ad: adapter_contract ct tr "byte_of ct DCMT_TYPE_ID" "''DCMT SET command''" "kDcmtAdapter ct tr"
  for ct :: contracts and tr :: "'w transport"
proof (unfold_locales, goal_cases)
  case (1 fid args r f)
  then show ?case using dcmt_built by simp
next
  case (2 fid args r f)
  then show ?case using dcmt_built by simp
next
  case (3 fid args r f)
  then show ?case using dcmt_built by simp
next
  case (4 fid args r f)
  then show ?case using dcmt_built by simp
next
  case (5 d f ss r ss')
  obtain b ss1 where b: "brake_check ct tr d f ss = (b, ss1)" by fastforce
  from 5 b have "(\<not> cr_ok r \<and> ss' = ss1) \<or> transmit_confirmed ct tr d f ''DCMT SET command'' ss1 = (r, ss')"
    using brake_check_session(2) [OF b] by (auto simp: dcmt_transmit_def split: option.splits if_splits)
  with brake_check_session(1) [OF b] show ?case by blast
next
  case (6 step)
  then show ?case using dcmt_safe_built [of ct] by (auto simp: dcmt_safe_output_steps_def)
next
  case (7 step d ss)
  then show ?case using dcmt_safe_built [of ct]
    by (auto simp: dcmt_safe_output_steps_def dcmt_transmit_open_loop)
qed

subsection \<open>Calls\<close>

text \<open>
  C13: a function call to any device is validated and encoded before the hardware is touched. A call
  whose arguments are refused returns the encoder's INVALID_ARGUMENT, OUT_OF_RANGE or NOT_FOUND
  and leaves the session as it was, with or without hardware; an accepted call has encoded a
  frame of the device's own type, a command that fits a CRUMBS payload, is UNAVAILABLE without a
  session, and succeeds only as the confirmed SET of exactly that frame.
\<close>

theorem call_validates_first:
  assumes "opcodes_ok ct" "pid_pack_fits ct"
    and "ad_build_frame (adapter_for ct tr (dev_type d)) fid args = (b, f)"
    and "call (adapter_for ct tr (dev_type d)) session d fid args = (r, session')"
  shows "(if \<not> cr_ok b then r = b \<and> session' = session \<and> cr_code r \<in> argument_errors
      else fr_type_id f = bread_type_id ct (dev_type d) \<and> fr_opcode f \<noteq> kSetReplyOpcode \<and>
        length (fr_payload f) \<le> 27 \<and>
        (case session of None \<Rightarrow> r = call_without_session \<and> session' = None
         | Some _ \<Rightarrow> \<exists>ss'. session' = Some ss' \<and>
             (cr_ok r \<longrightarrow> (\<exists>op ss1. transmit_confirmed ct tr d f op ss1 = (r, ss')))))"
proof (cases "dev_type d")
  case Rlht
  with rlht_ad.call_contract [OF assms(1,2), of tr fid args b f session d r session'] assms(3,4)
  show ?thesis by (auto split: if_splits option.splits)
next
  case Dcmt
  with dcmt_ad.call_contract [OF assms(1,2), of tr fid args b f session d r session'] assms(3,4)
  show ?thesis by (auto split: if_splits option.splits)
qed

theorem call_validates_first_witness:
  "call (adapter_for sample_contracts (flaky_transport WriteFailed 5) Dcmt) None (sample_device Dcmt 20) 2
     [''motor1_brake'' \<mapsto> make_bool_val True, ''motor2_brake'' \<mapsto> make_bool_val False] =
     (call_without_session, None)"
proof -
  let ?ad = "adapter_for sample_contracts (flaky_transport WriteFailed 5) (dev_type (sample_device Dcmt 20))"
  let ?args = "[''motor1_brake'' \<mapsto> make_bool_val True, ''motor2_brake'' \<mapsto> make_bool_val False]"
  obtain b f where b: "ad_build_frame ?ad 2 ?args = (b, f)" by fastforce
  moreover obtain r s where c: "call ?ad None (sample_device Dcmt 20) 2 ?args = (r, s)" by fastforce
  moreover have "cr_ok b"
    using b by (auto simp: dcmt_build_frame_def dcmt_encode_def dcmt_set_brake_def get_arg_defs finish_frame_def)
  ultimately show ?thesis
    using call_validates_first [OF sample_opcodes_ok sample_pid_pack_fits b c] by simp
qed

end
