(* ===== verification/Safe_Outputs.thy ===== *)
theory Safe_Outputs
  imports Device_Adapter
begin

text \<open>
  \<open>src/devices/common/safe_outputs\<close>: driving a device's outputs to safe values through its
  adapter, one step after the other, whatever the earlier steps returned.
\<close>

record safe_result =
  so_ok :: bool
  so_failures :: string

definition join_failure :: "string \<Rightarrow> safe_output_step \<Rightarrow> adapter_call_result \<Rightarrow> string" where
  "join_failure failures step sent =
     (if failures \<noteq> [] then failures @ ''; '' else failures) @ step_name step @ '': '' @ cr_message sent"

text \<open>\<open>call\<close> with the session passed by reference.\<close>

definition call_step ::
  "'w device_adapter \<Rightarrow> inventory_device \<Rightarrow> safe_output_step \<Rightarrow> 'w session \<Rightarrow> adapter_call_result \<times> 'w session" where
  "call_step ad d step ss =
     (let (sent, session) = call ad (Some ss) d (step_function_id step) (step_args step)
      in (sent, case session of Some ss' \<Rightarrow> ss' | None \<Rightarrow> ss))"

fun drive_loop ::
  "'w device_adapter \<Rightarrow> inventory_device \<Rightarrow> safe_output_step list \<Rightarrow> safe_result \<Rightarrow> 'w session \<Rightarrow>
   safe_result \<times> 'w session" where
  "drive_loop ad d [] result ss = (result, ss)"
| "drive_loop ad d (step # steps) result ss =
     (let (sent, ss') = call_step ad d step ss;
          result' = (if cr_ok sent then result
                     else \<lparr>so_ok = False, so_failures = join_failure (so_failures result) step sent\<rparr>)
      in drive_loop ad d steps result' ss')"

definition drive ::
  "contracts \<Rightarrow> 'w transport \<Rightarrow> inventory_device \<Rightarrow> 'w session \<Rightarrow> safe_result \<times> 'w session" where
  "drive ct tr d ss =
     (let ad = adapter_for ct tr (dev_type d)
      in drive_loop ad d (ad_safe_output_steps ad) \<lparr>so_ok = True, so_failures = []\<rparr> ss)"

definition to_metric :: "safe_result \<Rightarrow> string" where
  "to_metric result = (if so_ok result then ''set'' else ''not set: '' @ so_failures result)"

subsection \<open>One step on the canned bus\<close>

text \<open>
  A simulated device that receives every frame and whose acknowledgements can be read; its
  injected outcomes are the three the protocol names.
\<close>

definition answers :: "contracts \<Rightarrow> device_state \<Rightarrow> bool" where
  "answers ct x \<longleftrightarrow> d_ack_read_skip x \<le> 0 \<and> d_ack_read_failures x \<le> 0 \<and> d_drop_count x = 0 \<and>
     (\<forall>oc \<in> set (d_next_outcomes x). fst oc \<in> ack_statuses ct)"

definition applies :: "contracts \<Rightarrow> (u8 \<times> u8) list \<Rightarrow> nat \<Rightarrow> bool" where
  "applies ct ocs i \<longleftrightarrow> (i < length ocs \<longrightarrow> fst (ocs ! i) = byte_of ct CRUMBS_ACK_APPLIED)"

lemma apply_set_plumbing [simp]:
  "d_ack_read_skip (apply_set ct m x) = d_ack_read_skip x"
  "d_ack_read_failures (apply_set ct m x) = d_ack_read_failures x"
  "d_drop_count (apply_set ct m x) = d_drop_count x"
  "d_next_outcomes (apply_set ct m x) = d_next_outcomes x"
  "d_type_id (apply_set ct m x) = d_type_id x"
  by (simp_all add: apply_set_def Let_def)

lemma count_write_plumbing [simp]:
  "d_drop_count (count_write p x) = d_drop_count x"
  "d_next_outcomes (count_write p x) = d_next_outcomes x"
  by (simp_all add: count_write_def)

lemma apply_message_plumbing:
  assumes "is_command m" "answers ct x"
  shows "answers ct (apply_message ct m x)" "d_next_outcomes (apply_message ct m x) = drop 1 (d_next_outcomes x)"
proof -
  have "d_drop_count (apply_message ct m x) = 0 \<and>
      d_next_outcomes (apply_message ct m x) = drop 1 (d_next_outcomes x)"
    using assms by (auto simp: apply_message_command answers_def Let_def split: prod.splits)
  then show "answers ct (apply_message ct m x)"
    "d_next_outcomes (apply_message ct m x) = drop 1 (d_next_outcomes x)"
    using assms(2) by (auto simp: answers_def dest: in_set_dropD)
qed

lemma staged_plumbing [simp]:
  "answers ct (staged p x) = answers ct x" "d_next_outcomes (staged p x) = d_next_outcomes x"
  by (simp_all add: answers_def staged_def)

lemma canned_transmit_step:
  assumes ok: "codec_ok ct" "ack_ok ct" "opcodes_ok ct" and confirmed: "set_confirmation ct d \<noteq> Unconfirmed"
    and dev: "has_device ss (word_of_int (dev_address d)) x" "answers ct x"
    and frame: "fr_opcode frame \<noteq> kSetReplyOpcode" "length (fr_payload frame) \<le> 27"
  shows "\<exists>r ss' y. transmit_confirmed ct (canned_transport ct sys steady scan) d frame op ss = (r, ss') \<and>
      has_device ss' (word_of_int (dev_address d)) y \<and> answers ct y \<and>
      d_next_outcomes y = drop 1 (d_next_outcomes x) \<and> (cr_ok r \<longleftrightarrow> applies ct (d_next_outcomes x) 0) \<and>
      same_outputs y (if cr_ok r then apply_set ct (populate_message frame) x else x)"
proof -
  let ?a = "word_of_int (dev_address d) :: u8" and ?tr = "canned_transport ct sys steady scan"
  let ?m = "populate_message frame" and ?x = "staged (byte_of ct CRUMBS_CMD_GET_ACK) x"
  let ?y = "apply_message ct ?m ?x"
  have reads: "d_ack_read_skip x \<le> 0" "d_ack_read_failures x \<le> 0" using dev(2) by (simp_all add: answers_def)
  have cmd: "is_command ?m" using frame(1) by (simp add: is_command_def populate_message_def)
  obtain ss1 where g: "read_ack ct ?tr ?a [] ss = (Inr (ack_record x), ss1)" "has_device ss1 ?a ?x"
    using canned_read_ack [OF ok dev(1) reads] by blast
  obtain ss2 where s: "session_send ?tr ?a frame ss1 = (ok_once, ss2)" "has_device ss2 ?a ?y"
    using canned_session_send [OF ok(1) g(2) frame(2)] by blast
  have drop: "d_drop_count ?x = 0" using dev(2) by (simp add: answers_def)
  obtain st why where oc: "next_outcome ct ?x = (st, why)" by fastforce
  note counted = apply_message_counted [OF cmd drop oc refl]
  have "d_ack_read_skip ?y \<le> 0" "d_ack_read_failures ?y \<le> 0" using reads by simp_all
  from canned_read_ack [OF ok s(2) this, of sys steady scan "[]"] obtain ss3 where
    h: "read_ack ct ?tr ?a [] ss2 = (Inr (ack_record ?y), ss3)"
    "has_device ss3 ?a (staged (byte_of ct CRUMBS_CMD_GET_ACK) ?y)" by blast
  have st: "st \<in> ack_statuses ct" "st = byte_of ct CRUMBS_ACK_APPLIED \<longleftrightarrow> applies ct (d_next_outcomes x) 0"
    using oc dev(2) by (auto simp: next_outcome_def answers_def applies_def split: list.splits)
  have ack: "ack_opcode (ack_record ?y) = fr_opcode frame" "ack_status (ack_record ?y) = st"
    using counted(1) by (simp_all add: populate_message_def ack_record_def)
  have "\<exists>r. outcome_result ct op (ack_record ?y)
      (crumbs_ack_classify ct (ack_record x) (ack_record ?y) (ack_opcode (ack_record ?y))) = Some r \<and>
      (cr_ok r \<longleftrightarrow> ack_status (ack_record ?y) = byte_of ct CRUMBS_ACK_APPLIED)"
    using st(1) by (intro outcome_of_counted [OF ok(2)]) (simp_all add: counted(1))
  then obtain r where r: "outcome_result ct op (ack_record ?y)
      (crumbs_ack_classify ct (ack_record x) (ack_record ?y) (fr_opcode frame)) = Some r"
      "cr_ok r \<longleftrightarrow> applies ct (d_next_outcomes x) 0"
    by (auto simp only: ack st(2))
  have "transmit_confirmed ct ?tr d frame op ss = (r, ss3)"
    using g(1) s(1) h(1) r(1) confirmed by (simp add: transmit_confirmed_def kConfirmedSends_def numeral_3_eq_3)
  moreover have "same_outputs ?y (if cr_ok r then apply_set ct ?m x else x)"
    using counted(2) st(2) r(2) same_outputs_apply_set [of ?x x ct ?m]
    by (auto intro: same_outputs_trans)
  ultimately show ?thesis
    using h(2) r(2) apply_message_plumbing [OF cmd, of ct ?x] dev(2)
    by (intro exI [of _ r] exI [of _ ss3] exI [of _ "staged (byte_of ct CRUMBS_CMD_GET_ACK) ?y"]) simp
qed

subsection \<open>The whole sequence on the canned bus\<close>

text \<open>What is left of a device's outputs when the commands marked are the ones it applies.\<close>

fun run_commands :: "contracts \<Rightarrow> (nat \<Rightarrow> bool) \<Rightarrow> raw_frame list \<Rightarrow> device_state \<Rightarrow> device_state" where
  "run_commands ct ap [] x = x"
| "run_commands ct ap (f # fs) x =
     run_commands ct (\<lambda>i. ap (Suc i)) fs (if ap 0 then apply_set ct (populate_message f) x else x)"

lemma run_commands_same:
  "same_outputs x y \<Longrightarrow> same_outputs (run_commands ct ap fs x) (run_commands ct ap fs y)"
  by (induction fs arbitrary: ap x y) (simp_all add: same_outputs_apply_set)

lemma applies_drop: "applies ct (drop 1 ocs) i = applies ct ocs (Suc i)"
  by (auto simp: applies_def)

lemma drive_loop_canned:
  assumes ok: "codec_ok ct" "ack_ok ct" "opcodes_ok ct" "set_confirmation ct d \<noteq> Unconfirmed"
    and steps: "\<And>step ss. step \<in> set steps \<Longrightarrow> call_step ad d step ss =
      transmit_confirmed ct (canned_transport ct sys steady scan) d (frame step) op ss"
    and frames: "\<And>step. step \<in> set steps \<Longrightarrow> fr_opcode (frame step) \<noteq> kSetReplyOpcode \<and>
      length (fr_payload (frame step)) \<le> 27"
    and dev: "has_device ss (word_of_int (dev_address d)) x" "answers ct x"
  shows "\<exists>res' ss' y. drive_loop ad d steps res ss = (res', ss') \<and>
      has_device ss' (word_of_int (dev_address d)) y \<and>
      (so_ok res' \<longleftrightarrow> so_ok res \<and> (\<forall>i < length steps. applies ct (d_next_outcomes x) i)) \<and>
      same_outputs y (run_commands ct (applies ct (d_next_outcomes x)) (map frame steps) x)"
  using steps frames dev
proof (induction steps arbitrary: res ss x)
  case (Cons step steps)
  let ?a = "word_of_int (dev_address d) :: u8" and ?q = "d_next_outcomes x"
  obtain r ss1 y where s: "transmit_confirmed ct (canned_transport ct sys steady scan) d (frame step) op ss = (r, ss1)"
      "has_device ss1 ?a y" "answers ct y" "d_next_outcomes y = drop 1 ?q" "cr_ok r \<longleftrightarrow> applies ct ?q 0"
      "same_outputs y (if cr_ok r then apply_set ct (populate_message (frame step)) x else x)"
    using canned_transmit_step [OF ok Cons.prems(3,4)] Cons.prems(2) [of step] by fastforce
  define res1 where "res1 = (if cr_ok r then res
    else \<lparr>so_ok = False, so_failures = join_failure (so_failures res) step r\<rparr>)"
  have "drive_loop ad d (step # steps) res ss = drive_loop ad d steps res1 ss1"
    using s(1) Cons.prems(1) [of step] by (simp add: res1_def)
  moreover obtain res' ss' z where "drive_loop ad d steps res1 ss1 = (res', ss')" "has_device ss' ?a z"
      "so_ok res' \<longleftrightarrow> so_ok res1 \<and> (\<forall>i < length steps. applies ct (drop 1 ?q) i)"
      "same_outputs z (run_commands ct (applies ct (drop 1 ?q)) (map frame steps) y)"
    using Cons.IH [OF _ _ s(2,3), of res1] Cons.prems(1,2) s(4) by (metis list.set_intros(2))
  moreover have "so_ok res1 \<longleftrightarrow> so_ok res \<and> applies ct ?q 0" using s(5) by (simp add: res1_def)
  moreover have "applies ct (drop 1 ?q) = (\<lambda>i. applies ct ?q (Suc i))" by (rule ext) (rule applies_drop)
  moreover note run_commands_same [OF s(6)]
  ultimately show ?case
    using s(5) by (intro exI [of _ res'] exI [of _ ss'] exI [of _ z])
      (auto simp: All_less_Suc2 intro: same_outputs_trans)
qed (auto intro: exI [of _ "_ :: device_state"])

lemma call_step_of:
  "call ad (Some ss) d (step_function_id step) (step_args step) = map_prod id Some t \<Longrightarrow>
     call_step ad d step ss = t"
  by (cases t) (simp add: call_step_def)

lemma call_step_rlht:
  assumes "opcodes_ok ct" "step \<in> set rlht_safe_output_steps"
  shows "call_step (kRlhtAdapter ct tr) d step ss = transmit_confirmed ct tr d
     (snd (rlht_build_frame ct (step_function_id step) (step_args step))) ''RLHT SET command'' ss"
  using rlht_ad.call_safe_step [OF assms(1), of step tr ss d] assms(2)
  by (intro call_step_of) simp

lemma call_step_dcmt:
  assumes "opcodes_ok ct" "step \<in> set dcmt_safe_output_steps"
  shows "call_step (kDcmtAdapter ct tr) d step ss = transmit_confirmed ct tr d
     (snd (dcmt_build_frame ct (step_function_id step) (step_args step))) ''DCMT SET command'' ss"
  using dcmt_ad.call_safe_step [OF assms(1), of step tr ss d] assms(2)
  by (intro call_step_of) simp

definition rlht_safe_frames :: "contracts \<Rightarrow> raw_frame list" where
  "rlht_safe_frames ct = map (\<lambda>(p, payload). frame_of (byte_of ct RLHT_TYPE_ID) (byte_of ct p) payload)
     [(RLHT_OP_SET_SETPOINTS, [0, 0, 0, 0]), (RLHT_OP_SET_MODE, [byte_of ct RLHT_MODE_OPEN_LOOP]),
      (RLHT_OP_SET_OPEN_DUTY, [0, 0])]"

definition dcmt_safe_frames :: "contracts \<Rightarrow> raw_frame list" where
  "dcmt_safe_frames ct = map (\<lambda>(p, payload). frame_of (byte_of ct DCMT_TYPE_ID) (byte_of ct p) payload)
     [(DCMT_OP_SET_MODE, [byte_of ct DCMT_MODE_OPEN_LOOP]), (DCMT_OP_SET_OPEN_LOOP, [0, 0, 0, 0])]"

lemma safe_frames:
  "map (\<lambda>step. snd (rlht_build_frame ct (step_function_id step) (step_args step))) rlht_safe_output_steps =
     rlht_safe_frames ct"
  "map (\<lambda>step. snd (dcmt_build_frame ct (step_function_id step) (step_args step))) dcmt_safe_output_steps =
     dcmt_safe_frames ct"
  using arg_cong [OF rlht_safe_built, of "map snd" ct] arg_cong [OF dcmt_safe_built, of "map snd" ct]
  by (simp_all add: comp_def rlht_safe_frames_def dcmt_safe_frames_def)

lemma rlht_safe_effect:
  assumes "opcodes_ok ct" "labels_distinct ct" "d_type_id x = byte_of ct RLHT_TYPE_ID"
    and "y = run_commands ct ap (rlht_safe_frames ct) x"
  shows "d_rlht_sp1_deci_c y = (if ap 0 then 0 else d_rlht_sp1_deci_c x)"
    and "d_rlht_sp2_deci_c y = (if ap 0 then 0 else d_rlht_sp2_deci_c x)"
    and "d_rlht_mode y = (if ap 1 then byte_of ct RLHT_MODE_OPEN_LOOP else d_rlht_mode x)"
    and "d_rlht_on1_ms y = (if ap 2 then 0 else d_rlht_on1_ms x)"
    and "d_rlht_on2_ms y = (if ap 2 then 0 else d_rlht_on2_ms x)"
proof -
  have op: "byte_of ct RLHT_OP_SET_SETPOINTS \<noteq> byte_of ct RLHT_OP_SET_MODE"
    "byte_of ct RLHT_OP_SET_OPEN_DUTY \<noteq> byte_of ct RLHT_OP_SET_MODE"
    "byte_of ct RLHT_OP_SET_OPEN_DUTY \<noteq> byte_of ct RLHT_OP_SET_SETPOINTS"
    using assms(1) unfolding opcodes_ok_def by auto
  show "d_rlht_sp1_deci_c y = (if ap 0 then 0 else d_rlht_sp1_deci_c x)"
    "d_rlht_sp2_deci_c y = (if ap 0 then 0 else d_rlht_sp2_deci_c x)"
    "d_rlht_mode y = (if ap 1 then byte_of ct RLHT_MODE_OPEN_LOOP else d_rlht_mode x)"
    "d_rlht_on1_ms y = (if ap 2 then 0 else d_rlht_on1_ms x)"
    "d_rlht_on2_ms y = (if ap 2 then 0 else d_rlht_on2_ms x)"
    using op assms(3) labels_distinctD(1) [OF assms(2)]
    by (simp_all add: assms(4) rlht_safe_frames_def frame_of_def populate_message_def apply_set_def
        read_u16_le_def le_value_def duty_on_ms_def numeral_2_eq_2)
qed

lemma dcmt_safe_effect:
  assumes "opcodes_ok ct" "d_type_id x = byte_of ct DCMT_TYPE_ID"
    and "y = run_commands ct ap (dcmt_safe_frames ct) x"
  shows "d_dcmt_mode y = (if ap 0 then byte_of ct DCMT_MODE_OPEN_LOOP else d_dcmt_mode x)"
    and "d_dcmt_m1_pwm y = (if ap 1 then 0 else d_dcmt_m1_pwm x)"
    and "d_dcmt_m2_pwm y = (if ap 1 then 0 else d_dcmt_m2_pwm x)"
  using opcodes_okD(1,2) [OF assms(1)] assms(2)
  by (simp_all add: assms(3) dcmt_safe_frames_def frame_of_def populate_message_def apply_set_def
      read_u16_le_def le_value_def)

lemma safe_frames_fit:
  assumes "opcodes_ok ct"
  shows "step \<in> set rlht_safe_output_steps \<Longrightarrow>
      fr_opcode (snd (rlht_build_frame ct (step_function_id step) (step_args step))) \<noteq> kSetReplyOpcode \<and>
      length (fr_payload (snd (rlht_build_frame ct (step_function_id step) (step_args step)))) \<le> 27"
    and "step' \<in> set dcmt_safe_output_steps \<Longrightarrow>
      fr_opcode (snd (dcmt_build_frame ct (step_function_id step') (step_args step'))) \<noteq> kSetReplyOpcode \<and>
      length (fr_payload (snd (dcmt_build_frame ct (step_function_id step') (step_args step')))) \<le> 27"
proof -
  have "\<forall>f \<in> set (rlht_safe_frames ct). fr_opcode f \<noteq> kSetReplyOpcode \<and> length (fr_payload f) \<le> 27"
    "\<forall>f \<in> set (dcmt_safe_frames ct). fr_opcode f \<noteq> kSetReplyOpcode \<and> length (fr_payload f) \<le> 27"
    using opcodes_okD(3,4) [OF assms]
    by (auto simp: rlht_safe_frames_def dcmt_safe_frames_def frame_of_def kSetReplyOpcode_def)
  then show "step \<in> set rlht_safe_output_steps \<Longrightarrow>
      fr_opcode (snd (rlht_build_frame ct (step_function_id step) (step_args step))) \<noteq> kSetReplyOpcode \<and>
      length (fr_payload (snd (rlht_build_frame ct (step_function_id step) (step_args step)))) \<le> 27"
    and "step' \<in> set dcmt_safe_output_steps \<Longrightarrow>
      fr_opcode (snd (dcmt_build_frame ct (step_function_id step') (step_args step'))) \<noteq> kSetReplyOpcode \<and>
      length (fr_payload (snd (dcmt_build_frame ct (step_function_id step') (step_args step')))) \<le> 27"
    unfolding safe_frames [symmetric] by simp_all
qed

fun safe_frames_for :: "contracts \<Rightarrow> device_type \<Rightarrow> raw_frame list" where
  "safe_frames_for ct Rlht = rlht_safe_frames ct"
| "safe_frames_for ct Dcmt = dcmt_safe_frames ct"

lemma safe_frames_length [simp]: "length (rlht_safe_frames ct) = 3" "length (dcmt_safe_frames ct) = 2"
  by (simp_all add: rlht_safe_frames_def dcmt_safe_frames_def)

lemma safe_step_counts: "length rlht_safe_output_steps = 3" "length dcmt_safe_output_steps = 2"
  by (simp_all add: rlht_safe_output_steps_def dcmt_safe_output_steps_def)

lemma drive_canned:
  assumes "codec_ok ct" "ack_ok ct" "opcodes_ok ct" "set_confirmation ct d \<noteq> Unconfirmed"
    and "has_device ss (word_of_int (dev_address d)) x" "answers ct x"
  shows "\<exists>res ss' y. drive ct (canned_transport ct sys steady scan) d ss = (res, ss') \<and>
    has_device ss' (word_of_int (dev_address d)) y \<and>
    (so_ok res \<longleftrightarrow> (\<forall>i < length (safe_frames_for ct (dev_type d)). applies ct (d_next_outcomes x) i)) \<and>
    same_outputs y (run_commands ct (applies ct (d_next_outcomes x)) (safe_frames_for ct (dev_type d)) x)"
proof (cases "dev_type d")
  case Rlht
  let ?tr = "canned_transport ct sys steady scan"
  from drive_loop_canned [OF assms(1-4) call_step_rlht [OF assms(3), where tr = ?tr and d = d]
      safe_frames_fit(1) [OF assms(3)] assms(5,6), where steps = rlht_safe_output_steps and res = "\<lparr>so_ok = True, so_failures = []\<rparr>"]
  show ?thesis unfolding drive_def safe_frames using Rlht by (simp add: Let_def safe_step_counts)
next
  case Dcmt
  let ?tr = "canned_transport ct sys steady scan"
  from drive_loop_canned [OF assms(1-4) call_step_dcmt [OF assms(3), where tr = ?tr and d = d]
      safe_frames_fit(2) [OF assms(3)] assms(5,6), where steps = dcmt_safe_output_steps and res = "\<lparr>so_ok = True, so_failures = []\<rparr>"]
  show ?thesis unfolding drive_def safe_frames using Dcmt by (simp add: Let_def safe_step_counts)
qed

text \<open>
  C6: driving a device's outputs safe sends every step of its sequence, whatever the device answers
  to the earlier ones. On a simulated device that applies, refuses or rejects each command as it
  likes, exactly the applied steps take effect: on a DCMT the mode is then open loop and both PWM
  values zero, on an RLHT both setpoints zero, the mode open loop and both relay on-times zero;
  the result is \<open>ok\<close> exactly when every step was applied.
\<close>

theorem drive_makes_outputs_safe:
  assumes "codec_ok ct" "ack_ok ct" "opcodes_ok ct" "labels_distinct ct" "set_confirmation ct d \<noteq> Unconfirmed"
    and "has_device ss (word_of_int (dev_address d)) x" "answers ct x" "d_type_id x = bread_type_id ct (dev_type d)"
  shows "\<exists>res ss' y. drive ct (canned_transport ct sys steady scan) d ss = (res, ss') \<and>
    has_device ss' (word_of_int (dev_address d)) y \<and>
    (let ap = applies ct (d_next_outcomes x) in case dev_type d of
       Rlht \<Rightarrow> (so_ok res \<longleftrightarrow> ap 0 \<and> ap 1 \<and> ap 2) \<and>
         d_rlht_sp1_deci_c y = (if ap 0 then 0 else d_rlht_sp1_deci_c x) \<and>
         d_rlht_sp2_deci_c y = (if ap 0 then 0 else d_rlht_sp2_deci_c x) \<and>
         d_rlht_mode y = (if ap 1 then byte_of ct RLHT_MODE_OPEN_LOOP else d_rlht_mode x) \<and>
         d_rlht_on1_ms y = (if ap 2 then 0 else d_rlht_on1_ms x) \<and>
         d_rlht_on2_ms y = (if ap 2 then 0 else d_rlht_on2_ms x)
     | Dcmt \<Rightarrow> (so_ok res \<longleftrightarrow> ap 0 \<and> ap 1) \<and>
         d_dcmt_mode y = (if ap 0 then byte_of ct DCMT_MODE_OPEN_LOOP else d_dcmt_mode x) \<and>
         d_dcmt_m1_pwm y = (if ap 1 then 0 else d_dcmt_m1_pwm x) \<and>
         d_dcmt_m2_pwm y = (if ap 1 then 0 else d_dcmt_m2_pwm x))"
proof -
  obtain res ss' y where y: "drive ct (canned_transport ct sys steady scan) d ss = (res, ss')"
    "has_device ss' (word_of_int (dev_address d)) y"
    "so_ok res \<longleftrightarrow> (\<forall>i < length (safe_frames_for ct (dev_type d)). applies ct (d_next_outcomes x) i)"
    "same_outputs y (run_commands ct (applies ct (d_next_outcomes x)) (safe_frames_for ct (dev_type d)) x)"
    using drive_canned [OF assms(1-3,5-7)] by blast
  show ?thesis
  proof (cases "dev_type d")
    case Rlht
    with y show ?thesis
      using rlht_safe_effect [OF assms(3,4) _ refl, of x] assms(8)
      by (intro exI [of _ res] exI [of _ ss'] exI [of _ y])
        (simp add: same_outputs_def Let_def All_less_Suc2 numeral_2_eq_2 numeral_3_eq_3)
  next
    case Dcmt
    with y show ?thesis
      using dcmt_safe_effect [OF assms(3) _ refl, of x] assms(8)
      by (intro exI [of _ res] exI [of _ ss'] exI [of _ y])
        (simp add: same_outputs_def Let_def All_less_Suc2 numeral_2_eq_2)
  qed
qed

text \<open>A DCMT that refuses the next command.\<close>

theorem drive_makes_outputs_safe_witness:
  "\<exists>res ss' y. drive sample_contracts (canned_transport sample_contracts (\<lambda>_. 0) (\<lambda>_. 0) undefined)
      (sample_device Dcmt 20)
      (sample_session (put_device 20 (new_device\<lparr>d_type_id := 2, d_next_outcomes := [(2, 0)]\<rparr>)
         (new_canned_bus ''mock://t''))) = (res, ss') \<and>
    has_device ss' 20 y \<and> \<not> so_ok res \<and> d_dcmt_mode y = 0 \<and> d_dcmt_m1_pwm y = 0"
proof -
  let ?x = "new_device\<lparr>d_type_id := 2, d_next_outcomes := [(2, 0)]\<rparr>"
  let ?ss = "sample_session (put_device 20 ?x (new_canned_bus ''mock://t''))"
  have dev: "has_device ?ss (word_of_int (dev_address (sample_device Dcmt 20))) ?x"
    by (simp add: placed_defs)
  have x: "answers sample_contracts ?x" "d_type_id ?x = bread_type_id sample_contracts (dev_type (sample_device Dcmt 20))"
    by (simp_all add: answers_def new_device_def)
  show ?thesis
    using drive_makes_outputs_safe [OF sample_codec_ok sample_ack_ok sample_opcodes_ok sample_labels_distinct
        sample_confirmed dev x, of "\<lambda>_. 0" "\<lambda>_. 0" undefined]
    by (auto simp: Let_def applies_def new_device_def)
qed

end
