(* ===== verification/Watchdog.thy ===== *)
theory Watchdog
  imports Safe_Outputs
begin

text \<open>
  \<open>src/devices/common/watchdog\<close>: arming a board's command watchdog, re-arming one that reports
  itself disarmed, and querying its status. The log lines, and with them the \<open>context\<close>
  argument, are not modelled.
\<close>

record watchdog_status =
  wd_armed :: bool
  wd_timeout_ms :: u16
  wd_tripped :: bool
  wd_trip_count :: u8

definition new_watchdog_status :: watchdog_status where
  "new_watchdog_status = \<lparr>wd_armed = False, wd_timeout_ms = 0, wd_tripped = False, wd_trip_count = 0\<rparr>"

fun capability_flag_for :: "contracts \<Rightarrow> device_type \<Rightarrow> u32" where
  "capability_flag_for ct Rlht = cap_of ct RLHT_CAP_CMD_WATCHDOG"
| "capability_flag_for ct Dcmt = cap_of ct DCMT_CAP_CMD_WATCHDOG"

definition capability_supported :: "contracts \<Rightarrow> inventory_device \<Rightarrow> bool" where
  "capability_supported ct d \<longleftrightarrow>
     (let flag = capability_flag_for ct (dev_type d)
      in flag \<noteq> 0 \<and> cp_flags (dev_profile d) AND flag \<noteq> 0)"

definition arm_frame :: "contracts \<Rightarrow> inventory_device \<Rightarrow> raw_frame" where
  "arm_frame ct d =
     \<lparr>fr_type_id = bread_type_id ct (dev_type d), fr_opcode = byte_of ct BREAD_OP_SET_WATCHDOG,
      fr_payload = le_bytes (word_of_int (dev_command_watchdog_ms d) :: u16)\<rparr>"

definition arm_if_configured ::
  "contracts \<Rightarrow> 'w transport \<Rightarrow> inventory_device \<Rightarrow> 'w session \<Rightarrow> 'w session" where
  "arm_if_configured ct tr d ss =
     (if dev_command_watchdog_ms d \<le> 0 then ss
      else if \<not> capability_supported ct d then ss
      else snd (session_send tr (word_of_int (dev_address d)) (arm_frame ct d) ss))"

definition rearm_if_rebooted ::
  "contracts \<Rightarrow> 'w transport \<Rightarrow> inventory_device \<Rightarrow> watchdog_status \<Rightarrow> 'w session \<Rightarrow> bool \<times> 'w session" where
  "rearm_if_rebooted ct tr d status ss =
     (if dev_command_watchdog_ms d \<le> 0 \<or> \<not> capability_supported ct d \<or> wd_armed status \<or> wd_tripped status
      then (False, ss)
      else (True, arm_if_configured ct tr d ss))"

definition query_status ::
  "contracts \<Rightarrow> 'w transport \<Rightarrow> inventory_device \<Rightarrow> watchdog_status \<Rightarrow> 'w session \<Rightarrow>
   session_status \<times> watchdog_status \<times> 'w session" where
  "query_status ct tr d out ss =
     (let a = word_of_int (dev_address d);
          (st, frame, ss1) = query_read tr a (byte_of ct BREAD_OP_GET_WATCHDOG) empty_frame ss
      in if \<not> status_ok st then (st, out, ss1)
         else if fr_opcode frame \<noteq> byte_of ct BREAD_OP_GET_WATCHDOG then
           (failure DecodeFailed ''unexpected watchdog reply opcode'' 0, out, record_rejection a ss1)
         else case bread_watchdog_parse_payload ct (fr_payload frame) of
           None \<Rightarrow>
             (failure DecodeFailed ''failed to parse watchdog payload'' 0, out, record_rejection a ss1)
         | Some parsed \<Rightarrow>
             (success,
              \<lparr>wd_armed = wr_armed parsed \<noteq> 0, wd_timeout_ms = wr_timeout_ms parsed,
               wd_tripped = wr_tripped parsed \<noteq> 0, wd_trip_count = wr_trip_count parsed\<rparr>, ss1))"

subsection \<open>What arming puts on the bus\<close>

text \<open>A device whose watchdog the provider may arm.\<close>

abbreviation armable :: "contracts \<Rightarrow> inventory_device \<Rightarrow> bool" where
  "armable ct d \<equiv> 0 < dev_command_watchdog_ms d \<and> capability_supported ct d"

lemma arm_unarmable: "\<not> armable ct d \<Longrightarrow> arm_if_configured ct tr d ss = ss"
  by (auto simp: arm_if_configured_def)

lemma arm_traffic:
  "\<exists>n. snd (s_transport (arm_if_configured ct (traced tr) d ss)) = snd (s_transport ss) @
     replicate n (EvSend (word_of_int (dev_address d)) (arm_frame ct d))"
proof (cases "armable ct d")
  case True
  obtain st ss' where "session_send (traced tr) (word_of_int (dev_address d)) (arm_frame ct d) ss = (st, ss')"
    by fastforce
  with session_send_traffic [OF this] True show ?thesis by (auto simp: arm_if_configured_def)
next
  case False
  then show ?thesis by (intro exI [of _ 0]) (simp add: arm_unarmable)
qed

text \<open>
  Arming, at start-up, on recovery or on a health read, writes nothing but SET_WATCHDOG with
  the configured time in two bytes, to the device itself; it writes nothing at all for a device
  whose watchdog is not configured or not supported, and re-arming also leaves alone a device that
  reports itself armed or tripped. Arming itself asks nothing: it is sent to a tripped board too.
\<close>

lemma arming_writes_only_set_watchdog:
  "(let es = drop (length (snd (s_transport ss))) (snd (s_transport (arm_if_configured ct (traced tr) d ss)))
    in set es \<subseteq> {EvSend (word_of_int (dev_address d))
         \<lparr>fr_type_id = bread_type_id ct (dev_type d), fr_opcode = byte_of ct BREAD_OP_SET_WATCHDOG,
          fr_payload = le_bytes (word_of_int (dev_command_watchdog_ms d) :: u16)\<rparr>}) \<and>
   arm_if_configured ct tr' d ss' =
     (if armable ct d then snd (session_send tr' (word_of_int (dev_address d)) (arm_frame ct d) ss') else ss') \<and>
   rearm_if_rebooted ct tr' d status ss' =
     (if armable ct d \<and> \<not> wd_armed status \<and> \<not> wd_tripped status
      then (True, arm_if_configured ct tr' d ss') else (False, ss'))"
proof -
  obtain n where "snd (s_transport (arm_if_configured ct (traced tr) d ss)) = snd (s_transport ss) @
      replicate n (EvSend (word_of_int (dev_address d)) (arm_frame ct d))"
    using arm_traffic by blast
  then have "set (drop (length (snd (s_transport ss)))
      (snd (s_transport (arm_if_configured ct (traced tr) d ss)))) \<subseteq>
      {EvSend (word_of_int (dev_address d)) (arm_frame ct d)}" by auto
  then show ?thesis
    by (auto simp: arm_frame_def arm_if_configured_def rearm_if_rebooted_def)
qed

subsection \<open>Arming and reading back on the canned bus\<close>

lemma watchdog_opcodes:
  assumes "opcodes_ok ct"
  shows "byte_of ct BREAD_OP_GET_WATCHDOG \<noteq> byte_of ct RLHT_OP_GET_STATE"
    and "byte_of ct BREAD_OP_GET_WATCHDOG \<noteq> byte_of ct DCMT_OP_GET_STATE"
    and "byte_of ct BREAD_OP_SET_WATCHDOG \<noteq> kSetReplyOpcode"
    and "byte_of ct BREAD_OP_SET_WATCHDOG \<notin> byte_of ct ` {RLHT_OP_SET_MODE, RLHT_OP_SET_SETPOINTS,
      RLHT_OP_SET_OPEN_DUTY, RLHT_OP_SET_TC_SELECT, DCMT_OP_SET_OPEN_LOOP, DCMT_OP_SET_MODE}"
  using assms unfolding opcodes_ok_def shared_opcodes_def by (auto simp: kSetReplyOpcode_def)

lemma apply_arm_frame:
  assumes "opcodes_ok ct"
  shows "apply_set ct (populate_message (arm_frame ct d)) x =
    x\<lparr>d_watchdog_timeout_ms := word_of_int (dev_command_watchdog_ms d)\<rparr>"
  using watchdog_opcodes(4) [OF assms]
  by (simp add: apply_set_def populate_message_def arm_frame_def le_bytes_def le_value_bytes)

lemma canned_arm:
  assumes ok: "codec_ok ct" "opcodes_ok ct" and dev: "has_device ss (word_of_int (dev_address d)) x"
    and arm: "armable ct d" and live: "d_drop_count x = 0" "next_outcome ct x = (byte_of ct CRUMBS_ACK_APPLIED, r)"
  shows "\<exists>y. has_device (arm_if_configured ct (canned_transport ct sys steady scan) d ss)
      (word_of_int (dev_address d)) y \<and>
    same_outputs y (x\<lparr>d_watchdog_timeout_ms := word_of_int (dev_command_watchdog_ms d)\<rparr>) \<and>
    d_watchdog_trip_count y = d_watchdog_trip_count x"
proof -
  let ?a = "word_of_int (dev_address d) :: u8" and ?m = "populate_message (arm_frame ct d)"
  have "length (fr_payload (arm_frame ct d)) \<le> 27" by (simp add: arm_frame_def)
  from canned_session_send [OF ok(1) dev this] obtain ss' where
    s: "session_send (canned_transport ct sys steady scan) ?a (arm_frame ct d) ss = (ok_once, ss')"
      "has_device ss' ?a (apply_message ct ?m x)" by blast
  have cmd: "is_command ?m"
    using watchdog_opcodes(3) [OF ok(2)] by (simp add: is_command_def populate_message_def arm_frame_def)
  have "same_outputs (apply_message ct ?m x) (x\<lparr>d_watchdog_timeout_ms := word_of_int (dev_command_watchdog_ms d)\<rparr>)"
    using apply_message_counted(2) [OF cmd live refl] by (simp add: apply_arm_frame [OF ok(2)])
  moreover have "d_watchdog_trip_count (apply_message ct ?m x) = d_watchdog_trip_count x"
    by (simp add: apply_message_def count_write_def apply_set_def Let_def split: prod.splits)
  ultimately show ?thesis using s arm by (intro exI [of _ "apply_message ct ?m x"]) (simp add: arm_if_configured_def)
qed

lemma canned_query_status:
  assumes ok: "codec_ok ct" "opcodes_ok ct" "parsers_ok ct"
    and dev: "has_device ss (word_of_int (dev_address d)) x"
  shows "\<exists>ss'. query_status ct (canned_transport ct sys steady scan) d out ss =
     (success, \<lparr>wd_armed = (d_watchdog_timeout_ms x \<noteq> 0), wd_timeout_ms = d_watchdog_timeout_ms x,
        wd_tripped = d_watchdog_tripped x, wd_trip_count = d_watchdog_trip_count x\<rparr>, ss') \<and>
     has_device ss' (word_of_int (dev_address d)) (staged (byte_of ct BREAD_OP_GET_WATCHDOG) x)"
proof -
  let ?p = "byte_of ct BREAD_OP_GET_WATCHDOG" and ?a = "word_of_int (dev_address d) :: u8"
  let ?payload = "build_watchdog_payload (d_watchdog_timeout_ms x) (d_watchdog_tripped x) (d_watchdog_trip_count x)"
  have "reply_payload ct (staged ?p x) = (Inr ?payload, staged ?p x)"
    using watchdog_opcodes(1,2) [OF ok(2)] by (simp add: reply_payload_def Let_def staged_def)
  from canned_session_query [OF ok(1) dev this, of sys steady scan empty_frame] obtain ss' where
    q: "query_read (canned_transport ct sys steady scan) ?a ?p empty_frame ss =
        (ok_once, \<lparr>fr_type_id = d_type_id x, fr_opcode = ?p, fr_payload = ?payload\<rparr>, ss')"
      "has_device ss' ?a (staged ?p x)" by blast
  have "bread_watchdog_parse_payload ct ?payload =
      Some \<lparr>wr_armed = (if d_watchdog_timeout_ms x \<noteq> 0 then 1 else 0), wr_timeout_ms = d_watchdog_timeout_ms x,
            wr_tripped = (if d_watchdog_tripped x then 1 else 0), wr_trip_count = d_watchdog_trip_count x\<rparr>"
    using ok(3) [unfolded parsers_ok_def] unfolding build_watchdog_payload_def by (simp only: simp_thms)
  then show ?thesis using q by (simp add: query_status_def)
qed

text \<open>
  Arming a board and reading its status back gives the configured time: on a simulated board
  that receives and applies the frame, for every time the schema allows but 0, the status after it
  is armed, with that time, and with the trip and the trip count it had before.
\<close>

lemma arm_then_query:
  assumes "codec_ok ct" "opcodes_ok ct" "parsers_ok ct" "has_device ss (word_of_int (dev_address d)) x"
    and "capability_supported ct d" "0 < dev_command_watchdog_ms d" "dev_command_watchdog_ms d \<le> 65535"
    and "d_drop_count x = 0" "next_outcome ct x = (byte_of ct CRUMBS_ACK_APPLIED, r)"
  shows "let tr = canned_transport ct sys steady scan;
             (st, status, ss') = query_status ct tr d new_watchdog_status (arm_if_configured ct tr d ss)
    in status_ok st \<and> wd_armed status \<and> uint (wd_timeout_ms status) = dev_command_watchdog_ms d \<and>
       wd_tripped status = d_watchdog_tripped x \<and> wd_trip_count status = d_watchdog_trip_count x"
proof -
  obtain y where y: "has_device (arm_if_configured ct (canned_transport ct sys steady scan) d ss)
      (word_of_int (dev_address d)) y"
    "same_outputs y (x\<lparr>d_watchdog_timeout_ms := word_of_int (dev_command_watchdog_ms d)\<rparr>)"
    "d_watchdog_trip_count y = d_watchdog_trip_count x"
    using canned_arm [OF assms(1,2,4) _ assms(8,9)] assms(5,6) by blast
  have t: "d_watchdog_timeout_ms y = word_of_int (dev_command_watchdog_ms d)"
    "d_watchdog_tripped y = d_watchdog_tripped x" using y(2) by (simp_all add: same_outputs_def)
  have "uint (d_watchdog_timeout_ms y) = dev_command_watchdog_ms d"
    using assms(6,7) by (simp add: t(1) uint_word_of_int)
  moreover from this have "d_watchdog_timeout_ms y \<noteq> 0" using assms(6) by auto
  ultimately show ?thesis
    using canned_query_status [OF assms(1-3) y(1), of sys steady scan new_watchdog_status] t(2) y(3)
    by (auto simp: Let_def)
qed

end
