(* ===== verification/Keepalive.thy ===== *)
theory Keepalive
  imports Watchdog
begin

text \<open>
  \<open>src/devices/common/watchdog_keepalive\<close>: feeding the armed watchdogs from arming until the
  runtime's first call. Time points and durations of \<open>std::chrono::steady_clock\<close> are integers in
  nanoseconds. The keepalive's mutex is held by \<open>tick\<close> and \<open>contacted\<close> for their whole length, so
  each is one atomic step; the thread, the requests that interleave with it and the passing of
  time are the step relation \<open>ka_step\<close>.
\<close>

definition ns_of_ms :: "int \<Rightarrow> int" where
  "ns_of_ms ms = ms * 1000000"

definition kKeepaliveCap :: int where
  "kKeepaliveCap = ns_of_ms 30000"

record fed =
  fed_device :: inventory_device
  fed_interval :: int
  fed_next_due :: int
  fed_done :: bool

record keepalive =
  ka_armed_at :: int
  ka_deadline :: int
  ka_fed :: "fed list"
  ka_capped :: bool
  ka_stopping :: bool

text \<open>A quarter of the watchdog's time in whole milliseconds, but at least one.\<close>

definition feed_interval :: "inventory_device \<Rightarrow> int" where
  "feed_interval d = max (ns_of_ms (dev_command_watchdog_ms d div 4)) (ns_of_ms 1)"

definition new_fed :: "int \<Rightarrow> inventory_device \<Rightarrow> fed" where
  "new_fed armed_at d =
     \<lparr>fed_device = d, fed_interval = feed_interval d, fed_next_due = armed_at + feed_interval d,
      fed_done = False\<rparr>"

definition new_keepalive :: "contracts \<Rightarrow> inventory_device list \<Rightarrow> int \<Rightarrow> int \<Rightarrow> keepalive" where
  "new_keepalive ct devices cap armed_at =
     \<lparr>ka_armed_at = armed_at, ka_deadline = armed_at + cap,
      ka_fed = map (new_fed armed_at)
        (filter (\<lambda>d. \<not> (dev_command_watchdog_ms d \<le> 0 \<or> \<not> capability_supported ct d)) devices),
      ka_capped = False, ka_stopping = False\<rparr>"

definition contact_fed :: "string \<Rightarrow> fed \<Rightarrow> fed" where
  "contact_fed device_id f =
     (if fed_done f \<or> device_id_of (fed_device f) \<noteq> device_id then f else f\<lparr>fed_done := True\<rparr>)"

definition contacted :: "string \<Rightarrow> keepalive \<Rightarrow> keepalive" where
  "contacted device_id ka = ka\<lparr>ka_fed := map (contact_fed device_id) (ka_fed ka)\<rparr>"

text \<open>The loop of \<open>tick_locked\<close> over the devices, with \<open>next\<close> as it goes.\<close>

fun feed_loop ::
  "contracts \<Rightarrow> 'w transport \<Rightarrow> int \<Rightarrow> fed list \<Rightarrow> int option \<Rightarrow> 'w session \<Rightarrow>
   fed list \<times> int option \<times> 'w session" where
  "feed_loop ct tr now [] next ss = ([], next, ss)"
| "feed_loop ct tr now (f # fs) next ss =
     (if fed_done f then
        let (fs', next', ss') = feed_loop ct tr now fs next ss in (f # fs', next', ss')
      else
        let (f1, ss1) =
              (if fed_next_due f \<le> now then
                 let (st, ignored, ss1) = query_status ct tr (fed_device f) new_watchdog_status ss
                 in (f\<lparr>fed_next_due := now + fed_interval f\<rparr>, ss1)
               else (f, ss));
            next1 = (case next of Some n \<Rightarrow> min n (fed_next_due f1) | None \<Rightarrow> fed_next_due f1);
            (fs', next', ss') = feed_loop ct tr now fs (Some next1) ss1
        in (f1 # fs', next', ss'))"

definition tick ::
  "contracts \<Rightarrow> 'w transport \<Rightarrow> int \<Rightarrow> keepalive \<Rightarrow> 'w session \<Rightarrow> int option \<times> keepalive \<times> 'w session" where
  "tick ct tr now ka ss =
     (if ka_capped ka then (None, ka, ss)
      else if ka_deadline ka \<le> now then (None, ka\<lparr>ka_capped := True\<rparr>, ss)
      else
        let (fs, next, ss') = feed_loop ct tr now (ka_fed ka) None ss
        in (map_option (\<lambda>n. min n (ka_deadline ka)) next, ka\<lparr>ka_fed := fs\<rparr>, ss'))"

subsection \<open>The thread and the requests beside it\<close>

text \<open>
  \<open>NotStarted\<close>: no thread, as \<open>start\<close> leaves it when there is nothing to feed; \<open>Waiting w\<close>: in
  \<open>wait_until\<close> with the time it returns at, or not yet scheduled since it was started; \<open>Finished\<close>:
  \<open>run\<close> has returned.
\<close>

datatype feeder = NotStarted | Waiting int | Finished

record 'w ka_run =
  kr_keepalive :: keepalive
  kr_feeder :: feeder
  kr_now :: int
  kr_session :: "'w session"

definition start :: "int \<Rightarrow> keepalive \<Rightarrow> 'w session \<Rightarrow> 'w ka_run" where
  "start now ka ss =
     \<lparr>kr_keepalive = ka, kr_feeder = (if ka_fed ka \<noteq> [] then Waiting (ka_armed_at ka) else NotStarted),
      kr_now = now, kr_session = ss\<rparr>"

text \<open>What the thread does when it wakes at a time: the body of the loop of \<open>run\<close>.\<close>

definition wake :: "contracts \<Rightarrow> 'w transport \<Rightarrow> int \<Rightarrow> 'w ka_run \<Rightarrow> 'w ka_run" where
  "wake ct tr now r =
     (if ka_stopping (kr_keepalive r) then r\<lparr>kr_feeder := Finished, kr_now := now\<rparr>
      else
        let (next, ka, ss) = tick ct tr now (kr_keepalive r) (kr_session r)
        in r\<lparr>kr_keepalive := ka, kr_session := ss, kr_now := now,
             kr_feeder := (case next of None \<Rightarrow> Finished | Some w \<Rightarrow> Waiting w)\<rparr>)"

text \<open>
  The destructor: it asks the thread to stop, notifies it, which wakes a waiting thread at once, and joins it;
  a thread that was never started or has returned is not woken.
\<close>

definition destroy :: "contracts \<Rightarrow> 'w transport \<Rightarrow> int \<Rightarrow> 'w ka_run \<Rightarrow> 'w ka_run" where
  "destroy ct tr now r =
     (let r1 = r\<lparr>kr_keepalive := (kr_keepalive r)\<lparr>ka_stopping := True\<rparr>\<rparr>
      in case kr_feeder r1 of Waiting w \<Rightarrow> wake ct tr now r1 | _ \<Rightarrow> r1)"

datatype ka_event = Wake int | Contact string int | Other int | Stop

text \<open>
  The thread may wake late, never early, unless it is stopped; a request of the runtime may run
  any session operation, and names the device it contacts.
\<close>

inductive ka_step :: "contracts \<Rightarrow> 'w transport \<Rightarrow> 'w ka_run \<Rightarrow> ka_event \<Rightarrow> 'w ka_run \<Rightarrow> bool"
  for ct :: contracts and tr :: "'w transport" where
  step_wake: "kr_feeder r = Waiting w \<Longrightarrow> kr_now r \<le> t \<Longrightarrow> w \<le> t \<or> ka_stopping (kr_keepalive r) \<Longrightarrow>
    ka_step ct tr r (Wake t) (wake ct tr t r)"
| step_contact: "kr_now r \<le> t \<Longrightarrow> ka_step ct tr r (Contact device_id t)
    (r\<lparr>kr_keepalive := contacted device_id (kr_keepalive r), kr_now := t\<rparr>)"
| step_other: "kr_now r \<le> t \<Longrightarrow> ka_step ct tr r (Other t) (r\<lparr>kr_session := ss, kr_now := t\<rparr>)"
| step_stop: "ka_step ct tr r Stop (r\<lparr>kr_keepalive := (kr_keepalive r)\<lparr>ka_stopping := True\<rparr>\<rparr>)"

inductive_cases ka_step_cases: "ka_step ct tr r e r'"

inductive ka_reachable :: "contracts \<Rightarrow> 'w transport \<Rightarrow> 'w ka_run \<Rightarrow> ka_event list \<Rightarrow> 'w ka_run \<Rightarrow> bool"
  for ct :: contracts and tr :: "'w transport" and r0 :: "'w ka_run" where
  reach_init: "ka_reachable ct tr r0 [] r0"
| reach_step: "ka_reachable ct tr r0 es r \<Longrightarrow> ka_step ct tr r e r' \<Longrightarrow> ka_reachable ct tr r0 (es @ [e]) r'"

subsection \<open>One turn over the devices\<close>

text \<open>What a tick does to one device, and the devices it feeds, in order.\<close>

definition refed :: "int \<Rightarrow> fed \<Rightarrow> fed" where
  "refed now f = (if \<not> fed_done f \<and> fed_next_due f \<le> now then f\<lparr>fed_next_due := now + fed_interval f\<rparr> else f)"

definition due_devices :: "int \<Rightarrow> fed list \<Rightarrow> inventory_device list" where
  "due_devices now fs = map fed_device (filter (\<lambda>f. \<not> fed_done f \<and> fed_next_due f \<le> now) fs)"

definition feed_all ::
  "contracts \<Rightarrow> 'w transport \<Rightarrow> inventory_device list \<Rightarrow> 'w session \<Rightarrow> 'w session" where
  "feed_all ct tr ds ss = fold (\<lambda>d ss. snd (snd (query_status ct tr d new_watchdog_status ss))) ds ss"

fun earliest :: "int list \<Rightarrow> int option" where
  "earliest [] = None"
| "earliest (t # ts) = Some (Min (set (t # ts)))"

definition open_dues :: "fed list \<Rightarrow> int list" where
  "open_dues fs = map fed_next_due (filter (\<lambda>f. \<not> fed_done f) fs)"

lemma refed_simps [simp]:
  "fed_done (refed now f) = fed_done f" "fed_device (refed now f) = fed_device f"
  "fed_interval (refed now f) = fed_interval f"
  by (simp_all add: refed_def)

lemma refed_done [simp]: "fed_done f \<Longrightarrow> refed now f = f"
  by (simp add: refed_def)

lemma feed_loop_spec:
  "feed_loop ct tr now fs next ss =
     (map (refed now) fs,
      (case next of None \<Rightarrow> earliest (open_dues (map (refed now) fs))
       | Some n \<Rightarrow> Some (Min (insert n (set (open_dues (map (refed now) fs)))))),
      feed_all ct tr (due_devices now fs) ss)"
proof (induction fs arbitrary: "next" ss)
  case (Cons f fs)
  show ?case
  proof (cases "fed_done f")
    case True
    then show ?thesis by (simp add: Cons.IH open_dues_def due_devices_def split: option.splits)
  next
    case False
    obtain st out ss1 where q: "query_status ct tr (fed_device f) new_watchdog_status ss = (st, out, ss1)"
      by (metis prod_cases3)
    define n1 where "n1 = (case next of Some n \<Rightarrow> min n (fed_next_due (refed now f)) | None \<Rightarrow> fed_next_due (refed now f))"
    have dues: "open_dues (map (refed now) (f # fs)) = fed_next_due (refed now f) # open_dues (map (refed now) fs)"
      using False by (simp add: open_dues_def)
    have "feed_loop ct tr now (f # fs) next ss =
      (refed now f # map (refed now) fs, Some (Min (insert n1 (set (open_dues (map (refed now) fs))))),
       feed_all ct tr (due_devices now (f # fs)) ss)"
      using False q by (cases "next") (simp_all add: Cons.IH n1_def refed_def due_devices_def feed_all_def)
    moreover have "Min (insert (min n m) A) = Min (insert n (insert m A))" if "finite A" for n m :: int and A
      using that by (cases "A = {}") (simp_all add: min.assoc)
    ultimately show ?thesis unfolding dues by (simp add: n1_def split: option.splits)
  qed
qed (simp add: open_dues_def due_devices_def feed_all_def split: option.splits)

lemma tick_spec:
  "tick ct tr now ka ss =
     (if ka_capped ka then (None, ka, ss)
      else if ka_deadline ka \<le> now then (None, ka\<lparr>ka_capped := True\<rparr>, ss)
      else (map_option (\<lambda>n. min n (ka_deadline ka)) (earliest (open_dues (map (refed now) (ka_fed ka)))),
            ka\<lparr>ka_fed := map (refed now) (ka_fed ka)\<rparr>,
            feed_all ct tr (due_devices now (ka_fed ka)) ss))"
  by (simp add: tick_def feed_loop_spec)

lemma earliest_dues:
  "earliest (open_dues fs) = None \<longleftrightarrow> (\<forall>f \<in> set fs. fed_done f)"
  "earliest (open_dues fs) = Some n \<Longrightarrow> (\<exists>f \<in> set fs. \<not> fed_done f \<and> n = fed_next_due f) \<and>
     (\<forall>f \<in> set fs. fed_done f \<or> n \<le> fed_next_due f)"
proof -
  have s: "set (open_dues fs) = fed_next_due ` {f \<in> set fs. \<not> fed_done f}" by (auto simp: open_dues_def)
  have e: "earliest ts = (if ts = [] then None else Some (Min (set ts)))" for ts by (cases ts) simp_all
  show "earliest (open_dues fs) = None \<longleftrightarrow> (\<forall>f \<in> set fs. fed_done f)"
    by (auto simp: e open_dues_def filter_empty_conv)
  assume "earliest (open_dues fs) = Some n"
  then have "open_dues fs \<noteq> []" "n = Min (set (open_dues fs))" by (simp_all add: e split: if_splits)
  then have "n \<in> set (open_dues fs)" "\<forall>t \<in> set (open_dues fs). n \<le> t" by simp_all
  then show "(\<exists>f \<in> set fs. \<not> fed_done f \<and> n = fed_next_due f) \<and>
     (\<forall>f \<in> set fs. fed_done f \<or> n \<le> fed_next_due f)" by (auto simp: s)
qed

lemma refed_later: "0 < fed_interval f \<Longrightarrow> \<not> fed_done f \<Longrightarrow> now < fed_next_due (refed now f)"
  by (simp add: refed_def)


text \<open>A DCMT whose watchdog is configured to 300 ms, fed every 75 ms.\<close>

definition watched_device :: inventory_device where
  "watched_device = (sample_device Dcmt 20)\<lparr>dev_command_watchdog_ms := 300,
     dev_profile := make_seeded_capability_profile sample_contracts Dcmt\<rparr>"

abbreviation watched_keepalive :: keepalive where
  "watched_keepalive \<equiv> new_keepalive sample_contracts [watched_device] kKeepaliveCap 0"

lemma watched_simps:
  "ka_fed watched_keepalive = [\<lparr>fed_device = watched_device, fed_interval = 75000000,
     fed_next_due = 75000000, fed_done = False\<rparr>]"
  "ka_deadline watched_keepalive = 30000000000" "\<not> ka_capped watched_keepalive"
  "\<not> ka_stopping watched_keepalive" "ka_armed_at watched_keepalive = 0"
  "dev_command_watchdog_ms watched_device = 300"
  by (simp_all add: new_keepalive_def new_fed_def feed_interval_def ns_of_ms_def kKeepaliveCap_def
      watched_device_def capability_supported_def)


subsection \<open>Runs of the thread\<close>

definition ka_inv :: "'w ka_run \<Rightarrow> bool" where
  "ka_inv r \<longleftrightarrow>
     (\<forall>f \<in> set (ka_fed (kr_keepalive r)). fed_interval f = feed_interval (fed_device f)) \<and>
     (case kr_feeder r of
        NotStarted \<Rightarrow> ka_fed (kr_keepalive r) = []
      | Waiting w \<Rightarrow> \<forall>f \<in> set (ka_fed (kr_keepalive r)). fed_done f \<or> w \<le> fed_next_due f
      | Finished \<Rightarrow> ka_capped (kr_keepalive r) \<or> ka_stopping (kr_keepalive r) \<or>
          (\<forall>f \<in> set (ka_fed (kr_keepalive r)). fed_done f))"

lemma feed_interval_pos [simp]: "0 < feed_interval d"
  by (simp add: feed_interval_def ns_of_ms_def)

lemma contact_fed_simps [simp]:
  "fed_interval (contact_fed i f) = fed_interval f" "fed_device (contact_fed i f) = fed_device f"
  "fed_next_due (contact_fed i f) = fed_next_due f" "fed_done f \<Longrightarrow> fed_done (contact_fed i f)"
  by (simp_all add: contact_fed_def)

lemma wake_cases:
  obtains (stopped) "ka_stopping (kr_keepalive r)" "wake ct tr t r = r\<lparr>kr_feeder := Finished, kr_now := t\<rparr>"
  | (capped) "\<not> ka_stopping (kr_keepalive r)" "ka_capped (kr_keepalive r) \<or> ka_deadline (kr_keepalive r) \<le> t"
      "wake ct tr t r = r\<lparr>kr_keepalive := (kr_keepalive r)\<lparr>ka_capped := True\<rparr>, kr_feeder := Finished, kr_now := t\<rparr>"
  | (fed) fs ss where "\<not> ka_stopping (kr_keepalive r)" "t < ka_deadline (kr_keepalive r)"
      "fs = map (refed t) (ka_fed (kr_keepalive r))"
      "ss = feed_all ct tr (due_devices t (ka_fed (kr_keepalive r))) (kr_session r)"
      "wake ct tr t r = r\<lparr>kr_keepalive := (kr_keepalive r)\<lparr>ka_fed := fs\<rparr>, kr_session := ss, kr_now := t,
         kr_feeder := (case earliest (open_dues fs) of None \<Rightarrow> Finished
           | Some n \<Rightarrow> Waiting (min n (ka_deadline (kr_keepalive r))))\<rparr>"
proof -
  consider "ka_stopping (kr_keepalive r)"
    | "\<not> ka_stopping (kr_keepalive r)" "ka_capped (kr_keepalive r) \<or> ka_deadline (kr_keepalive r) \<le> t"
    | "\<not> ka_stopping (kr_keepalive r)" "\<not> ka_capped (kr_keepalive r)" "t < ka_deadline (kr_keepalive r)"
    by linarith
  then show thesis
  proof cases
    case 1
    then show thesis by (intro stopped) (simp_all add: wake_def)
  next
    case 2
    then have "wake ct tr t r =
        r\<lparr>kr_keepalive := (kr_keepalive r)\<lparr>ka_capped := True\<rparr>, kr_feeder := Finished, kr_now := t\<rparr>"
      by (auto simp: wake_def tick_spec)
    with 2 show thesis by (intro capped)
  next
    case 3
    then show thesis
      by (intro fed [OF _ _ refl refl]) (auto simp: wake_def tick_spec split: option.splits)
  qed
qed

lemma wake_inv:
  assumes "ka_inv r"
  shows "ka_inv (wake ct tr t r)"
proof (rule wake_cases [of r ct tr t])
  fix fs ss
  assume fs: "fs = map (refed t) (ka_fed (kr_keepalive r))"
    and w: "wake ct tr t r = r\<lparr>kr_keepalive := (kr_keepalive r)\<lparr>ka_fed := fs\<rparr>, kr_session := ss, kr_now := t,
         kr_feeder := (case earliest (open_dues fs) of None \<Rightarrow> Finished
           | Some n \<Rightarrow> Waiting (min n (ka_deadline (kr_keepalive r))))\<rparr>"
  have "\<forall>f \<in> set fs. fed_interval f = feed_interval (fed_device f)"
    using assms by (auto simp: fs ka_inv_def)
  with earliest_dues [of fs] show ?thesis
    unfolding w by (cases "earliest (open_dues fs)") (auto simp: ka_inv_def min_def)
qed (use assms in \<open>auto simp: ka_inv_def\<close>)

lemma ka_step_inv:
  assumes "ka_step ct tr r e r'" "ka_inv r"
  shows "ka_inv r'"
  using assms
proof (induction rule: ka_step.induct)
  case (step_wake r w t)
  then show ?case by (simp only: wake_inv)
next
  case (step_contact r t device_id)
  then show ?case by (auto simp: ka_inv_def contacted_def split: feeder.splits)
next
  case (step_stop r)
  then show ?case by (auto simp: ka_inv_def split: feeder.splits)
qed (auto simp: ka_inv_def split: feeder.splits)

lemma start_inv: "ka_inv (start now (new_keepalive ct devices cap armed_at) ss)"
  by (auto simp: ka_inv_def start_def new_keepalive_def new_fed_def less_imp_le)

lemma ka_reachable_inv:
  assumes "ka_reachable ct tr (start now (new_keepalive ct devices cap armed_at) ss) es r"
  shows "ka_inv r"
  using assms by induction (auto simp: start_inv ka_step_inv)

subsection \<open>Feeding on the bus\<close>

text \<open>A feeding is a GET_WATCHDOG query on the bus, wherever the session serves the device.\<close>

definition asked_watchdog ::
  "contracts \<Rightarrow> 'w transport \<Rightarrow> inventory_device \<Rightarrow> ('w \<times> bus_event list) session \<Rightarrow> ('w \<times> bus_event list) session \<Rightarrow> bool" where
  "asked_watchdog ct tr d ss ss' \<longleftrightarrow>
     (\<exists>es. snd (s_transport ss') = snd (s_transport ss) @ es \<and>
        (serves (traced tr) (word_of_int (dev_address d)) ss \<longrightarrow>
           EvSend (word_of_int (dev_address d)) (query_frame (byte_of ct BREAD_OP_GET_WATCHDOG)) \<in> set es))"

lemma query_status_session:
  assumes "query_status ct tr d out ss = (st, out', ss')"
  obtains st1 frame ss1 where
    "query_read tr (word_of_int (dev_address d)) (byte_of ct BREAD_OP_GET_WATCHDOG) empty_frame ss = (st1, frame, ss1)"
    "s_transport ss' = s_transport ss1"
proof -
  obtain st1 frame ss1 where q: "query_read tr (word_of_int (dev_address d)) (byte_of ct BREAD_OP_GET_WATCHDOG) empty_frame ss =
      (st1, frame, ss1)" by (metis prod_cases3)
  moreover have "s_transport ss' = s_transport ss1"
    using assms by (auto simp: query_status_def q Let_def split: if_splits option.splits)
  ultimately show thesis by (rule that)
qed

lemma query_status_asks:
  assumes "transport_contract tr" "query_status ct (traced tr) d out ss = (st, out', ss')"
  shows "asked_watchdog ct tr d ss ss'" "serves (traced tr) b ss' = serves (traced tr) b ss"
    "\<exists>es. snd (s_transport ss') = snd (s_transport ss) @ es"
proof -
  obtain st1 frame ss1 where q: "query_read (traced tr) (word_of_int (dev_address d)) (byte_of ct BREAD_OP_GET_WATCHDOG)
      empty_frame ss = (st1, frame, ss1)" "s_transport ss' = s_transport ss1"
    by (rule query_status_session [OF assms(2)])
  from query_read_traffic [OF q(1)] q(2) show es: "\<exists>es. snd (s_transport ss') = snd (s_transport ss) @ es" by auto
  with query_read_asks [OF q(1)] q(2) show "asked_watchdog ct tr d ss ss'" by (auto simp: asked_watchdog_def)
  from transport_contract.serves_keeps(1) [OF transport_contract.traced_contract [OF assms(1)] q(1), of b] q(2)
  show "serves (traced tr) b ss' = serves (traced tr) b ss" by (simp add: serves_def session_is_open_def)
qed

lemma feed_all_step:
  "query_status ct tr d new_watchdog_status ss = (st, out, ss1) \<Longrightarrow> feed_all ct tr (d # ds) ss = feed_all ct tr ds ss1"
  by (simp add: feed_all_def)

lemma feed_all_appends:
  assumes "transport_contract tr"
  shows "\<exists>es. snd (s_transport (feed_all ct (traced tr) ds ss)) = snd (s_transport ss) @ es"
proof (induction ds arbitrary: ss)
  case (Cons d ds)
  obtain st out ss1 where q: "query_status ct (traced tr) d new_watchdog_status ss = (st, out, ss1)" by (metis prod_cases3)
  from query_status_asks(3) [OF assms q] Cons.IH [of ss1] show ?case unfolding feed_all_step [OF q] by auto
qed (simp add: feed_all_def)

lemma feed_all_asks:
  assumes "transport_contract tr"
  shows "d \<in> set ds \<Longrightarrow> asked_watchdog ct tr d ss (feed_all ct (traced tr) ds ss)"
proof (induction ds arbitrary: ss)
  case (Cons e ds)
  obtain st out ss1 where q: "query_status ct (traced tr) e new_watchdog_status ss = (st, out, ss1)" by (metis prod_cases3)
  note asks = query_status_asks [OF assms q]
  obtain es2 where es2: "snd (s_transport (feed_all ct (traced tr) ds ss1)) = snd (s_transport ss1) @ es2"
    using feed_all_appends [OF assms] by blast
  show ?case
  proof (cases "d = e")
    case True
    with asks(1) es2 show ?thesis unfolding feed_all_step [OF q] asked_watchdog_def by fastforce
  next
    case False
    with Cons have "asked_watchdog ct tr d ss1 (feed_all ct (traced tr) ds ss1)" by simp
    with asks(2,3) show ?thesis unfolding feed_all_step [OF q] asked_watchdog_def by fastforce
  qed
qed simp

text \<open>The device was fed at a time of the run: the thread woke then, and the query was sent.\<close>

definition fed_at ::
  "contracts \<Rightarrow> 'w transport \<Rightarrow> ('w \<times> bus_event list) ka_run \<Rightarrow> ka_event list \<Rightarrow> ('w \<times> bus_event list) ka_run \<Rightarrow>
   inventory_device \<Rightarrow> int \<Rightarrow> bool" where
  "fed_at ct tr r0 es r d t \<longleftrightarrow>
     (\<exists>es1 es2 r1. es = es1 @ Wake t # es2 \<and> ka_reachable ct (traced tr) r0 es1 r1 \<and>
        ka_reachable ct (traced tr) (wake ct (traced tr) t r1) es2 r \<and>
        asked_watchdog ct tr d (kr_session r1) (kr_session (wake ct (traced tr) t r1)))"

lemma fed_at_step: "fed_at ct tr r0 es r d t \<Longrightarrow> ka_step ct (traced tr) r e r' \<Longrightarrow> fed_at ct tr r0 (es @ [e]) r' d t"
  unfolding fed_at_def by (elim exE conjE, intro exI conjI) (auto intro: reach_step)

text \<open>The bookkeeping of the keepalive: when it holds a device fed last, or armed.\<close>

definition last_fed :: "fed \<Rightarrow> int" where
  "last_fed f = fed_next_due f - fed_interval f"

lemma last_fed_is_fed:
  assumes "transport_contract tr"
    and "ka_reachable ct (traced tr) (start now (new_keepalive ct devices cap armed_at) ss) es r"
  shows "\<forall>f \<in> set (ka_fed (kr_keepalive r)). fed_done f \<or> last_fed f = armed_at \<or>
    fed_at ct tr (start now (new_keepalive ct devices cap armed_at) ss) es r (fed_device f) (last_fed f)"
  using assms(2)
proof (induction rule: ka_reachable.induct)
  case reach_init
  then show ?case by (auto simp: start_def new_keepalive_def new_fed_def last_fed_def)
next
  case (reach_step es r e r')
  let ?r0 = "start now (new_keepalive ct devices cap armed_at) ss"
  note later = fed_at_step [OF _ reach_step.hyps(2), of ?r0 es]
  from reach_step.hyps(2) show ?case
  proof cases
    case (step_wake w t)
    then show ?thesis
    proof (rule_tac wake_cases [of r ct "traced tr" t])
      fix fs s
      assume fs: "fs = map (refed t) (ka_fed (kr_keepalive r))"
        and s: "s = feed_all ct (traced tr) (due_devices t (ka_fed (kr_keepalive r))) (kr_session r)"
        and w: "wake ct (traced tr) t r = r\<lparr>kr_keepalive := (kr_keepalive r)\<lparr>ka_fed := fs\<rparr>, kr_session := s, kr_now := t,
         kr_feeder := (case earliest (open_dues fs) of None \<Rightarrow> Finished
           | Some n \<Rightarrow> Waiting (min n (ka_deadline (kr_keepalive r))))\<rparr>"
      have "fed_done f \<or> last_fed (refed t f) = armed_at \<or> fed_at ct tr ?r0 (es @ [e]) r' (fed_device f) (last_fed (refed t f))"
        if f: "f \<in> set (ka_fed (kr_keepalive r))" for f
      proof (cases "\<not> fed_done f \<and> fed_next_due f \<le> t")
        case True
        then have "asked_watchdog ct tr (fed_device f) (kr_session r) s"
          unfolding s using f by (intro feed_all_asks [OF assms(1)]) (auto simp: due_devices_def)
        with step_wake reach_step.hyps(1) have "fed_at ct tr ?r0 (es @ [e]) r' (fed_device f) t"
          unfolding fed_at_def by (intro exI [of _ es] exI [of _ "[]"] exI [of _ r]) (simp add: w reach_init)
        with True show ?thesis by (simp add: refed_def last_fed_def)
      next
        case False
        then have "refed t f = f" by (auto simp: refed_def)
        with reach_step.IH f later show ?thesis by auto
      qed
      with step_wake show ?thesis by (auto simp: w fs)
    qed (use reach_step.IH later in \<open>auto\<close>)
  next
    case (step_contact t device_id)
    have "contact_fed device_id f = f" if "\<not> fed_done (contact_fed device_id f)" for f
      using that by (auto simp: contact_fed_def split: if_splits)
    with reach_step.IH later step_contact show ?thesis by (fastforce simp: contacted_def)
  qed (use reach_step.IH later in auto)
qed

text \<open>
  C10: whatever requests interleave with it, the keepalive feeds every armed device that the runtime
  has not called in time. Until the cap passes or the provider shuts down, while the thread runs no
  more than \<open>lag\<close> behind the time it asked for, a device not yet contacted was armed at most a quarter of its watchdog time and
  \<open>lag\<close> ago, or the thread woke no longer ago than that and put the device's watchdog query on the bus (where the
  session is open and serves the address), for watchdog times of 4 ms and more.
\<close>

theorem keepalive_feeds_in_time:
  assumes "transport_contract tr"
    and "ka_reachable ct (traced tr) (start now (new_keepalive ct devices cap armed_at) ss) es r"
    and "f \<in> set (ka_fed (kr_keepalive r))" "\<not> fed_done f"
    and "\<not> ka_capped (kr_keepalive r)" "\<not> ka_stopping (kr_keepalive r)"
    and "\<forall>w. kr_feeder r = Waiting w \<longrightarrow> kr_now r \<le> w + lag"
    and "4 \<le> dev_command_watchdog_ms (fed_device f)"
  shows "\<exists>t. 4 * (kr_now r - t - lag) \<le> ns_of_ms (dev_command_watchdog_ms (fed_device f)) \<and>
    (t = armed_at \<or>
     (\<exists>es1 es2 r1. es = es1 @ Wake t # es2 \<and>
        ka_reachable ct (traced tr) (start now (new_keepalive ct devices cap armed_at) ss) es1 r1 \<and>
        ka_reachable ct (traced tr) (wake ct (traced tr) t r1) es2 r \<and>
        asked_watchdog ct tr (fed_device f) (kr_session r1) (kr_session (wake ct (traced tr) t r1))))"
proof -
  from ka_reachable_inv [OF assms(2)] have inv: "ka_inv r" .
  with assms(3-6) obtain w where w: "kr_feeder r = Waiting w" "w \<le> fed_next_due f"
    by (auto simp: ka_inv_def split: feeder.splits)
  have i: "fed_interval f = ns_of_ms (dev_command_watchdog_ms (fed_device f) div 4)"
    using inv assms(3,8) by (auto simp: ka_inv_def feed_interval_def ns_of_ms_def max_def)
  have "kr_now r \<le> fed_next_due f + lag" using assms(7) w by fastforce
  moreover have "4 * (dev_command_watchdog_ms (fed_device f) div 4) \<le> dev_command_watchdog_ms (fed_device f)"
    by simp
  ultimately have "4 * (kr_now r - last_fed f - lag) \<le> ns_of_ms (dev_command_watchdog_ms (fed_device f))"
    by (simp add: last_fed_def i ns_of_ms_def)
  moreover have "last_fed f = armed_at \<or>
      fed_at ct tr (start now (new_keepalive ct devices cap armed_at) ss) es r (fed_device f) (last_fed f)"
    using last_fed_is_fed [OF assms(1,2)] assms(3,4) by blast
  ultimately show ?thesis unfolding fed_at_def by blast
qed

text \<open>The watched device over a canned bus: armed at 0, fed at 75 ms.\<close>

abbreviation watched_transport :: "(canned_bus crumbs_transport \<times> bus_event list) transport" where
  "watched_transport \<equiv> traced (canned_transport sample_contracts (\<lambda>_. 0) (\<lambda>_. 0) undefined)"

abbreviation watched_start :: "(canned_bus crumbs_transport \<times> bus_event list) ka_run" where
  "watched_start \<equiv> start 0 watched_keepalive (new_session (s_transport (sample_session sample_dcmt_bus), []) sample_options)"

abbreviation watched_end :: "(canned_bus crumbs_transport \<times> bus_event list) ka_run" where
  "watched_end \<equiv> wake sample_contracts watched_transport 75000000 (wake sample_contracts watched_transport 0 watched_start)"

lemma watched_run:
  "ka_reachable sample_contracts watched_transport watched_start [Wake 0, Wake 75000000, Other 140000000]
     (watched_end\<lparr>kr_now := 140000000\<rparr>)"
  "kr_feeder watched_end = Waiting 150000000" "ka_fed (kr_keepalive watched_end) = [\<lparr>fed_device = watched_device,
     fed_interval = 75000000, fed_next_due = 150000000, fed_done = False\<rparr>]"
  "\<not> ka_capped (kr_keepalive watched_end)" "\<not> ka_stopping (kr_keepalive watched_end)"
proof -
  let ?tr = watched_transport and ?r1 = "wake sample_contracts watched_transport 0 watched_start"
  have r1: "kr_feeder ?r1 = Waiting 75000000" "ka_fed (kr_keepalive ?r1) = ka_fed watched_keepalive" "kr_now ?r1 = 0"
    "ka_deadline (kr_keepalive ?r1) = 30000000000" "\<not> ka_capped (kr_keepalive ?r1)" "\<not> ka_stopping (kr_keepalive ?r1)"
    by (simp_all add: wake_def tick_spec start_def watched_simps open_dues_def refed_def)
  show e: "kr_feeder watched_end = Waiting 150000000" "ka_fed (kr_keepalive watched_end) = [\<lparr>fed_device = watched_device,
     fed_interval = 75000000, fed_next_due = 150000000, fed_done = False\<rparr>]"
    "\<not> ka_capped (kr_keepalive watched_end)" "\<not> ka_stopping (kr_keepalive watched_end)"
    by (simp_all add: wake_def [of _ _ 75000000] tick_spec r1 watched_simps open_dues_def refed_def)
  have now: "kr_now watched_end = 75000000" by (simp add: wake_def [of _ _ 75000000] tick_spec r1)
  have "ka_step sample_contracts ?tr watched_start (Wake 0) ?r1"
    by (rule step_wake [of _ 0]) (simp_all add: start_def watched_simps)
  note one = reach_step [OF reach_init this]
  have "ka_step sample_contracts ?tr ?r1 (Wake 75000000) watched_end" by (rule step_wake [OF r1(1)]) (simp_all add: r1)
  note two = reach_step [OF one this]
  have "ka_step sample_contracts ?tr watched_end (Other 140000000)
      (watched_end\<lparr>kr_session := kr_session watched_end, kr_now := 140000000\<rparr>)" by (rule step_other) (simp add: now)
  from reach_step [OF two this] show "ka_reachable sample_contracts watched_transport watched_start
      [Wake 0, Wake 75000000, Other 140000000] (watched_end\<lparr>kr_now := 140000000\<rparr>)" by simp
qed

theorem keepalive_feeds_in_time_witness:
  "\<exists>t es1 es2 r1. 4 * (140000000 - t) \<le> ns_of_ms 300 \<and> [Wake 0, Wake 75000000, Other 140000000] = es1 @ Wake t # es2 \<and>
     ka_reachable sample_contracts watched_transport watched_start es1 r1 \<and>
     asked_watchdog sample_contracts (canned_transport sample_contracts (\<lambda>_. 0) (\<lambda>_. 0) undefined) watched_device
       (kr_session r1) (kr_session (wake sample_contracts watched_transport t r1))"
proof -
  let ?r = "watched_end\<lparr>kr_now := 140000000\<rparr>" and ?f = "hd (ka_fed (kr_keepalive watched_end))"
  have tr: "transport_contract (canned_transport sample_contracts (\<lambda>_. 0) (\<lambda>_. 0) undefined)"
    by (rule crumbs_tr.transport_contract_axioms)
  have wd: "dev_command_watchdog_ms watched_device = 300" by (simp add: watched_device_def)
  have f: "?f \<in> set (ka_fed (kr_keepalive ?r))" "\<not> fed_done ?f" "\<not> ka_capped (kr_keepalive ?r)" "\<not> ka_stopping (kr_keepalive ?r)"
    "\<forall>w. kr_feeder ?r = Waiting w \<longrightarrow> kr_now ?r \<le> w + 0" "4 \<le> dev_command_watchdog_ms (fed_device ?f)"
    by (simp_all add: watched_run wd)
  note keepalive_feeds_in_time [OF tr watched_run(1) f]
  moreover have "fed_device ?f = watched_device" "ns_of_ms (dev_command_watchdog_ms watched_device) = 300000000" "ns_of_ms 300 = 300000000"
    by (simp_all add: watched_run(3) wd ns_of_ms_def)
  ultimately show ?thesis by auto
qed

subsection \<open>The thread ends\<close>

definition wakes_left :: "'w ka_run \<Rightarrow> nat" where
  "wakes_left r = (case kr_feeder r of Waiting w \<Rightarrow> nat (ka_deadline (kr_keepalive r) - w) + 1 | _ \<Rightarrow> 0)"

fun is_wake :: "ka_event \<Rightarrow> bool" where
  "is_wake (Wake t) = True"
| "is_wake _ = False"

lemma wake_deadline [simp]: "ka_deadline (kr_keepalive (wake ct tr t r)) = ka_deadline (kr_keepalive r)"
  by (rule wake_cases [of r ct tr t]) simp_all

lemma wakes_left_wake:
  assumes "ka_inv r" "kr_feeder r = Waiting w" "w \<le> t \<or> ka_stopping (kr_keepalive r)"
  shows "wakes_left (wake ct tr t r) < wakes_left r"
proof (rule wake_cases [of r ct tr t])
  fix fs ss
  assume run: "\<not> ka_stopping (kr_keepalive r)" "t < ka_deadline (kr_keepalive r)"
    and fs: "fs = map (refed t) (ka_fed (kr_keepalive r))"
    and r': "wake ct tr t r = r\<lparr>kr_keepalive := (kr_keepalive r)\<lparr>ka_fed := fs\<rparr>, kr_session := ss, kr_now := t,
         kr_feeder := (case earliest (open_dues fs) of None \<Rightarrow> Finished
           | Some n \<Rightarrow> Waiting (min n (ka_deadline (kr_keepalive r))))\<rparr>"
  show ?thesis
  proof (cases "earliest (open_dues fs)")
    case (Some n)
    from earliest_dues(2) [OF Some] obtain f where "f \<in> set fs" "\<not> fed_done f" "n = fed_next_due f" by blast
    moreover from this have "0 < fed_interval f" using assms(1) by (auto simp: fs ka_inv_def)
    ultimately have "t < n" using refed_later by (auto simp: fs)
    with run assms(2,3) Some show ?thesis unfolding r' by (simp add: wakes_left_def min_def)
  qed (use assms(2) in \<open>simp add: r' wakes_left_def\<close>)
qed (use assms(2) in \<open>simp_all add: wakes_left_def\<close>)

lemma wakes_left_step:
  assumes "ka_step ct tr r e r'" "ka_inv r"
  shows "wakes_left r' + (if is_wake e then 1 else 0) \<le> wakes_left r"
  using assms
proof (induction rule: ka_step.induct)
  case (step_wake r w t)
  then show ?case using wakes_left_wake [of r w t ct tr] by simp
qed (simp_all add: wakes_left_def contacted_def split: feeder.splits)

lemma destroy_ends: "kr_feeder (destroy ct tr t r) \<noteq> Waiting w" "kr_session (destroy ct tr t r) = kr_session r"
  by (simp_all add: destroy_def wake_def Let_def split: feeder.splits)

lemma destroy_reachable:
  assumes "ka_reachable ct tr r0 es r"
  shows "kr_now r \<le> t \<Longrightarrow> \<exists>es'. ka_reachable ct tr r0 (es @ es') (destroy ct tr t r)"
proof -
  assume t: "kr_now r \<le> t"
  let ?r = "r\<lparr>kr_keepalive := (kr_keepalive r)\<lparr>ka_stopping := True\<rparr>\<rparr>"
  note stop = reach_step [OF assms step_stop]
  show ?thesis
  proof (cases "kr_feeder r")
    case (Waiting w)
    then have "ka_step ct tr ?r (Wake t) (wake ct tr t ?r)" using t by (intro step_wake [of _ w]) simp_all
    from reach_step [OF stop this] Waiting show ?thesis by (auto simp: destroy_def Let_def)
  qed (use stop in \<open>auto simp: destroy_def Let_def\<close>)
qed

text \<open>
  C22: the feeding thread ends. Whatever interleaves with it, it wakes only finitely often, at most
  once per nanosecond from arming to the cap and once more, and when it wakes at the cap or later, or after
  a stop, it returns. Destroying the keepalive, at any time, is such a run: the thread is gone after it and has
  not fed another device.
\<close>

theorem keepalive_thread_ends:
  assumes "ka_reachable ct tr (start now (new_keepalive ct devices cap armed_at) ss) es r"
  shows "length (filter is_wake es) \<le> nat cap + 1 \<and>
    (armed_at + cap \<le> t \<or> ka_stopping (kr_keepalive r) \<longrightarrow> kr_feeder (wake ct tr t r) = Finished) \<and>
    (let r' = destroy ct tr t r in (\<forall>w. kr_feeder r' \<noteq> Waiting w) \<and> kr_session r' = kr_session r \<and>
      (kr_now r \<le> t \<longrightarrow> (\<exists>es'. ka_reachable ct tr (start now (new_keepalive ct devices cap armed_at) ss) (es @ es') r')))"
proof -
  let ?r0 = "start now (new_keepalive ct devices cap armed_at) ss"
  from assms have "wakes_left r + length (filter is_wake es) \<le> wakes_left ?r0 \<and>
      ka_deadline (kr_keepalive r) = armed_at + cap"
  proof (induction)
    case (reach_step es r e r')
    have "ka_deadline (kr_keepalive r') = ka_deadline (kr_keepalive r)"
      using reach_step.hyps(2) by (induction rule: ka_step.induct) (simp_all add: contacted_def)
    with wakes_left_step [OF reach_step.hyps(2) ka_reachable_inv [OF reach_step.hyps(1)]] reach_step.IH
    show ?case by (auto split: if_splits)
  qed (simp add: start_def new_keepalive_def)
  moreover have "wakes_left ?r0 \<le> nat cap + 1"
    by (simp add: wakes_left_def start_def new_keepalive_def)
  moreover have "kr_feeder (wake ct tr t r) = Finished"
    if "ka_deadline (kr_keepalive r) \<le> t \<or> ka_stopping (kr_keepalive r)"
    using that by (auto simp: wake_def tick_spec)
  moreover note destroy_ends [of ct tr t r] destroy_reachable [OF assms, of t]
  ultimately show ?thesis by (simp add: Let_def)
qed

theorem keepalive_thread_ends_witness:
  "kr_feeder (wake sample_contracts (flaky_transport WriteFailed 5) 30000000000
     (start 0 watched_keepalive (new_session 2 sample_options))) = Finished"
  using keepalive_thread_ends [OF reach_init, where ct = sample_contracts and devices = "[watched_device]"
      and cap = kKeepaliveCap and armed_at = 0 and now = 0 and t = 30000000000
      and ss = "new_session 2 sample_options" and tr = "flaky_transport WriteFailed 5"]
  by (simp add: kKeepaliveCap_def ns_of_ms_def)

end
