(* ===== verification/Startup.thy ===== *)
theory Startup
  imports Keepalive
begin

text \<open>
  \<open>src/core/startup\<close>: probing one address, and the discovery pass that builds the inventory. The
  out-of-time test reads the steady clock before each address: \<open>clock i\<close> is what it reads before the \<open>i\<close>-th. A
  thrown \<open>std::runtime_error\<close> is the left of a sum. The log lines are not modelled. The properties: what makes an address
  supported, that discovery only asks, and that it accounts for every address before and after its deadline.
\<close>

subsection \<open>Probing one address\<close>

definition startup_hex_byte :: "u8 \<Rightarrow> string" where
  "startup_hex_byte v = ''0x'' @ hex_padded 2 (unat v)"

definition kStaleReplyAttempts :: nat where "kStaleReplyAttempts = 3"

fun query_reply_loop ::
  "'w transport \<Rightarrow> u8 \<Rightarrow> u8 \<Rightarrow> nat \<Rightarrow> session_status \<Rightarrow> raw_frame \<Rightarrow> 'w session \<Rightarrow>
   session_status \<times> raw_frame \<times> 'w session" where
  "query_reply_loop tr a p 0 st frame ss = (st, frame, ss)"
| "query_reply_loop tr a p (Suc n) st frame ss =
     (let (st', frame', ss') = query_read tr a p frame ss in
      if \<not> status_ok st' \<or> fr_opcode frame' = p then (st', frame', ss')
      else query_reply_loop tr a p n st' frame' ss')"

definition query_reply ::
  "'w transport \<Rightarrow> u8 \<Rightarrow> u8 \<Rightarrow> raw_frame \<Rightarrow> 'w session \<Rightarrow> session_status \<times> raw_frame \<times> 'w session" where
  "query_reply tr a p frame ss = query_reply_loop tr a p kStaleReplyAttempts success frame ss"

definition new_probe :: "u8 \<Rightarrow> probe_record" where
  "new_probe a =
     \<lparr>pr_address = uint a, pr_type_id = 0, pr_status = UnsupportedType, pr_version = zero_version,
      pr_profile = zero_profile, pr_detail = []\<rparr>"

definition probe_failed :: "probe_status \<Rightarrow> string \<Rightarrow> probe_record \<Rightarrow> probe_record" where
  "probe_failed status detail probe = probe\<lparr>pr_status := status, pr_detail := detail\<rparr>"

text \<open>The capability query of a supported module: best-effort, with the family's baseline for a fallback.\<close>

definition probe_caps ::
  "contracts \<Rightarrow> 'w transport \<Rightarrow> u8 \<Rightarrow> device_type \<Rightarrow> 'w session \<Rightarrow> capability_profile \<times> 'w session" where
  "probe_caps ct tr a ty ss =
     (let (st, frame, ss1) = query_reply tr a (byte_of ct BREAD_OP_GET_CAPS) empty_frame ss in
      if \<not> status_ok st \<or> fr_opcode frame \<noteq> byte_of ct BREAD_OP_GET_CAPS
      then (make_baseline_capability_profile ct ty, ss1)
      else case bread_caps_parse_payload ct (fr_payload frame) of
        Some (schema, level, flags) \<Rightarrow>
          (\<lparr>cp_schema = schema, cp_level = level, cp_flags = flags, cp_source = Queried\<rparr>, ss1)
      | None \<Rightarrow> (make_baseline_capability_profile ct ty, ss1))"

text \<open>The version reply, judged: the failed record, or the family and the record so far.\<close>

definition judge_version ::
  "contracts \<Rightarrow> session_status \<Rightarrow> raw_frame \<Rightarrow> probe_record \<Rightarrow> probe_record + device_type \<times> probe_record" where
  "judge_version ct st frame probe =
     (if \<not> status_ok st then
        Inl (probe_failed VersionReadFailed (''version query failed: '' @ st_message st) probe)
      else if fr_opcode frame \<noteq> 0 then
        Inl (probe_failed VersionReadFailed
          (''unexpected opcode in version reply: '' @ startup_hex_byte (fr_opcode frame)) probe)
      else
        let probe1 = probe\<lparr>pr_type_id := fr_type_id frame\<rparr> in
        case try_parse_bread_type ct (fr_type_id frame) of
          None \<Rightarrow>
            Inl (probe_failed UnsupportedType
              (''unknown BREAD type_id: '' @ startup_hex_byte (fr_type_id frame)) probe1)
        | Some ty \<Rightarrow>
            if length (fr_payload frame) < 5 then
              Inl (probe_failed VersionReadFailed
                (''version payload too short ('' @ nat_to_string (length (fr_payload frame)) @ '' bytes)'') probe1)
            else case bread_parse_version ct (fr_payload frame) of
              None \<Rightarrow> Inl (probe_failed VersionReadFailed ''failed to parse version payload'' probe1)
            | Some (crumbs_ver, major, minor, patch) \<Rightarrow>
                let v = \<lparr>crumbs_version = crumbs_ver, module_major = major, module_minor = minor,
                         module_patch = patch\<rparr>;
                    probe2 = probe1\<lparr>pr_version := v\<rparr>;
                    (compat, detail) = evaluate_version_compatibility ct (fr_type_id frame) v
                in if compat \<noteq> Supported then Inl (probe_failed compat detail probe2) else Inr (ty, probe2))"

definition probe_device :: "contracts \<Rightarrow> 'w transport \<Rightarrow> u8 \<Rightarrow> 'w session \<Rightarrow> probe_record \<times> 'w session" where
  "probe_device ct tr a ss =
     (let (st, frame, ss1) = query_reply tr a 0 empty_frame ss in
      case judge_version ct st frame (new_probe a) of
        Inl probe \<Rightarrow> (probe, ss1)
      | Inr (ty, probe) \<Rightarrow>
          let (profile, ss2) = probe_caps ct tr a ty ss1
          in (probe\<lparr>pr_profile := profile, pr_status := Supported, pr_detail := ''probed''\<rparr>, ss2))"

subsection \<open>The discovery pass\<close>

record discovery_result =
  dr_devices :: "inventory_device list"
  dr_unsupported_probes :: "probe_record list"
  dr_missing_expected_ids :: "string list"
  dr_missing_expected_details :: "string \<rightharpoonup> string"
  dr_inventory_mode :: string

definition out_of_time :: "int option \<Rightarrow> int \<Rightarrow> bool" where
  "out_of_time deadline now = (case deadline of None \<Rightarrow> False | Some t \<Rightarrow> t \<le> now)"

text \<open>
  The probing loop over the addresses, each as the \<open>int\<close> it is reported with and the byte that is
  probed: the probes, the addresses left out, the session.
\<close>

fun probe_all ::
  "contracts \<Rightarrow> 'w transport \<Rightarrow> int option \<Rightarrow> (nat \<Rightarrow> int) \<Rightarrow> (int \<times> u8) list \<Rightarrow> 'w session \<Rightarrow>
   probe_record list \<times> int list \<times> 'w session" where
  "probe_all ct tr deadline clock [] ss = ([], [], ss)"
| "probe_all ct tr deadline clock ((addr, a) # rest) ss =
     (if out_of_time deadline (clock 0) then
        let (ps, un, ss') = probe_all ct tr deadline (\<lambda>i. clock (Suc i)) rest ss in (ps, addr # un, ss')
      else
        let (p, ss1) = probe_device ct tr a ss;
            (ps, un, ss') = probe_all ct tr deadline (\<lambda>i. clock (Suc i)) rest ss1
        in (p # ps, un, ss'))"

definition not_probed_detail :: string where
  "not_probed_detail = ''not probed: the start-up budget was spent''"

definition mark_unprobed :: "int list \<Rightarrow> device_spec list \<Rightarrow> (string \<rightharpoonup> string) \<Rightarrow> string \<rightharpoonup> string" where
  "mark_unprobed unprobed specs details =
     fold (\<lambda>s m. if spec_address s \<in> set unprobed then m(spec_id s \<mapsto> not_probed_detail) else m) specs details"

definition finish_discovery ::
  "contracts \<Rightarrow> (string \<Rightarrow> nat \<Rightarrow> string) \<Rightarrow> provider_config \<Rightarrow> probe_record list \<Rightarrow> int list \<Rightarrow>
   inventory_source \<Rightarrow> discovery_result" where
  "finish_discovery ct claim_key c probes unprobed source =
     (let build = build_inventory_from_probes ct claim_key c probes source
      in \<lparr>dr_devices = supported_devices build, dr_unsupported_probes = unsupported_probes build,
          dr_missing_expected_ids = missing_expected_ids build,
          dr_missing_expected_details =
            (if unprobed \<noteq> [] then mark_unprobed unprobed (config_devices c) (missing_expected_details build)
             else missing_expected_details build),
          dr_inventory_mode = inventory_source_to_string source\<rparr>)"

definition run_discovery ::
  "contracts \<Rightarrow> (string \<Rightarrow> nat \<Rightarrow> string) \<Rightarrow> 'w transport \<Rightarrow> provider_config \<Rightarrow> int option \<Rightarrow> (nat \<Rightarrow> int) \<Rightarrow> 'w session \<Rightarrow>
   (string + discovery_result) \<times> 'w session" where
  "run_discovery ct claim_key tr c deadline clock ss =
     (if mode_of_discovery c = Scan then
        let (st, results, ss1) = session_scan tr default_scan_options [] ss in
        if \<not> status_ok st then (Inl (''CRUMBS bus scan failed: '' @ st_message st), ss1)
        else
          let (probes, unprobed, ss2) =
                probe_all ct tr deadline clock (map (\<lambda>r. (uint (sr_address r), sr_address r)) results) ss1
          in (Inr (finish_discovery ct claim_key c probes unprobed Discovered), ss2)
      else
        let (probes, unprobed, ss1) =
              probe_all ct tr deadline clock (map (\<lambda>addr. (addr, word_of_int addr)) (manual_addresses c)) ss
        in (Inr (finish_discovery ct claim_key c probes unprobed ManualSource), ss1))"

subsection \<open>Discovery only asks\<close>

fun is_send :: "bus_event \<Rightarrow> bool" where
  "is_send (EvSend a f) = True"
| "is_send _ = False"

text \<open>The traffic between two states of a session is queries alone, with at most \<open>n\<close> writes.\<close>

definition asked :: "('w \<times> bus_event list) session \<Rightarrow> int \<Rightarrow> ('w \<times> bus_event list) session \<Rightarrow> bool" where
  "asked ss n ss' \<longleftrightarrow> s_options ss' = s_options ss \<and>
     (\<exists>es. snd (s_transport ss') = snd (s_transport ss) @ es \<and>
        (\<forall>a g. EvSend a g \<in> set es \<longrightarrow> (\<exists>p. g = query_frame p)) \<and> int (length (filter is_send es)) \<le> n)"

lemma asked_refl [simp]: "0 \<le> n \<Longrightarrow> asked ss n ss"
  by (simp add: asked_def)

lemma asked_trans: "asked ss m ss1 \<Longrightarrow> asked ss1 n ss2 \<Longrightarrow> m + n \<le> k \<Longrightarrow> asked ss k ss2"
  unfolding asked_def by (elim conjE exE, intro conjI) (auto intro!: exI [of _ "_ @ _"])

lemma asked_mono: "asked ss m ss' \<Longrightarrow> m \<le> n \<Longrightarrow> asked ss n ss'"
  unfolding asked_def by fastforce

lemma query_read_asked:
  assumes "query_read (traced tr) a p g ss = (st, out, ss')"
  shows "asked ss (max_attempts (s_options ss)) ss'"
proof -
  from query_read_traffic [OF assms] obtain bs where bs: "int (length bs) = st_attempts st"
    "set bs \<subseteq> {full_query (s_options ss) a p, [EvSend a (query_frame p)]}"
    "snd (s_transport ss') = snd (s_transport ss) @ concat bs" by blast
  have "length (filter is_send (concat bs)) = length bs"
    using bs(2) by (induction bs) (auto simp: full_query_def)
  moreover have "st_attempts st \<le> max_attempts (s_options ss)"
    using query_read_cases [OF assms] execute_with_retry_attempts(2) max_attempts_pos [of "s_options ss"]
    by (auto simp: not_io_def)
  moreover have "\<exists>p. g = query_frame p" if "EvSend b g \<in> set (concat bs)" for b g
    using that bs(2) by (auto simp: full_query_def dest!: subsetD)
  ultimately show ?thesis
    using bs query_read_options [OF assms] by (auto simp: asked_def)
qed

lemma query_reply_loop_asked:
  assumes "query_reply_loop (traced tr) a p n st g ss = (st', g', ss')"
  shows "asked ss (int n * max_attempts (s_options ss)) ss'"
  using assms
proof (induction n arbitrary: st g ss)
  case (Suc n)
  obtain st1 g1 ss1 where q: "query_read (traced tr) a p g ss = (st1, g1, ss1)" by (metis prod_cases3)
  have m: "0 \<le> int n * max_attempts (s_options ss)" using max_attempts_pos [of "s_options ss"] by simp
  show ?case
  proof (cases "\<not> status_ok st1 \<or> fr_opcode g1 = p")
    case True
    with Suc.prems q have "ss' = ss1" by simp
    with query_read_asked [OF q] m show ?thesis by (auto intro: asked_mono simp: distrib_right)
  next
    case False
    with Suc.prems q have "query_reply_loop (traced tr) a p n st1 g1 ss1 = (st', g', ss')" by simp
    from Suc.IH [OF this] query_read_options [OF q] query_read_asked [OF q] show ?thesis
      by (auto intro: asked_trans simp: distrib_right)
  qed
qed simp

lemma query_reply_asked:
  "query_reply (traced tr) a p g ss = (st, g', ss') \<Longrightarrow> asked ss (3 * max_attempts (s_options ss)) ss'"
  using query_reply_loop_asked [of tr a p 3] by (simp add: query_reply_def kStaleReplyAttempts_def)

lemma asked_options: "asked ss n ss' \<Longrightarrow> s_options ss' = s_options ss"
  by (simp add: asked_def)

lemma probe_device_asked:
  assumes "probe_device ct (traced tr) a ss = (p, ss')"
  shows "asked ss (6 * max_attempts (s_options ss)) ss'"
proof -
  obtain st g ss1 where q: "query_reply (traced tr) a 0 empty_frame ss = (st, g, ss1)" by (metis prod_cases3)
  note asked1 = query_reply_asked [OF q]
  show ?thesis
  proof (cases "judge_version ct st g (new_probe a)")
    case (Inl p')
    with assms q have "ss' = ss1" by (simp add: probe_device_def)
    with asked1 show ?thesis using max_attempts_pos [of "s_options ss"] by (auto elim: asked_mono)
  next
    case (Inr x)
    obtain st2 g2 ss2 where c: "query_reply (traced tr) a (byte_of ct BREAD_OP_GET_CAPS) empty_frame ss1 = (st2, g2, ss2)"
      by (metis prod_cases3)
    have "snd (probe_caps ct (traced tr) a ty ss1) = ss2" for ty
      by (simp add: probe_caps_def c split: option.splits)
    then have "ss' = ss2"
      using assms q Inr by (auto simp: probe_device_def split: prod.splits) (metis snd_conv)
    with asked_trans [OF asked1 query_reply_asked [OF c]] asked_options [OF asked1] show ?thesis by simp
  qed
qed

lemma probe_all_asked:
  assumes "probe_all ct (traced tr) deadline clock addrs ss = (ps, un, ss')"
  shows "asked ss (int (length ps) * (6 * max_attempts (s_options ss))) ss'"
  using assms
proof (induction addrs arbitrary: clock ss ps un)
  case (Cons x addrs)
  obtain addr a where x: "x = (addr, a)" by fastforce
  show ?case
  proof (cases "out_of_time deadline (clock 0)")
    case True
    with Cons.prems x show ?thesis using Cons.IH by (auto split: prod.splits)
  next
    case False
    obtain p ss1 where p: "probe_device ct (traced tr) a ss = (p, ss1)" by fastforce
    obtain ps1 un1 where r: "probe_all ct (traced tr) deadline (\<lambda>i. clock (Suc i)) addrs ss1 = (ps1, un1, ss')" "ps = p # ps1"
      using Cons.prems x False p by (auto split: prod.splits)
    from asked_trans [OF probe_device_asked [OF p] Cons.IH [OF r(1)]] asked_options [OF probe_device_asked [OF p]] r(2)
    show ?thesis by (simp add: algebra_simps)
  qed
qed simp

lemma session_scan_asked:
  assumes "session_scan (traced tr) o' out ss = (st, out', ss')"
  shows "asked ss 0 ss'"
proof (cases "status_ok (validate_scan_options o') \<and> tr_is_open tr (fst (s_transport ss))")
  case True
  obtain w where run: "execute_with_retry (s_options ss) ''scan'' (\<lambda>(out, w). tr_scan (traced tr) o' out w)
      ([], s_transport ss) = (st, out', w)" and ss': "ss' = ss\<lparr>s_transport := w\<rparr>"
    using assms True by (auto simp: session_scan_def Let_def split: prod.splits)
  have "\<exists>bs. int (length bs) = st_attempts st \<and> last bs = [EvScan o'] \<and>
     (\<forall>b \<in> set (butlast bs). \<exists>st. \<not> status_ok st \<and> b = [EvScan o']) \<and>
     snd (snd (out', w)) = snd (snd ([] :: scan_result list, s_transport ss)) @ concat bs"
    by (rule execute_with_retry_blocks [OF _ _ run, where ev = "\<lambda>x. snd (snd x)"])
      (auto simp: traced_def split: prod.splits)
  then obtain bs where bs: "last bs = [EvScan o']" "\<forall>b \<in> set (butlast bs). b = [EvScan o']"
     "snd w = snd (s_transport ss) @ concat bs" by auto
  then have "\<forall>b \<in> set bs. b = [EvScan o']"
    by (metis append_butlast_last_id empty_iff empty_set in_set_conv_decomp insert_iff list.simps(15) set_append Un_iff)
  then have "\<forall>e \<in> set (concat bs). e = EvScan o' \<and> \<not> is_send e" by auto
  then show ?thesis using bs(3) by (auto simp: asked_def ss' filter_empty_conv intro!: exI [of _ "concat bs"])
next
  case False
  with assms show ?thesis by (auto simp: session_scan_def Let_def split: if_splits)
qed


subsection \<open>The verdict on one address\<close>

lemma judge_version_address:
  "(case judge_version ct st g probe of Inl p \<Rightarrow> pr_address p | Inr (ty, p) \<Rightarrow> pr_address p) = pr_address probe"
  by (auto simp: judge_version_def Let_def probe_failed_def split: option.splits prod.splits)

lemma probe_device_address: "probe_device ct tr a ss = (p, ss') \<Longrightarrow> pr_address p = uint a"
  using judge_version_address [of ct _ _ "new_probe a"]
  by (fastforce simp: probe_device_def new_probe_def split: prod.splits sum.splits)

text \<open>
  Queries that were answered with a frame for another opcode, and the reply after fewer than three of them: the
  frame and the session after it.
\<close>

inductive stale_replies ::
  "'w transport \<Rightarrow> u8 \<Rightarrow> u8 \<Rightarrow> nat \<Rightarrow> raw_frame \<Rightarrow> 'w session \<Rightarrow> raw_frame \<Rightarrow> 'w session \<Rightarrow> bool"
  for tr :: "'w transport" and a :: u8 and p :: u8 where
  none_stale: "stale_replies tr a p 0 g ss g ss"
| one_stale: "query_read tr a p g ss = (st, g1, ss1) \<Longrightarrow> status_ok st \<Longrightarrow> fr_opcode g1 \<noteq> p \<Longrightarrow>
    stale_replies tr a p n g1 ss1 g2 ss2 \<Longrightarrow> stale_replies tr a p (Suc n) g ss g2 ss2"

inductive_simps stale_replies_simps:
  "stale_replies tr a p 0 g ss g' ss'" "stale_replies tr a p (Suc n) g ss g' ss'"

definition answered_after ::
  "'w transport \<Rightarrow> u8 \<Rightarrow> u8 \<Rightarrow> nat \<Rightarrow> raw_frame \<Rightarrow> 'w session \<Rightarrow> raw_frame \<Rightarrow> 'w session \<Rightarrow> bool" where
  "answered_after tr a p n g ss frame ss' \<longleftrightarrow>
     (\<exists>g1 ss1 st. stale_replies tr a p n g ss g1 ss1 \<and> query_read tr a p g1 ss1 = (st, frame, ss') \<and>
        status_ok st \<and> fr_opcode frame = p)"

definition answered :: "'w transport \<Rightarrow> u8 \<Rightarrow> u8 \<Rightarrow> 'w session \<Rightarrow> raw_frame \<Rightarrow> 'w session \<Rightarrow> bool" where
  "answered tr a p ss frame ss' \<longleftrightarrow> (\<exists>n < 3. answered_after tr a p n empty_frame ss frame ss')"

lemma query_reply_loop_answered:
  "fr_opcode g \<noteq> p \<or> 0 < n \<Longrightarrow>
   (\<exists>m < n. answered_after tr a p m g ss frame ss') \<longleftrightarrow>
   (\<exists>st. query_reply_loop tr a p n st0 g ss = (st, frame, ss') \<and> status_ok st \<and> fr_opcode frame = p)"
proof (induction n arbitrary: st0 g ss)
  case (Suc n)
  obtain st g1 ss1 where q: "query_read tr a p g ss = (st, g1, ss1)" by (metis prod_cases3)
  have zero: "answered_after tr a p 0 g ss frame ss' \<longleftrightarrow> status_ok st \<and> fr_opcode g1 = p \<and> frame = g1 \<and> ss' = ss1"
    by (auto simp: answered_after_def stale_replies_simps q)
  have step: "answered_after tr a p (Suc m) g ss frame ss' \<longleftrightarrow>
      status_ok st \<and> fr_opcode g1 \<noteq> p \<and> answered_after tr a p m g1 ss1 frame ss'" for m
    by (auto simp: answered_after_def stale_replies_simps q)
  show ?case
  proof (cases "\<not> status_ok st \<or> fr_opcode g1 = p")
    case True
    then show ?thesis by (auto simp: Ex_less_Suc2 zero step q)
  next
    case False
    with Suc.IH [of g1 ss1 st] show ?thesis by (simp add: Ex_less_Suc2 zero step q)
  qed
qed (auto simp: answered_after_def)

lemma query_reply_answered:
  "answered tr a p ss frame ss' \<longleftrightarrow>
     (\<exists>st. query_reply tr a p empty_frame ss = (st, frame, ss') \<and> status_ok st \<and> fr_opcode frame = p)"
  unfolding answered_def query_reply_def kStaleReplyAttempts_def by (rule query_reply_loop_answered) simp

text \<open>The version of the family's module this build expects.\<close>

fun family_version :: "contracts \<Rightarrow> device_type \<Rightarrow> u8 \<times> u8" where
  "family_version ct Rlht = (byte_of ct RLHT_MODULE_VER_MAJOR, byte_of ct RLHT_MODULE_VER_MINOR)"
| "family_version ct Dcmt = (byte_of ct DCMT_MODULE_VER_MAJOR, byte_of ct DCMT_MODULE_VER_MINOR)"

lemma expected_family_version:
  "try_parse_bread_type ct t = Some ty \<Longrightarrow> expected_module_version ct t = family_version ct ty"
  by (auto simp: try_parse_bread_type_def expected_module_version_def split: if_splits)

text \<open>A frame that shows a module of the family this build can drive, with its version.\<close>

definition shows_module :: "contracts \<Rightarrow> raw_frame \<Rightarrow> device_type \<Rightarrow> module_version \<Rightarrow> bool" where
  "shows_module ct frame ty v \<longleftrightarrow>
     try_parse_bread_type ct (fr_type_id frame) = Some ty \<and> 5 \<le> length (fr_payload frame) \<and>
     bread_parse_version ct (fr_payload frame) =
       Some (crumbs_version v, module_major v, module_minor v, module_patch v) \<and>
     bread_check_crumbs_compat ct (crumbs_version v) \<and> fst (family_version ct ty) \<noteq> 0 \<and>
     bread_check_module_compat ct (module_major v) (module_minor v) (fst (family_version ct ty)) (snd (family_version ct ty))"

lemma judge_version_supported:
  assumes "status_ok st" "fr_opcode frame = 0"
  shows "case judge_version ct st frame probe of
      Inl probe' \<Rightarrow> pr_status probe' \<noteq> Supported \<and> (\<forall>ty v. \<not> shows_module ct frame ty v)
    | Inr (ty, probe') \<Rightarrow> \<exists>v. shows_module ct frame ty v \<and> probe' = probe\<lparr>pr_type_id := fr_type_id frame, pr_version := v\<rparr>"
proof (cases "try_parse_bread_type ct (fr_type_id frame)")
  case None
  with assms show ?thesis by (simp add: judge_version_def probe_failed_def shows_module_def)
next
  case (Some ty)
  note fam = expected_family_version [OF Some]
  show ?thesis
  proof (cases "bread_parse_version ct (fr_payload frame)")
    case None
    with assms Some show ?thesis by (simp add: judge_version_def probe_failed_def shows_module_def Let_def)
  next
    case ver: (Some x)
    obtain cv mj mn pt where x: "x = (cv, mj, mn, pt)" by (metis prod_cases4)
    let ?v = "\<lparr>crumbs_version = cv, module_major = mj, module_minor = mn, module_patch = pt\<rparr>"
    have same: "crumbs_version w = cv \<and> module_major w = mj \<and> module_minor w = mn \<and> module_patch w = pt \<longleftrightarrow> w = ?v" for w
      by auto
    have shows': "shows_module ct frame ty' w \<longleftrightarrow> ty' = ty \<and> 5 \<le> length (fr_payload frame) \<and> w = ?v \<and>
        fst (evaluate_version_compatibility ct (fr_type_id frame) ?v) = Supported" for ty' w
      using Some ver x same [of w]
      by (auto simp: shows_module_def fam evaluate_version_compatibility_def evaluate_module_version_def Let_def)
    show ?thesis
      using assms Some ver x
      by (auto simp: judge_version_def probe_failed_def shows' Let_def split: prod.splits if_splits)
  qed
qed

text \<open>
  C35: the verdict on one address. A device is supported exactly when one of the first three version queries is answered in time
  with a version frame (stale frames for another opcode before it do not count against it), of a family this build knows, with a
  readable version of at least five bytes that passes the CRUMBS check and the module check against that
  family's major and minor. Then it is recorded under its family and version; its capabilities are those of a readable
  answer to one of three capability queries, and without one the baseline of its family: a
  silent or stale capability reply never excludes a device.
\<close>

theorem probe_verdict:
  assumes "probe_device ct tr a ss = (probe, ss')"
  shows "pr_address probe = uint a \<and>
    (pr_status probe = Supported \<longleftrightarrow> (\<exists>frame ss1 ty v. answered tr a 0 ss frame ss1 \<and> shows_module ct frame ty v)) \<and>
    (\<forall>frame ss1 ty v. answered tr a 0 ss frame ss1 \<and> shows_module ct frame ty v \<longrightarrow>
       pr_type_id probe = bread_type_id ct ty \<and> pr_version probe = v \<and>
       (\<forall>reply ss2 schema level flags. answered tr a (byte_of ct BREAD_OP_GET_CAPS) ss1 reply ss2 \<and>
          bread_caps_parse_payload ct (fr_payload reply) = Some (schema, level, flags) \<longrightarrow>
          pr_profile probe = \<lparr>cp_schema = schema, cp_level = level, cp_flags = flags, cp_source = Queried\<rparr>) \<and>
       ((\<nexists>reply ss2 caps. answered tr a (byte_of ct BREAD_OP_GET_CAPS) ss1 reply ss2 \<and>
          bread_caps_parse_payload ct (fr_payload reply) = Some caps) \<longrightarrow>
          pr_profile probe = make_baseline_capability_profile ct ty))"
proof -
  obtain st frame ss1 where q: "query_reply tr a 0 empty_frame ss = (st, frame, ss1)" by (metis prod_cases3)
  have answer: "answered tr a 0 ss f s \<longleftrightarrow> status_ok st \<and> fr_opcode frame = 0 \<and> f = frame \<and> s = ss1" for f s
    by (auto simp: query_reply_answered q)
  note address = probe_device_address [OF assms]
  show ?thesis
  proof (cases "status_ok st \<and> fr_opcode frame = 0")
    case False
    then have "pr_status probe \<noteq> Supported"
      using assms by (auto simp: probe_device_def q judge_version_def probe_failed_def split: if_splits)
    moreover from False have "\<not> answered tr a 0 ss f s" for f s by (auto simp: answer)
    ultimately show ?thesis using address by simp
  next
    case True
    note judged = judge_version_supported [where ct = ct and probe = "new_probe a", OF conjunct1 [OF True] conjunct2 [OF True]]
    show ?thesis
    proof (cases "judge_version ct st frame (new_probe a)")
      case (Inl p)
      with assms q judged have "pr_status probe \<noteq> Supported" "\<forall>ty v. \<not> shows_module ct frame ty v"
        by (auto simp: probe_device_def)
      with address show ?thesis by (simp add: answer)
    next
      case (Inr x)
      obtain ty p where x: "x = (ty, p)" by fastforce
      from judged Inr x obtain v where v: "shows_module ct frame ty v"
        "p = (new_probe a)\<lparr>pr_type_id := fr_type_id frame, pr_version := v\<rparr>" by auto
      obtain st2 reply ss2 where c: "query_reply tr a (byte_of ct BREAD_OP_GET_CAPS) empty_frame ss1 = (st2, reply, ss2)"
        by (metis prod_cases3)
      have caps: "answered tr a (byte_of ct BREAD_OP_GET_CAPS) ss1 f s \<longleftrightarrow>
          status_ok st2 \<and> fr_opcode reply = byte_of ct BREAD_OP_GET_CAPS \<and> f = reply \<and> s = ss2" for f s
        by (auto simp: query_reply_answered c)
      have probe: "probe = p\<lparr>pr_profile := fst (probe_caps ct tr a ty ss1), pr_status := Supported, pr_detail := ''probed''\<rparr>"
        using assms by (auto simp: probe_device_def q Inr x split: prod.splits)
      have unique: "ty' = ty \<and> w = v" if "shows_module ct frame ty' w" for ty' w
        using that v(1) by (auto simp: shows_module_def)
      have type: "fr_type_id frame = bread_type_id ct ty"
        using v(1) by (intro try_parse_bread_type_Some) (simp add: shows_module_def)
      have queried: "pr_profile probe = \<lparr>cp_schema = schema, cp_level = level, cp_flags = flags, cp_source = Queried\<rparr>"
        if "answered tr a (byte_of ct BREAD_OP_GET_CAPS) ss1 f s" "bread_caps_parse_payload ct (fr_payload f) = Some (schema, level, flags)"
        for f s schema level flags
        using that by (simp add: caps probe_caps_def c probe)
      have baseline: "pr_profile probe = make_baseline_capability_profile ct ty"
        if "\<nexists>f s caps. answered tr a (byte_of ct BREAD_OP_GET_CAPS) ss1 f s \<and> bread_caps_parse_payload ct (fr_payload f) = Some caps"
        using that by (auto simp: caps probe_caps_def c probe split: option.splits)
      have "pr_status probe = Supported" "pr_type_id probe = bread_type_id ct ty" "pr_version probe = v"
        by (simp_all add: probe v(2) type)
      with answer True v(1) unique queried baseline address show ?thesis by metis
    qed
  qed
qed

text \<open>A bus that reads the frames of a script, one after the other.\<close>

definition scripted :: "raw_frame list transport" where
  "scripted =
     \<lparr>tr_open = (\<lambda>_ w. (success, w)), tr_close = (\<lambda>w. w), tr_is_open = (\<lambda>_. True), tr_scan = (\<lambda>_ out w. (success, out, w)),
      tr_send = (\<lambda>_ _ w. (success, w)), tr_read = (\<lambda>_ _ f w. (success, hd w, tl w)), tr_delay_us = (\<lambda>_ w. w),
      system_now = (\<lambda>_. 0), steady_now = (\<lambda>_. 0)\<rparr>"

lemma scripted_query:
  assumes "status_ok (validate_address a)" "s_transport ss = f # fs"
  shows "\<exists>ss'. query_read scripted a p g ss = (success\<lparr>st_attempts := 1\<rparr>, f, ss') \<and> s_transport ss' = fs"
  using assms max_attempts_pos [of "s_options ss"]
  by (simp add: query_read_def scripted_def execute_with_retry_def retry_loop.simps [of _ _ 1] query_attempt_def
      read_timeout_us_def Let_def)

theorem probe_verdict_witness:
  "pr_status (fst (probe_device sample_contracts scripted 20 (new_session
     [\<lparr>fr_type_id = 2, fr_opcode = 7, fr_payload = []\<rparr>, \<lparr>fr_type_id = 2, fr_opcode = 0, fr_payload = [64, 6, 2, 0, 0]\<rparr>] sample_options)))
   = Supported"
proof -
  let ?stale = "\<lparr>fr_type_id = 2, fr_opcode = 7, fr_payload = []\<rparr>"
  let ?frame = "\<lparr>fr_type_id = 2, fr_opcode = 0, fr_payload = [64, 6, 2, 0, 0]\<rparr>"
  let ?ss = "new_session [?stale, ?frame] sample_options"
  have a: "status_ok (validate_address 20)" by (simp add: validate_address_def kMinI2cAddress_def kMaxI2cAddress_def)
  obtain ss1 where 1: "query_read scripted 20 0 empty_frame ?ss = (success\<lparr>st_attempts := 1\<rparr>, ?stale, ss1)" "s_transport ss1 = [?frame]"
    using scripted_query [OF a, of ?ss ?stale "[?frame]"] by (auto simp: new_session_def)
  obtain ss2 where 2: "query_read scripted 20 0 ?stale ss1 = (success\<lparr>st_attempts := 1\<rparr>, ?frame, ss2)"
    using scripted_query [OF a 1(2)] by blast
  have ok: "status_ok (success\<lparr>st_attempts := 1\<rparr>)" by (simp add: status_ok_def success_def)
  have "stale_replies scripted 20 0 (Suc 0) empty_frame ?ss ?stale ss1"
    by (rule one_stale [OF 1(1) ok _ none_stale]) simp
  with 2 ok have "answered_after scripted 20 0 (Suc 0) empty_frame ?ss ?frame ss2" unfolding answered_after_def
    by (intro exI [of _ ?stale] exI [of _ ss1] exI [of _ "success\<lparr>st_attempts := 1\<rparr>"]) simp
  then have answer: "answered scripted 20 0 ?ss ?frame ss2" unfolding answered_def by (intro exI [of _ "Suc 0"]) simp
  have shown: "shows_module sample_contracts ?frame Dcmt
      \<lparr>crumbs_version = 1600, module_major = 2, module_minor = 0, module_patch = 0\<rparr>"
    by (simp add: shows_module_def try_parse_bread_type_def) (simp add: sample_contracts_def le_value_def)
  obtain probe ss' where p: "probe_device sample_contracts scripted 20 ?ss = (probe, ss')" by fastforce
  from probe_verdict [OF p] answer shown show ?thesis unfolding p fst_conv by blast
qed

subsection \<open>Discovery accounts for every address\<close>

text \<open>On a clock that never goes back, what is left out is a tail of the addresses.\<close>

lemma probe_all_out_of_time:
  "(\<And>i. out_of_time deadline (clock i)) \<Longrightarrow> probe_all ct tr deadline clock xs ss = ([], map fst xs, ss)"
  by (induction xs arbitrary: clock) auto

lemma out_of_time_mono: "out_of_time deadline now \<Longrightarrow> now \<le> later \<Longrightarrow> out_of_time deadline later"
  by (auto simp: out_of_time_def split: option.splits)

lemma probe_all_split:
  assumes "probe_all ct tr deadline clock xs ss = (ps, un, ss')" "\<forall>(addr, a) \<in> set xs. uint a = addr" "mono clock"
  shows "\<exists>n. map pr_address ps = take n (map fst xs) \<and> un = drop n (map fst xs) \<and>
    (\<forall>i < length xs. out_of_time deadline (clock i) \<longleftrightarrow> n \<le> i)"
  using assms
proof (induction xs arbitrary: clock ss ps)
  case (Cons x xs)
  obtain addr a where x: "x = (addr, a)" by fastforce
  show ?case
  proof (cases "out_of_time deadline (clock 0)")
    case True
    then have late: "out_of_time deadline (clock i)" for i using Cons.prems(3) by (blast intro: out_of_time_mono dest: monoD)
    from Cons.prems(1) have "ps = []" "un = map fst (x # xs)"
      unfolding probe_all_out_of_time [of deadline clock, OF late] by simp_all
    with late show ?thesis by (intro exI [of _ 0]) simp
  next
    case False
    obtain p ss1 where p: "probe_device ct tr a ss = (p, ss1)" by fastforce
    obtain ps1 where r: "probe_all ct tr deadline (\<lambda>i. clock (Suc i)) xs ss1 = (ps1, un, ss')" "ps = p # ps1"
      using Cons.prems x False p by (auto split: prod.splits)
    have "mono (\<lambda>i. clock (Suc i))" using Cons.prems(3) by (auto simp: mono_def)
    with Cons.IH [OF r(1)] Cons.prems(2) obtain n where
      "map pr_address ps1 = take n (map fst xs)" "un = drop n (map fst xs)"
      "\<forall>i < length xs. out_of_time deadline (clock (Suc i)) \<longleftrightarrow> n \<le> i" by auto
    with r(2) probe_device_address [OF p] Cons.prems(2) x False show ?thesis
      by (intro exI [of _ "Suc n"]) (auto simp: less_Suc_eq_0_disj)
  qed
qed simp

lemma mark_unprobed_apply:
  assumes "distinct (map spec_id specs)" "s \<in> set specs"
  shows "mark_unprobed un specs m (spec_id s) =
    (if spec_address s \<in> set un then Some not_probed_detail else m (spec_id s))"
proof -
  have other: "mark_unprobed un specs m i = m i" if "i \<notin> spec_id ` set specs" for i m specs
    using that by (induction specs arbitrary: m) (auto simp: mark_unprobed_def)
  from assms show ?thesis
  proof (induction specs arbitrary: m)
    case (Cons t specs)
    have step: "mark_unprobed un (t # specs) m =
        mark_unprobed un specs (if spec_address t \<in> set un then m(spec_id t \<mapsto> not_probed_detail) else m)"
      by (simp add: mark_unprobed_def)
    show ?case
    proof (cases "s = t")
      case True
      with Cons.prems show ?thesis by (simp add: step other)
    next
      case False
      with Cons.prems have "s \<in> set specs" "spec_id t \<noteq> spec_id s" by force+
      with Cons.IH Cons.prems(1) show ?thesis by (simp add: step)
    qed
  qed simp
qed

lemma finish_discovery_missing:
  assumes "distinct (map spec_address (config_devices c))"
  shows "mset (map dev_address (dr_devices (finish_discovery ct ck c probes un src))) +
      mset (map pr_address (dr_unsupported_probes (finish_discovery ct ck c probes un src))) =
      mset (map pr_address probes)"
    and "dr_missing_expected_ids (finish_discovery ct ck c probes un src) = map spec_id (filter
      (\<lambda>s. spec_address s \<notin> dev_address ` set (dr_devices (finish_discovery ct ck c probes un src))) (config_devices c))"
proof -
  note inv = inventory_inv_result [of c probes ct ck src]
  show "mset (map dev_address (dr_devices (finish_discovery ct ck c probes un src))) +
      mset (map pr_address (dr_unsupported_probes (finish_discovery ct ck c probes un src))) =
      mset (map pr_address probes)"
    using inv unfolding inventory_inv_def
    by (simp add: finish_discovery_def build_inventory_from_probes_def Let_def)
  show "dr_missing_expected_ids (finish_discovery ct ck c probes un src) = map spec_id (filter
      (\<lambda>s. spec_address s \<notin> dev_address ` set (dr_devices (finish_discovery ct ck c probes un src))) (config_devices c))"
    using missing_specs [OF inv assms] by (simp add: finish_discovery_def build_inventory_from_probes_def Let_def)
qed

text \<open>The addresses a discovery looks at, unless the scan that finds them fails.\<close>

definition listed_addresses :: "'w transport \<Rightarrow> provider_config \<Rightarrow> 'w session \<Rightarrow> int list option" where
  "listed_addresses tr c ss =
     (if mode_of_discovery c = Scan then
        let (st, results, ss1) = session_scan tr default_scan_options [] ss
        in if status_ok st then Some (map (\<lambda>r. uint (sr_address r)) results) else None
      else Some (manual_addresses c))"

text \<open>
  What a discovery reports of the addresses it looked at: the first \<open>n\<close>, each looked at before the deadline, were probed; the others
  were left out, the deadline having passed before each of them.
\<close>

definition accounts_for ::
  "provider_config \<Rightarrow> int option \<Rightarrow> (nat \<Rightarrow> int) \<Rightarrow> int list \<Rightarrow> discovery_result \<Rightarrow> bool" where
  "accounts_for c deadline clock addresses r \<longleftrightarrow>
     (\<exists>n. (\<forall>i < length addresses. if i < n then (\<forall>t. deadline = Some t \<longrightarrow> clock i < t)
            else (\<exists>t. deadline = Some t \<and> t \<le> clock i)) \<and>
        mset (map dev_address (dr_devices r)) + mset (map pr_address (dr_unsupported_probes r)) = mset (take n addresses) \<and>
        (\<forall>s \<in> set (config_devices c). spec_address s \<in> set (drop n addresses) \<longrightarrow>
           spec_id s \<in> set (dr_missing_expected_ids r) \<and>
           dr_missing_expected_details r (spec_id s) = Some not_probed_detail)) \<and>
     dr_missing_expected_ids r = map spec_id
       (filter (\<lambda>s. spec_address s \<notin> dev_address ` set (dr_devices r)) (config_devices c))"

lemma probes_account:
  assumes "distinct (map spec_address (config_devices c))" "distinct (map spec_id (config_devices c))"
    and "probe_all ct tr deadline clock xs ss = (ps, un, ss')" "\<forall>(addr, a) \<in> set xs. uint a = addr" "distinct (map fst xs)"
    and "mono clock"
  shows "accounts_for c deadline clock (map fst xs) (finish_discovery ct claim_key c ps un src)"
proof -
  let ?r = "finish_discovery ct claim_key c ps un src" and ?as = "map fst xs"
  from probe_all_split [OF assms(3,4,6)] obtain n where split: "map pr_address ps = take n ?as" "un = drop n ?as"
    and late: "\<forall>i < length xs. out_of_time deadline (clock i) \<longleftrightarrow> n \<le> i" by blast
  note found = finish_discovery_missing [OF assms(1), of ct claim_key ps un src]
  have "spec_id s \<in> set (dr_missing_expected_ids ?r) \<and>
      dr_missing_expected_details ?r (spec_id s) = Some not_probed_detail"
    if s: "s \<in> set (config_devices c)" "spec_address s \<in> set un" for s
  proof
    have "set (map dev_address (dr_devices ?r)) \<subseteq> set (map pr_address ps)"
      using found(1) by (metis mset_subset_eq_add_left set_mset_mono set_mset_mset)
    moreover have "set (take n ?as) \<inter> set (drop n ?as) = {}"
      using assms(5) by (metis append_take_drop_id distinct_append)
    ultimately have "spec_address s \<notin> dev_address ` set (dr_devices ?r)" using split s(2) by auto
    with s(1) show "spec_id s \<in> set (dr_missing_expected_ids ?r)" by (simp add: found(2))
    from s(2) have "un \<noteq> []" by auto
    then show "dr_missing_expected_details ?r (spec_id s) = Some not_probed_detail"
      using mark_unprobed_apply [OF assms(2) s(1)] s(2) by (simp add: finish_discovery_def Let_def)
  qed
  moreover have "if i < n then (\<forall>t. deadline = Some t \<longrightarrow> clock i < t) else (\<exists>t. deadline = Some t \<and> t \<le> clock i)"
    if "i < length ?as" for i
    using late [rule_format, of i] that by (auto simp: out_of_time_def not_le split: option.splits)
  ultimately show ?thesis using split found unfolding accounts_for_def by (auto intro!: exI [of _ n])
qed

text \<open>
  C14: a discovery, in either mode, accounts for every address it looks at: the listed ones, or those the scan found; it fails
  exactly when the scan does. On a clock that never goes back the addresses split, in their order, into those the clock was
  read before the deadline for, which were probed, and a tail before each of which the deadline had passed,
  which was left out; without a deadline none is. Each probed address yields one device or one
  excluded record. A configured device is reported missing exactly when no device is at its
  address, and one whose address was left out is missing with the spent budget for its reason.
\<close>

theorem discovery_accounts:
  assumes "distinct (map spec_address (config_devices c))" "distinct (map spec_id (config_devices c))" "mono clock"
    and "\<forall>addresses. listed_addresses tr c ss = Some addresses \<longrightarrow>
      distinct addresses \<and> (\<forall>a \<in> set addresses. 0 \<le> a \<and> a < 256)"
  shows "case listed_addresses tr c ss of
      None \<Rightarrow> \<exists>why ss'. run_discovery ct claim_key tr c deadline clock ss = (Inl why, ss')
    | Some addresses \<Rightarrow> \<exists>r ss'. run_discovery ct claim_key tr c deadline clock ss = (Inr r, ss') \<and>
        accounts_for c deadline clock addresses r"
proof (cases "mode_of_discovery c")
  case Scan
  obtain st results ss1 where scan: "session_scan tr default_scan_options [] ss = (st, results, ss1)" by (metis prod_cases3)
  let ?xs = "map (\<lambda>r. (uint (sr_address r), sr_address r)) results"
  obtain ps un ss' where p: "probe_all ct tr deadline clock ?xs ss1 = (ps, un, ss')" by (metis prod_cases3)
  have "distinct (map fst ?xs)" if "status_ok st" using assms(4) that Scan scan by (simp add: listed_addresses_def comp_def)
  from probes_account [OF assms(1,2) p _ this assms(3), of claim_key Discovered] Scan scan p show ?thesis
    by (auto simp: listed_addresses_def run_discovery_def comp_def)
next
  case Manual
  let ?xs = "map (\<lambda>addr. (addr, word_of_int addr :: u8)) (manual_addresses c)"
  have as: "distinct (map fst ?xs)" "\<forall>(addr, a) \<in> set ?xs. uint a = addr"
    using assms(4) Manual by (auto simp: listed_addresses_def comp_def uint_word_of_int take_bit_eq_mod)
  obtain ps un ss' where p: "probe_all ct tr deadline clock ?xs ss = (ps, un, ss')" by (metis prod_cases3)
  from probes_account [OF assms(1,2) p as(2,1) assms(3), of claim_key ManualSource] Manual p show ?thesis
    by (simp add: listed_addresses_def run_discovery_def comp_def)
qed

text \<open>A deadline 50 ns on, with 40 ns between two readings of the clock: two of three addresses are probed.\<close>

definition three_devices :: provider_config where
  "three_devices = (sample_config [sample_spec ''heat'' Rlht 10, sample_spec ''pump'' Dcmt 20, sample_spec ''late'' Dcmt 30])
     \<lparr>mode_of_discovery := Manual, manual_addresses := [10, 20, 30]\<rparr>"

theorem discovery_accounts_witness:
  "\<exists>r ss'. run_discovery sample_contracts (\<lambda>_ _. []) (canned_transport sample_contracts (\<lambda>_. 0) (\<lambda>_. 0) undefined)
       three_devices (Some 50) (\<lambda>i. 40 * int i) (sample_session sample_dcmt_bus) = (Inr r, ss') \<and>
     mset (map dev_address (dr_devices r)) + mset (map pr_address (dr_unsupported_probes r)) = {#10, 20#} \<and>
     dr_missing_expected_details r ''late'' = Some not_probed_detail"
proof -
  let ?tr = "canned_transport sample_contracts (\<lambda>_. 0) (\<lambda>_. 0) undefined" and ?ss = "sample_session sample_dcmt_bus"
  have c: "config_devices three_devices = [sample_spec ''heat'' Rlht 10, sample_spec ''pump'' Dcmt 20, sample_spec ''late'' Dcmt 30]"
    "listed_addresses ?tr three_devices ?ss = Some [10, 20, 30]"
    by (simp_all add: three_devices_def listed_addresses_def sample_config_def)
  have "mono (\<lambda>i. 40 * int i)" by (simp add: mono_def)
  from discovery_accounts [OF _ _ this, of three_devices ?tr ?ss sample_contracts "\<lambda>_ _. []" "Some 50"] obtain r ss' where
    r: "run_discovery sample_contracts (\<lambda>_ _. []) ?tr three_devices (Some 50) (\<lambda>i. 40 * int i) ?ss = (Inr r, ss')"
    and "accounts_for three_devices (Some 50) (\<lambda>i. 40 * int i) [10, 20, 30] r" by (auto simp: c)
  then obtain n where n: "\<forall>i < length [10, 20, 30 :: int]. if i < n then (\<forall>t. Some 50 = Some t \<longrightarrow> 40 * int i < t)
        else (\<exists>t. Some 50 = Some t \<and> t \<le> 40 * int i)"
    and m: "mset (map dev_address (dr_devices r)) + mset (map pr_address (dr_unsupported_probes r)) = mset (take n [10, 20, 30])"
    and d: "\<forall>s \<in> set (config_devices three_devices). spec_address s \<in> set (drop n [10, 20, 30]) \<longrightarrow>
        spec_id s \<in> set (dr_missing_expected_ids r) \<and> dr_missing_expected_details r (spec_id s) = Some not_probed_detail"
    unfolding accounts_for_def by blast
  have "n = 2" using spec [OF n, of 1] spec [OF n, of 2] by (auto split: if_splits)
  moreover from this have "dr_missing_expected_details r ''late'' = Some not_probed_detail"
    using bspec [OF d, of "sample_spec ''late'' Dcmt 30"] by (simp add: c)
  ultimately show ?thesis using r m by simp
qed

end
