(* ===== verification/Operation_Frames.thy ===== *)
theory Operation_Frames
  imports Startup
begin

text \<open>
  What an operation of the provider leaves alone. Every operation on a device reaches the transport
  only through sends and reads at the device's address and delays, so a property of the transport
  that those three keep is kept by the whole operation. The locale \<open>transport_frame\<close> states the
  three laws, its lemmas carry them up to the adapters, the safe outputs and the watchdog, and the
  interpretations give the three frames the runtime rests on: the transport stays open, devices at
  other addresses stay as they are, and a device with nothing injected stays that way.
\<close>

lemma retry_preserves:
  assumes "\<And>x. P x \<Longrightarrow> P (snd (fn x))" "P s"
  shows "P (snd (execute_with_retry opts operation fn s))"
proof -
  have "P (state_before fn k s)" for k
    using assms(2) by (induction k arbitrary: s) (simp_all add: assms(1))
  then show ?thesis
    using execute_with_retry_run [of opts fn s operation] assms(1) by (auto simp: Let_def)
qed

locale transport_frame =
  fixes tr :: "'w transport" and a :: u8 and P :: "'w \<Rightarrow> bool"
  assumes send_frame: "P w \<Longrightarrow> P (snd (tr_send tr a f w))"
    and read_frame: "P w \<Longrightarrow> P (snd (snd (tr_read tr a t g w)))"
    and delay_frame: "P w \<Longrightarrow> P (tr_delay_us tr n w)"
begin

lemma session_send_keeps:
  assumes "P (s_transport ss)" "session_send tr a f ss = (st, ss')"
  shows "P (s_transport ss')"
proof -
  obtain st' w where run: "execute_with_retry (s_options ss) ''send'' (tr_send tr a f) (s_transport ss) = (st', w)"
    by fastforce
  from retry_preserves [where P = P and fn = "tr_send tr a f", OF send_frame assms(1)] have "P w"
    by (metis run snd_conv)
  then show ?thesis using assms run by (auto simp: session_send_def Let_def split: if_splits)
qed

lemma query_attempt_keeps:
  assumes "P (snd x)"
  shows "P (snd (snd (query_attempt tr opts a p x)))"
proof (cases x)
  case (Pair out w)
  obtain st w1 where s: "tr_send tr a (query_frame p) w = (st, w1)" by fastforce
  have "P w1" using send_frame [of w "query_frame p"] assms by (simp add: s Pair)
  then show ?thesis by (simp add: Pair query_attempt_def s Let_def read_frame delay_frame)
qed

lemma query_read_keeps:
  assumes "P (s_transport ss)" "query_read tr a p g ss = (st, out, ss')"
  shows "P (s_transport ss')"
proof -
  let ?fn = "query_attempt tr (s_options ss) a p"
  obtain st' out' w where run: "execute_with_retry (s_options ss) ''query_read'' ?fn (g, s_transport ss) = (st', out', w)"
    by (metis prod_cases3)
  from retry_preserves [where P = "\<lambda>x. P (snd x)" and fn = ?fn, OF query_attempt_keeps] assms(1) have "P w"
    by (metis run snd_conv)
  then show ?thesis using assms run by (auto simp: query_read_def Let_def split: if_splits)
qed

lemma read_ack_loop_keeps:
  "P (s_transport ss) \<Longrightarrow> read_ack_loop ct tr a n why ss = (r, ss') \<Longrightarrow> P (s_transport ss')"
proof (induction n arbitrary: why ss)
  case (Suc n)
  obtain st g ss1 where q: "query_read tr a (byte_of ct CRUMBS_CMD_GET_ACK) empty_frame ss = (st, g, ss1)"
    by (metis prod_cases3)
  from query_read_keeps [OF Suc.prems(1) q] have keep: "P (s_transport ss1)" .
  then have "P (s_transport (record_rejection a ss1))" by simp
  from Suc.IH [OF this] Suc.prems(2) keep show ?case by (auto simp: q split: if_splits option.splits)
qed simp

lemma confirm_loop_keeps:
  "P (s_transport ss) \<Longrightarrow> confirm_loop ct tr a f op before n why ss = (r, ss') \<Longrightarrow> P (s_transport ss')"
proof (induction n arbitrary: ss)
  case (Suc n)
  obtain st ss1 where s: "session_send tr a f ss = (st, ss1)" by fastforce
  obtain got ss2 where g: "read_ack ct tr a why ss1 = (got, ss2)" by fastforce
  have "P (s_transport ss2)"
    using read_ack_loop_keeps [OF session_send_keeps [OF Suc.prems(1) s]] g by (auto simp: read_ack_def)
  with Suc.prems(2) Suc.IH show ?case by (auto simp: s g split: sum.splits option.splits)
qed simp

end

text \<open>The operations on a device, at its address.\<close>

locale device_frame = transport_frame tr "word_of_int (dev_address d)" P
  for tr :: "'w transport" and d :: inventory_device and P :: "'w \<Rightarrow> bool" +
  fixes ct :: contracts
begin

lemma transmit_confirmed_keeps:
  assumes "P (s_transport ss)" "transmit_confirmed ct tr d f op ss = (r, ss')"
  shows "P (s_transport ss')"
proof (cases "set_confirmation ct d = Unconfirmed")
  case True
  with assms show ?thesis
    by (auto simp: transmit_confirmed_def Let_def split: prod.splits if_splits dest!: session_send_keeps [rotated])
next
  case False
  obtain got ss1 where g: "read_ack ct tr (word_of_int (dev_address d)) [] ss = (got, ss1)" by fastforce
  with assms(1) have "P (s_transport ss1)" by (auto simp: read_ack_def dest: read_ack_loop_keeps)
  with assms(2) False g confirm_loop_keeps show ?thesis
    by (auto simp: transmit_confirmed_def Let_def split: sum.splits)
qed

lemma transmit_keeps:
  assumes "adapter_contract ct tr ty op ad" "P (s_transport ss)" "ad_transmit ad d f ss = (r, ss')"
  shows "P (s_transport ss')"
proof -
  from adapter_contract.transmits [OF assms(1,3)] obtain ss1 where
    pre: "ss1 = ss \<or> (\<exists>st g p. query_read tr (word_of_int (dev_address d)) p empty_frame ss = (st, g, ss1))"
    and post: "\<not> cr_ok r \<and> ss' = ss1 \<or> transmit_confirmed ct tr d f op ss1 = (r, ss')" by blast
  from pre have "P (s_transport ss1)" using assms(2) query_read_keeps by auto
  with post show ?thesis using transmit_confirmed_keeps by auto
qed

lemma adapter_transmit_keeps:
  assumes "P (s_transport ss)" "ad_transmit (adapter_for ct tr ty) d f ss = (r, ss')"
  shows "P (s_transport ss')"
proof (cases ty)
  case Rlht
  then show ?thesis using transmit_keeps [OF rlht_ad.adapter_contract_axioms assms(1)] assms(2) by simp
next
  case Dcmt
  then show ?thesis using transmit_keeps [OF dcmt_ad.adapter_contract_axioms assms(1)] assms(2) by simp
qed

lemma call_keeps:
  assumes "P (s_transport ss)" "call (adapter_for ct tr ty) (Some ss) d fid args = (r, session)"
  shows "\<exists>ss'. session = Some ss' \<and> P (s_transport ss')"
proof -
  obtain b f where b: "ad_build_frame (adapter_for ct tr ty) fid args = (b, f)" by fastforce
  obtain r' ss' where t: "ad_transmit (adapter_for ct tr ty) d f ss = (r', ss')" by fastforce
  from adapter_transmit_keeps [OF assms(1) t] assms show ?thesis by (auto simp: call_def b t split: if_splits)
qed

lemma read_signals_keeps:
  assumes "P (s_transport ss)" "ad_read_signals (adapter_for ct tr ty) d ids ss = (r, ss')"
  shows "P (s_transport ss')"
proof -
  let ?a = "word_of_int (dev_address d) :: u8"
  have "\<exists>p. let ss1 = snd (snd (query_read tr ?a p empty_frame ss)) in ss' = ss1 \<or> ss' = record_rejection ?a ss1"
  proof (cases ty)
    case Rlht
    obtain st g ss1 where q: "query_read tr ?a (byte_of ct RLHT_OP_GET_STATE) empty_frame ss = (st, g, ss1)"
      by (metis prod_cases3)
    with assms(2) Rlht show ?thesis
      by (intro exI [of _ "byte_of ct RLHT_OP_GET_STATE"])
        (auto simp: rlht_read_signals_def Let_def split: if_splits option.splits)
  next
    case Dcmt
    obtain st g ss1 where q: "query_read tr ?a (byte_of ct DCMT_OP_GET_STATE) empty_frame ss = (st, g, ss1)"
      by (metis prod_cases3)
    with assms(2) Dcmt show ?thesis
      by (intro exI [of _ "byte_of ct DCMT_OP_GET_STATE"])
        (auto simp: dcmt_read_signals_def Let_def split: if_splits option.splits)
  qed
  then obtain p where p: "let ss1 = snd (snd (query_read tr ?a p empty_frame ss)) in ss' = ss1 \<or> ss' = record_rejection ?a ss1"
    by blast
  obtain st g ss1 where q: "query_read tr ?a p empty_frame ss = (st, g, ss1)" by (metis prod_cases3)
  with query_read_keeps [OF assms(1) q] p show ?thesis by auto
qed

lemma drive_loop_keeps:
  "P (s_transport ss) \<Longrightarrow> drive_loop (adapter_for ct tr ty) d steps res ss = (res', ss') \<Longrightarrow> P (s_transport ss')"
proof (induction steps arbitrary: res ss)
  case (Cons step steps)
  obtain r session where c: "call (adapter_for ct tr ty) (Some ss) d (step_function_id step) (step_args step) = (r, session)"
    by fastforce
  obtain ss1 where "session = Some ss1" "P (s_transport ss1)" using call_keeps [OF Cons.prems(1) c] by blast
  with Cons.prems(2) Cons.IH show ?case by (auto simp: call_step_def c Let_def)
qed simp

lemma drive_keeps: "P (s_transport ss) \<Longrightarrow> drive ct tr d ss = (res, ss') \<Longrightarrow> P (s_transport ss')"
  by (simp add: drive_def Let_def drive_loop_keeps)

lemma arm_keeps: "P (s_transport ss) \<Longrightarrow> P (s_transport (arm_if_configured ct tr d ss))"
  using session_send_keeps [of ss "arm_frame ct d"]
  by (cases "session_send tr (word_of_int (dev_address d)) (arm_frame ct d) ss") (simp add: arm_if_configured_def)

lemma rearm_keeps: "P (s_transport ss) \<Longrightarrow> P (s_transport (snd (rearm_if_rebooted ct tr d status ss)))"
  by (simp add: rearm_if_rebooted_def arm_keeps)

lemma query_status_keeps:
  "P (s_transport ss) \<Longrightarrow> query_status ct tr d out ss = (st, status, ss') \<Longrightarrow> P (s_transport ss')"
  by (auto simp: query_status_def Let_def split: prod.splits if_splits option.splits dest!: query_read_keeps [rotated])

end

subsection \<open>The transport stays open\<close>

interpretation open_frame: device_frame "crumbs_over_i2c ct bus scan" d ct_open ct
  by unfold_locales
    (simp_all add: transport_send_def transport_read_def transport_delay_us_def Let_def split: option.splits prod.splits)

subsection \<open>The other devices of the canned bus, and a device with nothing injected\<close>

definition holds_device :: "u8 \<Rightarrow> (device_state \<Rightarrow> bool) \<Rightarrow> canned_bus crumbs_transport \<Rightarrow> bool" where
  "holds_device a Q t \<longleftrightarrow>
     ct_open t \<and> (\<exists>cb x. ct_bus t = Some cb \<and> cb_opened cb \<and> cb_devices cb a = Some x \<and> Q x)"

lemma has_device_iff:
  "has_device ss a x \<longleftrightarrow> holds_device a (\<lambda>y. y = x) (s_transport ss) \<and> status_ok (validate_address a)"
  by (auto simp: has_device_def holds_device_def on_bus_def)

definition calm :: "contracts \<Rightarrow> u8 \<Rightarrow> device_state \<Rightarrow> bool" where
  "calm ct type_id x \<longleftrightarrow> answers ct x \<and> d_next_outcomes x = [] \<and> d_type_id x = type_id"

lemma apply_write_other: "b \<noteq> a \<Longrightarrow> cb_devices (apply_write ct a bs cb) b = cb_devices cb b"
  by (simp add: apply_write_def split: option.splits sum.splits)

lemma apply_write_opened [simp]: "cb_opened (apply_write ct a bs cb) = cb_opened cb"
  by (simp add: apply_write_def split: option.splits sum.splits)

lemma emit_reply_other:
  "emit_reply ct a n cb = (st, bs, cb') \<Longrightarrow> cb_opened cb' = cb_opened cb \<and> (b \<noteq> a \<longrightarrow> cb_devices cb' b = cb_devices cb b)"
  by (auto simp: emit_reply_def Let_def split: if_splits option.splits prod.splits sum.splits)

text \<open>What a write and a read do to the bus behind the transport.\<close>

lemma canned_send_cases:
  assumes "transport_send ct (canned_i2c ct sys steady) a f t = (st, t')" "ct_open t" "ct_bus t = Some cb"
  shows "t' = t \<or> t' = t\<lparr>ct_bus := Some cb\<rparr> \<or> (\<exists>bs. t' = t\<lparr>ct_bus := Some (apply_write ct a bs cb)\<rparr>)"
  using assms by (auto simp: transport_send_def canned_write_def Let_def split: if_splits)

lemma canned_read_cases:
  assumes "transport_read ct (canned_i2c ct sys steady) a n g t = (st, out, t')" "ct_open t" "ct_bus t = Some cb"
    "cb_opened cb"
  obtains st' bs cb' m where "emit_reply ct a m cb = (st', bs, cb')" "t' = t\<lparr>ct_bus := Some cb'\<rparr>"
  using assms by (auto simp: transport_read_def canned_read_def Let_def split: if_splits prod.splits)

lemma holds_device_bus:
  "ct_open t \<Longrightarrow> holds_device b Q (t\<lparr>ct_bus := Some cb\<rparr>) \<longleftrightarrow> cb_opened cb \<and> (\<exists>x. cb_devices cb b = Some x \<and> Q x)"
  "ct_open t \<Longrightarrow> ct_bus t = Some cb \<Longrightarrow>
     holds_device b Q t \<longleftrightarrow> cb_opened cb \<and> (\<exists>x. cb_devices cb b = Some x \<and> Q x)"
  by (auto simp: holds_device_def)

text \<open>A property of the device at \<open>b\<close> is kept by a transport whose writes and replies at \<open>a\<close> keep it.\<close>

lemma canned_transport_frame:
  assumes written: "\<And>cb bs x. cb_devices cb b = Some x \<Longrightarrow> Q x \<Longrightarrow>
      \<exists>y. cb_devices (apply_write ct a bs cb) b = Some y \<and> Q y"
    and reply: "\<And>cb m st bs cb' x. emit_reply ct a m cb = (st, bs, cb') \<Longrightarrow> cb_devices cb b = Some x \<Longrightarrow> Q x \<Longrightarrow>
      \<exists>y. cb_devices cb' b = Some y \<and> Q y"
  shows "transport_frame (canned_transport ct sys steady scan) a (holds_device b Q)"
proof
  fix w f t g n
  let ?tr = "canned_transport ct sys steady scan"
  assume holds: "holds_device b Q w"
  then obtain cb x where cb: "ct_open w" "ct_bus w = Some cb" "cb_opened cb" "cb_devices cb b = Some x" "Q x"
    by (auto simp: holds_device_def)
  show "holds_device b Q (tr_delay_us ?tr n w)"
    using cb by (simp add: transport_delay_us_def holds_device_bus(1))
  obtain st w' where s: "transport_send ct (canned_i2c ct sys steady) a f w = (st, w')" by fastforce
  have "holds_device b Q (w\<lparr>ct_bus := Some (apply_write ct a bs cb)\<rparr>)" for bs
    using cb(1,3) written [OF cb(4,5), of bs] by (simp add: holds_device_bus(1))
  moreover have "holds_device b Q (w\<lparr>ct_bus := Some cb\<rparr>)" using cb by (simp add: holds_device_bus(1))
  ultimately have "holds_device b Q w'" using canned_send_cases [OF s cb(1,2)] holds by blast
  then show "holds_device b Q (snd (tr_send ?tr a f w))" by (simp add: s)
  obtain st out w' where s: "transport_read ct (canned_i2c ct sys steady) a t g w = (st, out, w')"
    by (metis prod_cases3)
  obtain st' bs cb' m where e: "emit_reply ct a m cb = (st', bs, cb')" "w' = w\<lparr>ct_bus := Some cb'\<rparr>"
    by (rule canned_read_cases [OF s cb(1,2,3)])
  have "cb_opened cb'" using emit_reply_other [OF e(1), of b] cb(3) by simp
  with reply [OF e(1) cb(4,5)] cb(1) have "holds_device b Q w'" unfolding e(2) by (simp add: holds_device_bus(1))
  then show "holds_device b Q (snd (snd (tr_read ?tr a t g w)))" by (simp add: s)
qed

interpretation others: device_frame "canned_transport ct sys steady scan" d
  "\<lambda>t. word_of_int (dev_address d) \<noteq> b \<longrightarrow> holds_device b Q t" ct
proof (cases "word_of_int (dev_address d) = b")
  case True
  then show "device_frame (canned_transport ct sys steady scan) d
      (\<lambda>t. word_of_int (dev_address d) \<noteq> b \<longrightarrow> holds_device b Q t)" by unfold_locales simp_all
next
  case False
  then have "transport_frame (canned_transport ct sys steady scan) (word_of_int (dev_address d)) (holds_device b Q)"
    by (intro canned_transport_frame) (auto simp: apply_write_other dest: emit_reply_other [where b = b])
  with False show "device_frame (canned_transport ct sys steady scan) d
      (\<lambda>t. word_of_int (dev_address d) \<noteq> b \<longrightarrow> holds_device b Q t)" by (simp add: device_frame_def)
qed

lemma calm_apply_message [simp]: "calm ct t x \<Longrightarrow> calm ct t (apply_message ct m x)"
  by (auto simp: calm_def answers_def apply_message_def next_outcome_def count_write_def Let_def split: prod.splits)

lemma calm_reply_payload: "calm ct t x \<Longrightarrow> reply_payload ct x = (r, y) \<Longrightarrow> calm ct t y"
  by (auto simp: calm_def answers_def reply_payload_def Let_def split: if_splits)

interpretation calm_frame: device_frame "canned_transport ct sys steady scan" d
  "holds_device (word_of_int (dev_address d)) (calm ct t)" ct
  unfolding device_frame_def
  by (intro canned_transport_frame)
    (auto simp: apply_write_def emit_reply_def Let_def
      split: sum.splits if_splits prod.splits dest: calm_reply_payload)

end
