(* ===== verification/Device_Relations.thy ===== *)
theory Device_Relations
  imports Operation_Frames
begin

text \<open>
  Relations between two runs of the operations on a device. Every operation on a device reaches its
  session through sends, three kinds of query and the count of rejections, all at the device's
  address; so two sessions in a relation that those keep with equal results (statuses up to the
  number of attempts) stay in it through the
  whole operation, and the results are equal. The locale \<open>device_relation\<close> states the laws and
  carries them up by parametricity: each definition is built from related parts, and the transfer
  prover carries the relation through it. With one transport on both sides and a relation below
  equality it is an invariant of the session; with two transports it is a simulation, for which
  \<open>transport_sim\<close> gives the laws from those of the transports.
\<close>

subsection \<open>Statuses up to the number of attempts\<close>

text \<open>How many attempts an operation took is for the books and the log; nothing above the session looks at it.\<close>

definition same_status :: "session_status \<Rightarrow> session_status \<Rightarrow> bool" where
  "same_status x y \<longleftrightarrow> x\<lparr>st_attempts := 0\<rparr> = y\<lparr>st_attempts := 0\<rparr>"

lemma same_status_refl [simp]: "same_status x x"
  by (simp add: same_status_def)

lemma same_statusD:
  assumes "same_status x y"
  shows "st_code x = st_code y" "st_message x = st_message y"
  using assms by (cases x; cases y; simp add: same_status_def)+

lemma same_status_rules [transfer_rule]:
  "rel_fun same_status (=) status_ok status_ok"
  "rel_fun same_status (=) st_message st_message"
  "rel_fun (=) (rel_fun (=) (rel_fun same_status (=))) ack_lost_text ack_lost_text"
  "rel_fun same_status (rel_fun (=) (=)) call_error_from_session call_error_from_session"
  "rel_fun same_status (rel_fun (=) (=)) read_error_from_session read_error_from_session"
  "rel_fun (=) (rel_fun (=) (rel_fun (=) same_status)) failure failure"
  "same_status success success"
  by (auto simp: rel_fun_def status_ok_def ack_lost_text_def call_error_from_session_def read_error_from_session_def
      session_error_code_of_def session_error_text_def dest: same_statusD)

lemma same_status_eq: "rel_prod (=) S x y \<Longrightarrow> rel_prod same_status S x y"
  by (auto simp: rel_prod_conv)

subsection \<open>The operations on a device\<close>

fun state_query :: "device_type \<Rightarrow> byte_name" where
  "state_query Rlht = RLHT_OP_GET_STATE"
| "state_query Dcmt = DCMT_OP_GET_STATE"

locale device_relation =
  fixes ct :: contracts and tr1 :: "'v transport" and tr2 :: "'w transport" and d :: inventory_device
    and S :: "'v session \<Rightarrow> 'w session \<Rightarrow> bool"
  assumes send_rel: "rel_fun (=) (rel_fun S (rel_prod same_status S))
      (session_send tr1 (word_of_int (dev_address d))) (session_send tr2 (word_of_int (dev_address d)))"
    and query_rel: "p \<in> byte_of ct ` {CRUMBS_CMD_GET_ACK, BREAD_OP_GET_WATCHDOG, state_query (dev_type d)} \<Longrightarrow>
      rel_fun (=) (rel_fun S (rel_prod same_status (rel_prod (=) S)))
        (query_read tr1 (word_of_int (dev_address d)) p) (query_read tr2 (word_of_int (dev_address d)) p)"
    and rejection_rel: "rel_fun S S (record_rejection (word_of_int (dev_address d))) (record_rejection (word_of_int (dev_address d)))"
begin

lemma read_ack_loop_rel:
  "S s t \<Longrightarrow> rel_prod (=) S (read_ack_loop ct tr1 (word_of_int (dev_address d)) n why s)
     (read_ack_loop ct tr2 (word_of_int (dev_address d)) n why t)"
proof (induction n arbitrary: why s t)
  case (Suc n)
  note [transfer_rule] = Suc.prems query_rel [of "byte_of ct CRUMBS_CMD_GET_ACK", simplified] rejection_rel
  have [transfer_rule]: "rel_fun (=) (rel_fun S (rel_prod (=) S))
      (read_ack_loop ct tr1 (word_of_int (dev_address d)) n) (read_ack_loop ct tr2 (word_of_int (dev_address d)) n)"
    using Suc.IH by (auto simp: rel_fun_def)
  show ?case unfolding read_ack_loop.simps by transfer_prover
qed simp

lemma read_ack_rel:
  "rel_fun (=) (rel_fun S (rel_prod (=) S))
     (read_ack ct tr1 (word_of_int (dev_address d))) (read_ack ct tr2 (word_of_int (dev_address d)))"
  by (simp add: rel_fun_def read_ack_def read_ack_loop_rel)

lemma confirm_loop_rel:
  "S s t \<Longrightarrow> rel_prod (=) S (confirm_loop ct tr1 (word_of_int (dev_address d)) f op before n why s)
     (confirm_loop ct tr2 (word_of_int (dev_address d)) f op before n why t)"
proof (induction n arbitrary: s t)
  case (Suc n)
  note [transfer_rule] = Suc.prems send_rel read_ack_rel
  have [transfer_rule]: "rel_fun S (rel_prod (=) S) (confirm_loop ct tr1 (word_of_int (dev_address d)) f op before n why)
      (confirm_loop ct tr2 (word_of_int (dev_address d)) f op before n why)"
    using Suc.IH by (auto simp: rel_fun_def)
  show ?case unfolding confirm_loop.simps by transfer_prover
qed simp

lemma confirm_loop_rule:
  "rel_fun (=) (rel_fun (=) (rel_fun (=) (rel_fun (=) (rel_fun (=) (rel_fun S (rel_prod (=) S))))))
     (confirm_loop ct tr1 (word_of_int (dev_address d))) (confirm_loop ct tr2 (word_of_int (dev_address d)))"
  by (simp add: rel_fun_def confirm_loop_rel)

lemma transmit_confirmed_rel:
  "rel_fun (=) (rel_fun (=) (rel_fun S (rel_prod (=) S))) (transmit_confirmed ct tr1 d) (transmit_confirmed ct tr2 d)"
  supply [transfer_rule] = send_rel read_ack_rel confirm_loop_rule
  unfolding transmit_confirmed_def Let_def [of "word_of_int _"] by transfer_prover

lemma rlht_rel:
  "rel_fun (=) (rel_fun S (rel_prod (=) S)) (rlht_transmit ct tr1 d) (rlht_transmit ct tr2 d)"
  "dev_type d = Rlht \<Longrightarrow>
     rel_fun (=) (rel_fun S (rel_prod (=) S)) (rlht_read_signals ct tr1 d) (rlht_read_signals ct tr2 d)"
proof -
  note [transfer_rule] = transmit_confirmed_rel rejection_rel
  show "rel_fun (=) (rel_fun S (rel_prod (=) S)) (rlht_transmit ct tr1 d) (rlht_transmit ct tr2 d)"
    unfolding rlht_transmit_def by transfer_prover
  assume "dev_type d = Rlht"
  then have [transfer_rule]: "rel_fun (=) (rel_fun S (rel_prod same_status (rel_prod (=) S)))
      (query_read tr1 (word_of_int (dev_address d)) (byte_of ct RLHT_OP_GET_STATE))
      (query_read tr2 (word_of_int (dev_address d)) (byte_of ct RLHT_OP_GET_STATE))" by (intro query_rel) simp
  show "rel_fun (=) (rel_fun S (rel_prod (=) S)) (rlht_read_signals ct tr1 d) (rlht_read_signals ct tr2 d)"
    unfolding rlht_read_signals_def Let_def [of "word_of_int _"] by transfer_prover
qed

lemma dcmt_rel:
  assumes "dev_type d = Dcmt"
  shows "rel_fun (=) (rel_fun S (rel_prod (=) S)) (dcmt_transmit ct tr1 d) (dcmt_transmit ct tr2 d)"
    "rel_fun (=) (rel_fun S (rel_prod (=) S)) (dcmt_read_signals ct tr1 d) (dcmt_read_signals ct tr2 d)"
proof -
  have [transfer_rule]: "rel_fun (=) (rel_fun S (rel_prod same_status (rel_prod (=) S)))
      (query_read tr1 (word_of_int (dev_address d)) (byte_of ct DCMT_OP_GET_STATE))
      (query_read tr2 (word_of_int (dev_address d)) (byte_of ct DCMT_OP_GET_STATE))"
    using assms by (intro query_rel) simp
  note [transfer_rule] = transmit_confirmed_rel rejection_rel
  have [transfer_rule]: "rel_fun (=) (rel_fun S (rel_prod (=) S)) (brake_check ct tr1 d) (brake_check ct tr2 d)"
    unfolding brake_check_def by transfer_prover
  show "rel_fun (=) (rel_fun S (rel_prod (=) S)) (dcmt_transmit ct tr1 d) (dcmt_transmit ct tr2 d)"
    unfolding dcmt_transmit_def by transfer_prover
  show "rel_fun (=) (rel_fun S (rel_prod (=) S)) (dcmt_read_signals ct tr1 d) (dcmt_read_signals ct tr2 d)"
    unfolding dcmt_read_signals_def Let_def [of "word_of_int _"] by transfer_prover
qed

text \<open>The adapter the dispatch returns for the device.\<close>

lemma adapter_rel:
  "rel_fun (=) (rel_fun S (rel_prod (=) S))
     (ad_read_signals (adapter_for ct tr1 (dev_type d)) d) (ad_read_signals (adapter_for ct tr2 (dev_type d)) d)"
  "rel_fun (=) (rel_fun S (rel_prod (=) S))
     (ad_transmit (adapter_for ct tr1 (dev_type d)) d) (ad_transmit (adapter_for ct tr2 (dev_type d)) d)"
  "ad_build_frame (adapter_for ct tr1 (dev_type d)) = ad_build_frame (adapter_for ct tr2 (dev_type d))"
  by (cases "dev_type d"; simp add: rlht_rel dcmt_rel)+

lemma call_rel:
  "rel_fun (rel_option S) (rel_fun (=) (rel_fun (=) (rel_prod (=) (rel_option S))))
     (\<lambda>session. call (adapter_for ct tr1 (dev_type d)) session d) (\<lambda>session. call (adapter_for ct tr2 (dev_type d)) session d)"
  supply [transfer_rule] = adapter_rel
  unfolding call_def by transfer_prover

lemma call_step_rel:
  "rel_fun (=) (rel_fun S (rel_prod (=) S))
     (call_step (adapter_for ct tr1 (dev_type d)) d) (call_step (adapter_for ct tr2 (dev_type d)) d)"
proof (intro rel_funI)
  fix x y :: safe_output_step and s t
  assume eq: "x = y" and s: "S s t"
  then have "rel_option S (Some s) (Some t)" by simp
  note rel_funD [OF rel_funD [OF rel_funD [OF call_rel this] refl] refl, of "step_function_id x" "step_args x"]
  then show "rel_prod (=) S (call_step (adapter_for ct tr1 (dev_type d)) d x s) (call_step (adapter_for ct tr2 (dev_type d)) d y t)"
    using s eq by (auto simp: call_step_def Let_def rel_prod_conv option_rel_Some1 split: prod.splits option.splits)
qed

lemma drive_loop_rel:
  "S s t \<Longrightarrow> rel_prod (=) S (drive_loop (adapter_for ct tr1 (dev_type d)) d steps res s)
     (drive_loop (adapter_for ct tr2 (dev_type d)) d steps res t)"
proof (induction steps arbitrary: res s t)
  case (Cons step steps)
  note [transfer_rule] = Cons.prems call_step_rel
  have [transfer_rule]: "rel_fun (=) (rel_fun S (rel_prod (=) S))
      (drive_loop (adapter_for ct tr1 (dev_type d)) d steps) (drive_loop (adapter_for ct tr2 (dev_type d)) d steps)"
    using Cons.IH by (auto simp: rel_fun_def)
  show ?case unfolding drive_loop.simps by transfer_prover
qed simp

lemma drive_rel: "rel_fun S (rel_prod (=) S) (drive ct tr1 d) (drive ct tr2 d)"
proof (intro rel_funI)
  fix s t
  assume "S s t"
  then show "rel_prod (=) S (drive ct tr1 d s) (drive ct tr2 d t)"
    using drive_loop_rel [of s t] by (cases "dev_type d") (simp_all add: drive_def)
qed

lemma arm_rel: "rel_fun S S (arm_if_configured ct tr1 d) (arm_if_configured ct tr2 d)"
  supply [transfer_rule] = send_rel
  unfolding arm_if_configured_def by transfer_prover

lemma rearm_rel:
  "rel_fun (=) (rel_fun S (rel_prod (=) S)) (rearm_if_rebooted ct tr1 d) (rearm_if_rebooted ct tr2 d)"
  supply [transfer_rule] = arm_rel
  unfolding rearm_if_rebooted_def by transfer_prover

lemma query_status_rel:
  "rel_fun (=) (rel_fun S (rel_prod same_status (rel_prod (=) S))) (query_status ct tr1 d) (query_status ct tr2 d)"
  supply [transfer_rule] = query_rel [of "byte_of ct BREAD_OP_GET_WATCHDOG", simplified] rejection_rel
  unfolding query_status_def Let_def [of "word_of_int _"] by transfer_prover

end

text \<open>An invariant of the session as a relation: equal sessions that satisfy it.\<close>

locale session_invariant = device_relation ct tr tr d "eq_onp I"
  for ct :: contracts and tr :: "'w transport" and d :: inventory_device and I :: "'w session \<Rightarrow> bool"
begin

lemma call_keeps_inv: "I ss \<Longrightarrow> call (adapter_for ct tr (dev_type d)) (Some ss) d fid args = (r, session) \<Longrightarrow>
    \<exists>ss'. session = Some ss' \<and> I ss'"
  using rel_funD [OF rel_funD [OF rel_funD [OF call_rel] refl] refl, of "Some ss" "Some ss" fid args]
  by (cases session) (auto simp: eq_onp_def call_def split: prod.splits if_splits)

lemma read_signals_keeps_inv:
  "I ss \<Longrightarrow> ad_read_signals (adapter_for ct tr (dev_type d)) d ids ss = (r, ss') \<Longrightarrow> I ss'"
  using rel_funD [OF rel_funD [OF adapter_rel(1) refl], of ss ss ids] by (auto simp: eq_onp_def)

lemma drive_keeps_inv: "I ss \<Longrightarrow> drive ct tr d ss = (r, ss') \<Longrightarrow> I ss'"
  using rel_funD [OF drive_rel, of ss ss] by (auto simp: eq_onp_def)

lemma arm_keeps_inv: "I ss \<Longrightarrow> I (arm_if_configured ct tr d ss)"
  using rel_funD [OF arm_rel, of ss ss] by (auto simp: eq_onp_def)

lemma rearm_keeps_inv: "I ss \<Longrightarrow> I (snd (rearm_if_rebooted ct tr d status ss))"
  using arm_keeps_inv by (simp add: rearm_if_rebooted_def)

lemma query_status_keeps_inv: "I ss \<Longrightarrow> query_status ct tr d out ss = (st, status, ss') \<Longrightarrow> I ss'"
  using rel_funD [OF rel_funD [OF query_status_rel refl], of ss ss out] by (auto simp: eq_onp_def)

end

text \<open>The laws of an invariant, without the relators.\<close>

lemma session_invariantI:
  assumes "\<And>f ss st ss'. I ss \<Longrightarrow> session_send tr (word_of_int (dev_address d)) f ss = (st, ss') \<Longrightarrow> I ss'"
    and "\<And>p g ss st out ss'. p \<in> byte_of ct ` {CRUMBS_CMD_GET_ACK, BREAD_OP_GET_WATCHDOG, state_query (dev_type d)} \<Longrightarrow>
      I ss \<Longrightarrow> query_read tr (word_of_int (dev_address d)) p g ss = (st, out, ss') \<Longrightarrow> I ss'"
    and "\<And>ss. I ss \<Longrightarrow> I (record_rejection (word_of_int (dev_address d)) ss)"
  shows "session_invariant ct tr d I"
proof
  show "rel_fun (=) (rel_fun (eq_onp I) (rel_prod same_status (eq_onp I)))
      (session_send tr (word_of_int (dev_address d))) (session_send tr (word_of_int (dev_address d)))"
    using assms(1) by (auto simp: rel_fun_def eq_onp_def rel_prod_conv split: prod.splits)
  show "rel_fun (eq_onp I) (eq_onp I) (record_rejection (word_of_int (dev_address d))) (record_rejection (word_of_int (dev_address d)))"
    using assms(3) by (auto simp: rel_fun_def eq_onp_def)
  fix p
  assume "p \<in> byte_of ct ` {CRUMBS_CMD_GET_ACK, BREAD_OP_GET_WATCHDOG, state_query (dev_type d)}"
  from assms(2) [OF this]
  show "rel_fun (=) (rel_fun (eq_onp I) (rel_prod same_status (rel_prod (=) (eq_onp I))))
      (query_read tr (word_of_int (dev_address d)) p) (query_read tr (word_of_int (dev_address d)) p)"
    by (auto simp: rel_fun_def eq_onp_def rel_prod_conv split: prod.splits)
qed

subsection \<open>Simulation between transports\<close>

text \<open>
  Two transports that look the same from one address: their sends, reads and delays there give equal
  results in related states. Sessions on them are then related, with their books compared at
  the addresses \<open>B\<close>, and without the time of the last success, which is the transport's clock.
\<close>

definition counters :: "address_stats \<Rightarrow> u64 \<times> u64 \<times> u64 \<times> u64 \<times> bool" where
  "counters st = (n_ok st, n_failed st, n_retried_attempts st, n_rejected st, has_success st)"

definition same_session :: "('v \<Rightarrow> 'w \<Rightarrow> bool) \<Rightarrow> u8 set \<Rightarrow> 'v session \<Rightarrow> 'w session \<Rightarrow> bool" where
  "same_session R B s t \<longleftrightarrow>
     R (s_transport s) (s_transport t) \<and> s_options s = s_options t \<and>
     (\<forall>b \<in> B. counters (stats_of s b) = counters (stats_of t b) \<and>
        (b \<in> s_last_op_failed s \<longleftrightarrow> b \<in> s_last_op_failed t) \<and>
        (b \<in> s_recovery_pending s \<longleftrightarrow> b \<in> s_recovery_pending t))"

lemma same_sessionD:
  assumes "same_session R B s t"
  shows "R (s_transport s) (s_transport t)" "s_options s = s_options t"
  using assms by (simp_all add: same_session_def)

lemma record_outcome_same:
  assumes "same_session R B s t" "R v w"
  shows "same_session R B (record_outcome tr1 a st (s\<lparr>s_transport := v\<rparr>)) (record_outcome tr2 a st (t\<lparr>s_transport := w\<rparr>))"
  using assms by (auto simp: same_session_def record_outcome_def counters_def stats_of_def Let_def)

lemma record_rejection_same:
  "same_session R B s t \<Longrightarrow> same_session R B (record_rejection a s) (record_rejection a t)"
  by (auto simp: same_session_def record_rejection_def counters_def stats_of_def)

lemma retry_loop_related:
  assumes [transfer_rule]: "rel_fun S (rel_prod (=) S) fn fn'"
  shows "S s t \<Longrightarrow> rel_prod (=) S (retry_loop n fn k prev s) (retry_loop n fn' k prev t)"
proof (induction "nat (n + 1 - k)" arbitrary: k prev s t rule: less_induct)
  case less
  note [transfer_rule] = less.prems
  show ?case
  proof (cases "k \<le> n")
    case True
    then have [transfer_rule]: "rel_fun (=) (rel_fun S (rel_prod (=) S)) (retry_loop n fn (k + 1)) (retry_loop n fn' (k + 1))"
      using less.hyps [of "k + 1"] by (intro rel_funI) simp
    show ?thesis unfolding retry_loop.simps [of n fn k] retry_loop.simps [of n fn' k] by transfer_prover
  next
    case False
    then show ?thesis using less.prems by (simp add: retry_loop.simps [of n fn k] retry_loop.simps [of n fn' k])
  qed
qed

lemma execute_with_retry_related:
  assumes "rel_fun S (rel_prod (=) S) fn fn'"
  shows "rel_fun S (rel_prod (=) S) (execute_with_retry opts op fn) (execute_with_retry opts op fn')"
  using retry_loop_related [OF assms] by (auto simp: execute_with_retry_def rel_fun_def)

locale transport_sim =
  fixes tr1 :: "'v transport" and tr2 :: "'w transport" and a :: u8 and R :: "'v \<Rightarrow> 'w \<Rightarrow> bool" and B :: "u8 set"
  assumes sim_is_open: "R v w \<Longrightarrow> tr_is_open tr1 v = tr_is_open tr2 w"
    and sim_send: "R v w \<Longrightarrow> rel_prod (=) R (tr_send tr1 a f v) (tr_send tr2 a f w)"
    and sim_read: "R v w \<Longrightarrow> rel_prod (=) (rel_prod (=) R) (tr_read tr1 a t g v) (tr_read tr2 a t g w)"
    and sim_delay: "R v w \<Longrightarrow> R (tr_delay_us tr1 n v) (tr_delay_us tr2 n w)"
begin

lemma transport_rules:
  "rel_fun R (=) (tr_is_open tr1) (tr_is_open tr2)"
  "rel_fun (=) (rel_fun R (rel_prod (=) R)) (tr_send tr1 a) (tr_send tr2 a)"
  "rel_fun (=) (rel_fun (=) (rel_fun R (rel_prod (=) (rel_prod (=) R)))) (tr_read tr1 a) (tr_read tr2 a)"
  "rel_fun (=) (rel_fun R R) (tr_delay_us tr1) (tr_delay_us tr2)"
  by (simp_all add: rel_fun_def sim_is_open sim_send sim_read sim_delay)

lemma query_attempt_sim:
  "rel_fun (rel_prod (=) R) (rel_prod (=) (rel_prod (=) R)) (query_attempt tr1 opts a p) (query_attempt tr2 opts a p)"
  supply [transfer_rule] = transport_rules
  unfolding query_attempt_def by transfer_prover

lemma session_send_sim:
  "rel_fun (=) (rel_fun (same_session R B) (rel_prod (=) (same_session R B))) (session_send tr1 a) (session_send tr2 a)"
proof (intro rel_funI)
  fix f g s t
  assume "(f :: raw_frame) = g" and s: "same_session R B s t"
  note R = same_sessionD [OF s]
  obtain st v where 1: "execute_with_retry (s_options s) ''send'' (tr_send tr1 a f) (s_transport s) = (st, v)"
    by fastforce
  obtain st' w where 2: "execute_with_retry (s_options s) ''send'' (tr_send tr2 a f) (s_transport t) = (st', w)"
    by fastforce
  have "rel_fun R (rel_prod (=) R) (tr_send tr1 a f) (tr_send tr2 a f)"
    by (rule rel_funD [OF transport_rules(2) refl])
  from rel_funD [OF execute_with_retry_related [OF this] R(1), of "s_options s" "''send''"]
  have "st' = st" "R v w" by (simp_all add: 1 2)
  then show "rel_prod (=) (same_session R B) (session_send tr1 a f s) (session_send tr2 a g t)"
    using s 1 2 record_outcome_same [OF s, of v w tr1 a st tr2] sim_is_open [OF R(1)] \<open>f = g\<close> R(2)
    by (simp add: session_send_def Let_def)
qed

lemma query_read_sim:
  "rel_fun (=) (rel_fun (same_session R B) (rel_prod (=) (rel_prod (=) (same_session R B))))
     (query_read tr1 a p) (query_read tr2 a p)"
proof (intro rel_funI)
  fix f g s t
  assume eq: "(f :: raw_frame) = g" and s: "same_session R B s t"
  note R = same_sessionD [OF s]
  let ?f1 = "query_attempt tr1 (s_options s) a p" and ?f2 = "query_attempt tr2 (s_options s) a p"
  obtain st x v where 1: "execute_with_retry (s_options s) ''query_read'' ?f1 (f, s_transport s) = (st, x, v)"
    by (metis prod_cases3)
  obtain st' y w where 2: "execute_with_retry (s_options s) ''query_read'' ?f2 (f, s_transport t) = (st', y, w)"
    by (metis prod_cases3)
  have "rel_prod (=) R (f, s_transport s) (f, s_transport t)" using R(1) by simp
  from rel_funD [OF execute_with_retry_related [OF query_attempt_sim] this, of "s_options s" "''query_read''" "s_options s" p]
  have "st' = st" "y = x" "R v w" by (simp_all add: 1 2)
  then show "rel_prod (=) (rel_prod (=) (same_session R B)) (query_read tr1 a p f s) (query_read tr2 a p g t)"
    using s 1 2 record_outcome_same [OF s, of v w tr1 a st tr2] sim_is_open [OF R(1)] eq R(2)
    by (simp add: query_read_def Let_def)
qed

end

locale device_sim = transport_sim tr1 tr2 "word_of_int (dev_address d)" R B
  for tr1 :: "'v transport" and tr2 :: "'w transport" and d :: inventory_device and R :: "'v \<Rightarrow> 'w \<Rightarrow> bool"
    and B :: "u8 set" +
  fixes ct :: contracts

sublocale device_sim \<subseteq> device_relation ct tr1 tr2 d "same_session R B"
  by unfold_locales
     (auto intro!: rel_funI same_status_eq record_rejection_same rel_funD [OF rel_funD [OF session_send_sim refl]]
       rel_funD [OF rel_funD [OF query_read_sim refl]])

subsection \<open>The flags of an address\<close>

text \<open>A failure not yet made good, or a recovery not yet taken.\<close>

definition flagged :: "u8 \<Rightarrow> 'w session \<Rightarrow> bool" where
  "flagged a ss \<longleftrightarrow> last_op_failed ss a \<or> a \<in> s_recovery_pending ss"

lemma record_outcome_flagged:
  assumes "flagged a ss"
  shows "flagged a (record_outcome tr a st (ss\<lparr>s_transport := w\<rparr>))"
    "status_ok st \<Longrightarrow> a \<in> s_recovery_pending (record_outcome tr a st (ss\<lparr>s_transport := w\<rparr>))"
  using assms by (auto simp: flagged_def record_outcome_flags)

lemma not_io_fails: "not_io st \<Longrightarrow> \<not> status_ok st"
  by (auto simp: not_io_def status_ok_def)

lemma session_send_flagged:
  "session_send tr a f ss = (st, ss') \<Longrightarrow> flagged a ss \<Longrightarrow>
     flagged a ss' \<and> (status_ok st \<longrightarrow> a \<in> s_recovery_pending ss')"
  by (auto dest!: session_send_cases not_io_fails simp: record_outcome_flagged)

lemma query_read_flagged:
  "query_read tr a p g ss = (st, out, ss') \<Longrightarrow> flagged a ss \<Longrightarrow>
     flagged a ss' \<and> (status_ok st \<longrightarrow> a \<in> s_recovery_pending ss')"
  by (auto dest!: query_read_cases not_io_fails simp: record_outcome_flagged)

lemma flagged_rejection [simp]: "flagged a (record_rejection b ss) = flagged a ss"
  by (simp add: flagged_def last_op_failed_def record_rejection_def)

lemma record_outcome_unflagged:
  "\<not> flagged b ss \<Longrightarrow> b = a \<longrightarrow> status_ok st \<Longrightarrow> \<not> flagged b (record_outcome tr a st (ss\<lparr>s_transport := w\<rparr>))"
  by (auto simp: flagged_def last_op_failed_def record_outcome_def Let_def)

lemma session_send_unflagged:
  "session_send tr a f ss = (st, ss') \<Longrightarrow> \<not> flagged b ss \<Longrightarrow> b = a \<longrightarrow> status_ok st \<or> ss' = ss \<Longrightarrow> \<not> flagged b ss'"
  by (auto dest!: session_send_cases simp: record_outcome_unflagged)

lemma query_read_unflagged:
  "query_read tr a p g ss = (st, out, ss') \<Longrightarrow> \<not> flagged b ss \<Longrightarrow> b = a \<longrightarrow> status_ok st \<or> ss' = ss \<Longrightarrow> \<not> flagged b ss'"
  by (auto dest!: query_read_cases simp: record_outcome_unflagged)

text \<open>An operation on a device raises no flag at another address.\<close>

interpretation other_flags: session_invariant ct tr d "\<lambda>ss. word_of_int (dev_address d) \<noteq> b \<longrightarrow> \<not> flagged b ss" for ct tr d b
  by (rule session_invariantI) (auto dest: session_send_unflagged query_read_unflagged)

text \<open>A simulated device with nothing injected answers everything it is asked, so none is raised at its own.\<close>

definition in_good_order :: "contracts \<Rightarrow> inventory_device \<Rightarrow> canned_bus crumbs_transport session \<Rightarrow> bool" where
  "in_good_order ct d ss \<longleftrightarrow>
     status_ok (validate_address (word_of_int (dev_address d))) \<and> \<not> flagged (word_of_int (dev_address d)) ss \<and>
     holds_device (word_of_int (dev_address d)) (calm ct (bread_type_id ct (dev_type d))) (s_transport ss)"

lemma calm_replies:
  assumes "calm ct (bread_type_id ct (dev_type d)) x"
    and "p \<in> byte_of ct ` {CRUMBS_CMD_GET_ACK, BREAD_OP_GET_WATCHDOG, state_query (dev_type d)}"
  shows "\<exists>payload y. reply_payload ct (staged p x) = (Inr payload, y)"
  using assms by (cases "dev_type d") (auto simp: reply_payload_def calm_def answers_def staged_def Let_def)

lemma good_order_invariant:
  assumes "codec_ok ct"
  shows "session_invariant ct (canned_transport ct sys steady scan) d (in_good_order ct d)"
proof (rule session_invariantI)
  let ?a = "word_of_int (dev_address d) :: u8" and ?tr = "canned_transport ct sys steady scan"
  fix ss st ss'
  assume good: "in_good_order ct d ss"
  then obtain x where x: "has_device ss ?a x" "calm ct (bread_type_id ct (dev_type d)) x"
    and holds: "holds_device ?a (calm ct (bread_type_id ct (dev_type d))) (s_transport ss)"
    and flag: "\<not> flagged ?a ss" "status_ok (validate_address ?a)"
    by (auto simp: in_good_order_def has_device_iff holds_device_def)
  show "in_good_order ct d (record_rejection ?a ss)" using good by (simp add: in_good_order_def)
  show "in_good_order ct d ss'" if "session_send ?tr ?a f ss = (st, ss')" for f
  proof -
    have "status_ok st \<or> ss' = ss"
    proof (cases "length (fr_payload f) \<le> 27")
      case True
      from canned_session_send [OF assms x(1) this, of sys steady scan] that show ?thesis by auto
    next
      case False
      with that flag(2) show ?thesis
        by (simp add: session_send_def session_validate_frame_def kMaxPayloadBytes_def status_ok_def failure_def)
    qed
    with session_send_unflagged [OF that flag(1)] calm_frame.session_send_keeps [OF holds that] flag(2)
    show ?thesis by (auto simp: in_good_order_def)
  qed
  show "in_good_order ct d ss'"
    if "p \<in> byte_of ct ` {CRUMBS_CMD_GET_ACK, BREAD_OP_GET_WATCHDOG, state_query (dev_type d)}"
      "query_read ?tr ?a p g ss = (st, out, ss')" for p g out
  proof -
    note reply = calm_replies [OF x(2) that(1)]
    obtain payload y where "reply_payload ct (staged p x) = (Inr payload, y)" using reply by blast
    from canned_session_query [OF assms x(1) this, of sys steady scan g] that(2) have "status_ok st" by auto
    with query_read_unflagged [OF that(2) flag(1)] calm_frame.query_read_keeps [OF holds that(2)] flag(2)
    show ?thesis by (auto simp: in_good_order_def)
  qed
qed

end
