(* ===== verification/Runtime_State.thy ===== *)
theory Runtime_State
  imports Device_Relations
begin

text \<open>
  \<open>src/core/runtime_state\<close> and \<open>src/core/host_check\<close>: the state the process owns, how start-up builds
  and publishes it, and how it is dropped. The four globals are one record; what
  is done under \<open>g_mutex\<close> is one update of it. What the SDK provides is the record \<open>platform\<close>: the
  buses (one state \<open>'b\<close> for the Linux bus and for a canned bus, plain or with faults injected), the
  host checks and the \<open>mock://\<close> query. Clock readings with no session yet are arguments. The
  destruction of a replaced session has no part in the new state, and neither have the log lines.
\<close>

subsection \<open>The platform\<close>

record ('q, 'f, 'b) platform =
  pf_bus :: "'b i2c_bus"
  pf_scan :: "'b controller_scan"
  pf_linux_bus :: "string \<Rightarrow> int \<Rightarrow> 'b" \<comment> \<open>\<open>LinuxI2cBus\<close>: path, retry count\<close>
  pf_canned_bus :: "canned_bus \<Rightarrow> 'b" \<comment> \<open>the canned bus behind the \<open>I2cBus\<close> interface\<close>
  pf_fault_bus :: "canned_bus \<Rightarrow> 'f \<Rightarrow> 'b" \<comment> \<open>\<open>FaultInjectingI2cBus\<close>\<close>
  pf_split_bus_query :: "string \<Rightarrow> string \<times> string"
  pf_parse_faults :: "string \<Rightarrow> string + 'f" \<comment> \<open>\<open>FaultSpec::parse\<close>, or what it throws\<close>
  pf_any_fault :: "'f \<Rightarrow> bool"
  pf_check_host :: "string \<Rightarrow> u32 option \<Rightarrow> 'q list" \<comment> \<open>path, \<open>max_bus_hz\<close>\<close>
  pf_exit_code :: "'q list \<Rightarrow> int"
  pf_readiness_diagnostics :: "'q list \<Rightarrow> string \<rightharpoonup> string"

abbreviation platform_transport ::
  "contracts \<Rightarrow> ('q, 'f, 'b) platform \<Rightarrow> 'b crumbs_transport transport" where
  "platform_transport ct pf \<equiv> crumbs_over_i2c ct (pf_bus pf) (pf_scan pf)"

definition starts_with :: "string \<Rightarrow> string \<Rightarrow> bool" where
  "starts_with p t \<longleftrightarrow> take (length p) t = p"

definition is_mock_mode :: "provider_config \<Rightarrow> bool" where
  "is_mock_mode c \<longleftrightarrow> starts_with ''mock://'' (bus_path c)"

definition check_host :: "('q, 'f, 'b) platform \<Rightarrow> provider_config \<Rightarrow> 'q list" where
  "check_host pf c =
     (if starts_with ''mock://'' (bus_path c) then [] else pf_check_host pf (bus_path c) (max_bus_hz c))"

definition summarize_unmet :: "('q, 'f, 'b) platform \<Rightarrow> 'q list \<Rightarrow> string" where
  "summarize_unmet pf reqs =
     (case pf_readiness_diagnostics pf reqs ''host_unmet'' of None \<Rightarrow> [] | Some text \<Rightarrow> text)"

subsection \<open>The state of the process\<close>

record 'q runtime_state =
  rs_config :: provider_config
  rs_devices :: "inventory_device list"
  rs_ready :: bool
  rs_startup_message :: string
  rs_started_at :: int
  rs_ready_at :: int
  rs_inventory_mode :: string
  rs_unsupported_probe_count :: int
  rs_missing_expected_ids :: "string list"
  rs_missing_expected_details :: "string \<rightharpoonup> string"
  rs_host_requirements :: "'q list"
  rs_safe_outputs :: "string \<rightharpoonup> string"

definition new_runtime_state :: "'q runtime_state" where
  "new_runtime_state =
     \<lparr>rs_config = default_provider_config, rs_devices = [], rs_ready = False, rs_startup_message = [],
      rs_started_at = 0, rs_ready_at = 0, rs_inventory_mode = [], rs_unsupported_probe_count = 0,
      rs_missing_expected_ids = [], rs_missing_expected_details = Map.empty, rs_host_requirements = [],
      rs_safe_outputs = Map.empty\<rparr>"

text \<open>The session owns its transport here; the feeder is the keepalive's thread.\<close>

record ('q, 'w) globals =
  g_state :: "'q runtime_state"
  g_session :: "'w session option"
  g_keepalive :: "keepalive option"
  g_feeder :: feeder

definition new_globals :: "('q, 'w) globals" where
  "new_globals =
     \<lparr>g_state = new_runtime_state, g_session = None, g_keepalive = None, g_feeder = NotStarted\<rparr>"

definition build_startup_message :: "int \<Rightarrow> int \<Rightarrow> string list \<Rightarrow> string \<Rightarrow> string" where
  "build_startup_message device_count unsupported_count missing_ids mode =
     ''BREAD discovery complete ('' @ mode @ ''): '' @ int_to_string device_count @ '' device(s) active'' @
     (if 0 < unsupported_count then '', '' @ int_to_string unsupported_count @ '' unsupported'' else []) @
     (if missing_ids \<noteq> [] then
        '', '' @ nat_to_string (length missing_ids) @ '' expected device(s) missing'' else [])"

definition drop_session :: "'q runtime_state \<Rightarrow> ('q, 'w) globals" where
  "drop_session state = \<lparr>g_state = state, g_session = None, g_keepalive = None, g_feeder = NotStarted\<rparr>"

definition publish_not_ready :: "'q runtime_state \<Rightarrow> string \<Rightarrow> ('q, 'w) globals" where
  "publish_not_ready state reason =
     drop_session (state
       \<lparr>rs_ready := False, rs_startup_message := reason, rs_inventory_mode := ''unavailable'',
        rs_missing_expected_ids := rs_missing_expected_ids state @ map spec_id (config_devices (rs_config state)),
        rs_missing_expected_details :=
          fold (\<lambda>spec m. m(spec_id spec \<mapsto> reason)) (config_devices (rs_config state))
            (rs_missing_expected_details state)\<rparr>)"

definition reset :: "('q, 'w) globals \<Rightarrow> ('q, 'w) globals" where
  "reset g = drop_session new_runtime_state"

definition publish_ready ::
  "'q runtime_state \<Rightarrow> 'w session \<Rightarrow> keepalive \<Rightarrow> ('q, 'w) globals" where
  "publish_ready state ss ka =
     \<lparr>g_state = state, g_session = Some ss, g_keepalive = Some ka, g_feeder = kr_feeder (start 0 ka ss)\<rparr>"

subsection \<open>Start-up\<close>

fun apply_outputs_policy ::
  "contracts \<Rightarrow> 'w transport \<Rightarrow> provider_config \<Rightarrow> inventory_device list \<Rightarrow> (string \<rightharpoonup> string) \<Rightarrow>
   'w session \<Rightarrow> (string \<rightharpoonup> string) \<times> 'w session" where
  "apply_outputs_policy ct tr c [] metrics ss = (metrics, ss)"
| "apply_outputs_policy ct tr c (d # ds) metrics ss =
     (if outputs_policy c = Leave then
        apply_outputs_policy ct tr c ds (metrics(device_id_of d \<mapsto> ''left'')) ss
      else
        let (result, ss1) = drive ct tr d ss
        in apply_outputs_policy ct tr c ds (metrics(device_id_of d \<mapsto> to_metric result)) ss1)"

definition arm_all ::
  "contracts \<Rightarrow> 'w transport \<Rightarrow> inventory_device list \<Rightarrow> 'w session \<Rightarrow> 'w session" where
  "arm_all ct tr ds ss = fold (arm_if_configured ct tr) ds ss"

record init_clocks =
  at_entry :: int \<comment> \<open>steady, ns\<close>
  at_start :: int \<comment> \<open>system clock\<close>
  at_ready :: int
  at_failure :: int
  at_probe :: "nat \<Rightarrow> int" \<comment> \<open>steady, ns, before each address of the discovery\<close>

definition started_state :: "provider_config \<Rightarrow> int \<Rightarrow> 'q runtime_state" where
  "started_state c now = new_runtime_state\<lparr>rs_config := c, rs_started_at := now\<rparr>"

text \<open>The devices driven and armed over the open session, and the keepalive on it.\<close>

definition bring_up ::
  "contracts \<Rightarrow> 'w transport \<Rightarrow> provider_config \<Rightarrow> inventory_device list \<Rightarrow> 'w session \<Rightarrow>
   (string \<rightharpoonup> string) \<times> keepalive \<times> 'w session" where
  "bring_up ct tr c ds ss =
     (let (metrics, ss1) = apply_outputs_policy ct tr c ds Map.empty ss;
          ss2 = arm_all ct tr ds ss1
      in (metrics, new_keepalive ct ds kKeepaliveCap (steady_now tr (s_transport ss2)), ss2))"

definition initialize_hardware ::
  "contracts \<Rightarrow> (string \<Rightarrow> nat \<Rightarrow> string) \<Rightarrow> ('q, 'f, 'b) platform \<Rightarrow> provider_config \<Rightarrow> int option \<Rightarrow>
   (nat \<Rightarrow> int) \<Rightarrow> 'q runtime_state \<Rightarrow> string + ('q, 'b crumbs_transport) globals" where
  "initialize_hardware ct claim_key pf c deadline clock state0 =
     (let state = state0\<lparr>rs_host_requirements := check_host pf c\<rparr> in
      if pf_exit_code pf (rs_host_requirements state) \<noteq> 0 then
        Inr (publish_not_ready state
          (''host requirements unmet: '' @ summarize_unmet pf (rs_host_requirements state)))
      else
        let tr = platform_transport ct pf;
            sess = new_session (new_crumbs_transport (Some (pf_linux_bus pf (bus_path c) (retry_count c))))
              (make_session_options c);
            (open_status, ss) = session_open tr sess
        in if \<not> status_ok open_status then
             Inr (publish_not_ready state
               (''failed to open CRUMBS bus '' @ quoted (bus_path c) @ '': '' @ st_message open_status))
           else case run_discovery ct claim_key tr c deadline clock ss of
             (Inl what, ss1) \<Rightarrow> Inl what
           | (Inr discovery, ss1) \<Rightarrow>
               let (metrics, ka, ss2) = bring_up ct tr c (dr_devices discovery) ss1;
                   unsupported = int (length (dr_unsupported_probes discovery))
               in Inr (publish_ready (state
                    \<lparr>rs_devices := dr_devices discovery, rs_inventory_mode := dr_inventory_mode discovery,
                     rs_unsupported_probe_count := unsupported,
                     rs_missing_expected_ids := dr_missing_expected_ids discovery,
                     rs_missing_expected_details := dr_missing_expected_details discovery,
                     rs_ready := True, rs_ready_at := system_now tr (s_transport ss2),
                     rs_startup_message :=
                       build_startup_message (int (length (dr_devices discovery))) unsupported
                         (dr_missing_expected_ids discovery) (dr_inventory_mode discovery),
                     rs_safe_outputs := metrics\<rparr>) ss2 ka))"

definition seeded_bus :: "contracts \<Rightarrow> string \<Rightarrow> inventory_device list \<Rightarrow> canned_bus" where
  "seeded_bus ct path ds =
     fold (\<lambda>d. add_device (word_of_int (dev_address d)) (bread_type_id ct (dev_type d))) ds (new_canned_bus path)"

definition initialize_mock ::
  "contracts \<Rightarrow> (string \<Rightarrow> nat \<Rightarrow> string) \<Rightarrow> ('q, 'f, 'b) platform \<Rightarrow> provider_config \<Rightarrow> int \<Rightarrow>
   'q runtime_state \<Rightarrow> string + ('q, 'b crumbs_transport) globals" where
  "initialize_mock ct claim_key pf c ready_at state0 =
     (let ds = build_seed_inventory ct claim_key c;
          state = state0
            \<lparr>rs_devices := ds, rs_inventory_mode := inventory_source_to_string ConfigSeeded,
             rs_unsupported_probe_count := 0, rs_ready := True, rs_ready_at := ready_at,
             rs_startup_message := ''config-seeded inventory (mock mode)''\<rparr>;
          (path, fault_query) = pf_split_bus_query pf (bus_path c);
          canned = seeded_bus ct path ds
      in case pf_parse_faults pf fault_query of
        Inl what \<Rightarrow> Inl what
      | Inr faults \<Rightarrow>
          let bus = (if pf_any_fault pf faults then pf_fault_bus pf canned faults else pf_canned_bus pf canned);
              tr = platform_transport ct pf;
              sess = new_session (new_crumbs_transport (Some bus)) (make_session_options c);
              (open_status, ss) = session_open tr sess
          in if \<not> status_ok open_status then
               Inl (''failed to open mock CRUMBS bus '' @ quoted (bus_path c) @ '': '' @ st_message open_status)
             else
               let (metrics, ka, ss2) = bring_up ct tr c ds ss
               in Inr (publish_ready (state\<lparr>rs_safe_outputs := metrics\<rparr>) ss2 ka))"

text \<open>The Linux build; a build for another system has the mock path alone.\<close>

definition initialize_until ::
  "contracts \<Rightarrow> (string \<Rightarrow> nat \<Rightarrow> string) \<Rightarrow> ('q, 'f, 'b) platform \<Rightarrow> provider_config \<Rightarrow> int option \<Rightarrow>
   init_clocks \<Rightarrow> string + ('q, 'b crumbs_transport) globals" where
  "initialize_until ct claim_key pf c deadline clk =
     (if \<not> is_mock_mode c then initialize_hardware ct claim_key pf c deadline (at_probe clk) (started_state c (at_start clk))
      else initialize_mock ct claim_key pf c (at_ready clk) (started_state c (at_start clk)))"

definition kDiscoveryMargin :: int where "kDiscoveryMargin = 3000"

definition discovery_deadline :: "int \<Rightarrow> int \<Rightarrow> int option" where
  "discovery_deadline budget now =
     (if 0 < budget then Some (now + ns_of_ms (max (budget - kDiscoveryMargin) 0)) else None)"

definition initialize ::
  "contracts \<Rightarrow> (string \<Rightarrow> nat \<Rightarrow> string) \<Rightarrow> ('q, 'f, 'b) platform \<Rightarrow> provider_config \<Rightarrow> int \<Rightarrow>
   init_clocks \<Rightarrow> ('q, 'b crumbs_transport) globals \<Rightarrow> ('q, 'b crumbs_transport) globals" where
  "initialize ct claim_key pf c budget clk g =
     (case initialize_until ct claim_key pf c (discovery_deadline budget (at_entry clk)) clk of
        Inr g' \<Rightarrow> g'
      | Inl what \<Rightarrow> publish_not_ready (started_state c (at_failure clk)) (''start-up failed: '' @ what))"

definition record_safe_outputs :: "string \<Rightarrow> string \<Rightarrow> ('q, 'w) globals \<Rightarrow> ('q, 'w) globals" where
  "record_safe_outputs device_id metric g =
     g\<lparr>g_state := (g_state g)\<lparr>rs_safe_outputs := (rs_safe_outputs (g_state g))(device_id \<mapsto> metric)\<rparr>\<rparr>"

definition snapshot :: "('q, 'w) globals \<Rightarrow> 'q runtime_state" where
  "snapshot g = g_state g"

definition note_contact :: "string \<Rightarrow> ('q, 'w) globals \<Rightarrow> ('q, 'w) globals" where
  "note_contact device_id g = g\<lparr>g_keepalive := map_option (contacted device_id) (g_keepalive g)\<rparr>"

subsection \<open>What holds of the state after every start-up\<close>

text \<open>The health metric a policy can leave for a device.\<close>

definition policy_metric :: "provider_config \<Rightarrow> string \<Rightarrow> bool" where
  "policy_metric c t \<longleftrightarrow>
     (if outputs_policy c = Leave then t = ''left'' else t = ''set'' \<or> starts_with ''not set'' t)"

definition metrics_ok :: "provider_config \<Rightarrow> string set \<Rightarrow> (string \<rightharpoonup> string) \<Rightarrow> bool" where
  "metrics_ok c ids m \<longleftrightarrow> dom m = ids \<and> (\<forall>t \<in> ran m. policy_metric c t)"

abbreviation device_ids :: "inventory_device list \<Rightarrow> string set" where
  "device_ids ds \<equiv> device_id_of ` set ds"

lemma to_metric_policy: "outputs_policy c \<noteq> Leave \<Longrightarrow> policy_metric c (to_metric r)"
  by (simp add: policy_metric_def to_metric_def starts_with_def)

lemma metrics_ok_update: "metrics_ok c ids m \<Longrightarrow> policy_metric c t \<Longrightarrow> metrics_ok c (insert i ids) (m(i \<mapsto> t))"
  by (auto simp: metrics_ok_def ran_def)

lemma apply_outputs_policy_metrics:
  "metrics_ok c ids m \<Longrightarrow> apply_outputs_policy ct tr c ds m ss = (m', ss') \<Longrightarrow> metrics_ok c (device_ids ds \<union> ids) m'"
proof (induction ds arbitrary: ids m ss)
  case (Cons d ds)
  have step: "metrics_ok c (insert (device_id_of d) ids) (m(device_id_of d \<mapsto> t))" if "policy_metric c t" for t
    using Cons.prems(1) that by (rule metrics_ok_update)
  show ?case
  proof (cases "outputs_policy c = Leave")
    case True
    then have "policy_metric c ''left''" by (simp add: policy_metric_def)
    from Cons.IH [OF step [OF this]] Cons.prems(2) True show ?thesis by (auto simp del: fun_upd_apply)
  next
    case False
    obtain r ss1 where "drive ct tr d ss = (r, ss1)" by fastforce
    with Cons.prems(2) False Cons.IH [OF step [OF to_metric_policy [OF False]]] show ?thesis
      by (auto simp del: fun_upd_apply)
  qed
qed simp

lemma apply_outputs_policy_open:
  "ct_open (s_transport ss) \<Longrightarrow>
   apply_outputs_policy ct (crumbs_over_i2c ct bus scan) c ds m ss = (m', ss') \<Longrightarrow> ct_open (s_transport ss')"
proof (induction ds arbitrary: m ss)
  case (Cons d ds)
  obtain r ss1 where d: "drive ct (crumbs_over_i2c ct bus scan) d ss = (r, ss1)" by fastforce
  from Cons.IH [OF Cons.prems(1)] Cons.IH [OF open_frame.drive_keeps [OF Cons.prems(1) d]] Cons.prems(2) d
  show ?case by (auto split: if_splits)
qed simp

lemma arm_all_open: "ct_open (s_transport ss) \<Longrightarrow> ct_open (s_transport (arm_all ct (crumbs_over_i2c ct bus scan) ds ss))"
  by (induction ds arbitrary: ss) (simp_all add: arm_all_def open_frame.arm_keeps)

lemma new_keepalive_fed: "map fed_device (ka_fed (new_keepalive ct ds cap t)) = filter (armable ct) ds"
  by (simp add: new_keepalive_def new_fed_def comp_def not_le)

lemma bring_up_spec:
  assumes "bring_up ct (crumbs_over_i2c ct bus scan) c ds ss = (m, ka, ss')" "ct_open (s_transport ss)"
  shows "metrics_ok c (device_ids ds) m" "map fed_device (ka_fed ka) = filter (armable ct) ds"
    "ct_open (s_transport ss')"
proof -
  obtain m1 ss1 where a: "apply_outputs_policy ct (crumbs_over_i2c ct bus scan) c ds Map.empty ss = (m1, ss1)"
    by fastforce
  have "metrics_ok c {} Map.empty" by (simp add: metrics_ok_def)
  from apply_outputs_policy_metrics [OF this a] assms(1) show "metrics_ok c (device_ids ds) m"
    by (simp add: bring_up_def a Let_def)
  show "map fed_device (ka_fed ka) = filter (armable ct) ds"
    using assms(1) by (auto simp: bring_up_def a Let_def new_keepalive_fed)
  show "ct_open (s_transport ss')"
    using assms(1) arm_all_open [OF apply_outputs_policy_open [OF assms(2) a]] by (auto simp: bring_up_def a Let_def)
qed

interpretation open_at: transport_frame "crumbs_over_i2c ct bus scan" a ct_open
  by unfold_locales
    (simp_all add: transport_send_def transport_read_def transport_delay_us_def Let_def split: option.splits prod.splits)

lemma query_reply_loop_open:
  "ct_open (s_transport ss) \<Longrightarrow> query_reply_loop (crumbs_over_i2c ct bus scan) a p n st g ss = (st', g', ss') \<Longrightarrow>
   ct_open (s_transport ss')"
proof (induction n arbitrary: st g ss)
  case (Suc n)
  obtain st1 g1 ss1 where q: "query_read (crumbs_over_i2c ct bus scan) a p g ss = (st1, g1, ss1)" by (metis prod_cases3)
  from open_at.query_read_keeps [OF Suc.prems(1) q] Suc.prems(2) Suc.IH show ?case by (auto simp: q split: if_splits)
qed simp

lemma probe_device_open:
  assumes "ct_open (s_transport ss)" "probe_device ct (crumbs_over_i2c ct' bus scan) a ss = (p, ss')"
  shows "ct_open (s_transport ss')"
proof -
  let ?tr = "crumbs_over_i2c ct' bus scan"
  obtain st g ss1 where q: "query_reply ?tr a 0 empty_frame ss = (st, g, ss1)" by (metis prod_cases3)
  from query_reply_loop_open [OF assms(1)] q have o: "ct_open (s_transport ss1)" by (auto simp: query_reply_def)
  obtain st2 g2 ss2 where c: "query_reply ?tr a (byte_of ct BREAD_OP_GET_CAPS) empty_frame ss1 = (st2, g2, ss2)"
    by (metis prod_cases3)
  from query_reply_loop_open [OF o] c have o2: "ct_open (s_transport ss2)" by (auto simp: query_reply_def)
  have caps: "probe_caps ct ?tr a ty ss1 = (pf, ss') \<Longrightarrow> ss' = ss2" for ty pf
    by (auto simp: probe_caps_def c split: option.splits if_splits)
  show ?thesis
  proof (cases "judge_version ct st g (new_probe a)")
    case (Inl p')
    with assms(2) q o show ?thesis by (simp add: probe_device_def)
  next
    case (Inr x)
    obtain ty pr where x: "x = (ty, pr)" by fastforce
    obtain pf ss3 where "probe_caps ct ?tr a ty ss1 = (pf, ss3)" by fastforce
    with assms(2) q Inr x caps o2 show ?thesis by (auto simp: probe_device_def)
  qed
qed

lemma probe_all_open:
  "ct_open (s_transport ss) \<Longrightarrow> probe_all ct (crumbs_over_i2c ct' bus scan) deadline clock xs ss = (ps, un, ss') \<Longrightarrow>
   ct_open (s_transport ss')"
proof (induction xs arbitrary: clock ss ps un)
  case (Cons x xs)
  obtain addr a where x: "x = (addr, a)" by fastforce
  obtain p ss1 where p: "probe_device ct (crumbs_over_i2c ct' bus scan) a ss = (p, ss1)" by fastforce
  from probe_device_open [OF Cons.prems(1) p] Cons.prems Cons.IH show ?case
    by (auto simp: x p split: if_splits prod.splits)
qed simp

lemma session_scan_open:
  assumes "ct_open (s_transport ss)" "session_scan (crumbs_over_i2c ct bus scan) o' out ss = (st, rs, ss')"
  shows "ct_open (s_transport ss')"
proof -
  let ?fn = "\<lambda>(out, w). tr_scan (crumbs_over_i2c ct bus scan) o' out w"
  obtain st1 rs1 w where run: "execute_with_retry (s_options ss) ''scan'' ?fn ([], s_transport ss) = (st1, rs1, w)"
    by (metis prod_cases3)
  have "ct_open (snd (snd (execute_with_retry (s_options ss) ''scan'' ?fn ([], s_transport ss))))"
    by (rule retry_preserves [where P = "\<lambda>x. ct_open (snd x)"])
      (use assms(1) crumbs_tr.scan_keeps_open [of ct bus scan o'] in \<open>simp_all add: split_beta\<close>)
  with assms run show ?thesis by (auto simp: session_scan_def Let_def split: if_splits prod.splits)
qed

lemma run_discovery_open:
  assumes "ct_open (s_transport ss)" "run_discovery ct ck (crumbs_over_i2c ct' bus scan) c deadline clock ss = (r, ss')"
  shows "ct_open (s_transport ss')"
proof -
  let ?tr = "crumbs_over_i2c ct' bus scan"
  obtain st rs ss1 where s: "session_scan ?tr default_scan_options [] ss = (st, rs, ss1)" by (metis prod_cases3)
  note o = session_scan_open [OF assms(1) s]
  show ?thesis
    using assms(2) o probe_all_open [OF o] probe_all_open [OF assms(1)]
    by (auto simp: run_discovery_def s split: if_splits prod.splits)
qed

text \<open>
  The invariant of the globals. When the provider is ready there is a session, open, and a keepalive
  that feeds exactly the devices whose watchdog is armed, and every device has a health metric of
  the output policy. When it is not, there is neither, no device is served, and every configured
  device is reported missing for the published reason.
\<close>

definition runtime_inv :: "contracts \<Rightarrow> ('q, 'b crumbs_transport) globals \<Rightarrow> bool" where
  "runtime_inv ct g \<longleftrightarrow>
     (let state = g_state g in
      if rs_ready state then
        (\<exists>ss ka. g_session g = Some ss \<and> ct_open (s_transport ss) \<and> g_keepalive g = Some ka \<and>
           map fed_device (ka_fed ka) = filter (armable ct) (rs_devices state)) \<and>
        metrics_ok (rs_config state) (device_ids (rs_devices state)) (rs_safe_outputs state)
      else
        g_session g = None \<and> g_keepalive g = None \<and> rs_devices state = [] \<and>
        rs_missing_expected_ids state = map spec_id (config_devices (rs_config state)) \<and>
        (\<forall>i \<in> set (rs_missing_expected_ids state).
           rs_missing_expected_details state i = Some (rs_startup_message state)))"

lemma reason_for_all:
  "fold (\<lambda>spec m. m(spec_id spec \<mapsto> reason)) specs m i =
     (if i \<in> spec_id ` set specs then Some reason else m i)"
  by (induction specs arbitrary: m) auto

lemma publish_not_ready_inv:
  "rs_missing_expected_ids state = [] \<Longrightarrow> rs_devices state = [] \<Longrightarrow> runtime_inv ct (publish_not_ready state reason)"
  by (simp add: runtime_inv_def publish_not_ready_def drop_session_def reason_for_all)

lemma publish_ready_inv:
  assumes "bring_up ct (crumbs_over_i2c ct bus scan) (rs_config state) (rs_devices state) ss = (m, ka, ss')"
    "ct_open (s_transport ss)" "rs_ready state" "rs_safe_outputs state = m"
  shows "runtime_inv ct (publish_ready state ss' ka)"
  using bring_up_spec [OF assms(1,2)] assms(3,4) by (simp add: runtime_inv_def publish_ready_def Let_def)

lemma session_open_ct_open:
  "session_open (crumbs_over_i2c ct bus scan) ss = (st, ss') \<Longrightarrow> status_ok st \<Longrightarrow> ct_open (s_transport ss')"
  using crumbs_tr.open_session_opens [of ct bus scan ss] by (simp add: session_is_open_def)

lemma started_state_simps [simp]:
  "rs_config (started_state c now) = c" "rs_devices (started_state c now) = []"
  "rs_missing_expected_ids (started_state c now) = []"
  by (simp_all add: started_state_def new_runtime_state_def)

lemma initialize_hardware_inv:
  assumes "initialize_hardware ct ck pf c deadline clock (started_state c now) = Inr g"
  shows "runtime_inv ct g"
proof -
  let ?tr = "platform_transport ct pf"
  let ?state = "(started_state c now)\<lparr>rs_host_requirements := check_host pf c\<rparr>"
  let ?sess = "new_session (new_crumbs_transport (Some (pf_linux_bus pf (bus_path c) (retry_count c)))) (make_session_options c)"
  obtain st ss where o: "session_open ?tr ?sess = (st, ss)" by fastforce
  obtain r ss1 where r: "run_discovery ct ck ?tr c deadline clock ss = (r, ss1)" by fastforce
  consider reason where "g = publish_not_ready ?state reason" | disc where "status_ok st" "r = Inr disc"
    using assms by (auto simp: initialize_hardware_def o r Let_def split: if_splits sum.splits)
  then show ?thesis
  proof cases
    case 1
    then show ?thesis by (simp add: publish_not_ready_inv)
  next
    case 2
    obtain m ka ss2 where b: "bring_up ct ?tr c (dr_devices disc) ss1 = (m, ka, ss2)" by (metis prod_cases3)
    have "ct_open (s_transport ss1)"
      using session_open_ct_open [OF o] 2(1) run_discovery_open [OF _ r] by blast
    note ready = publish_ready_inv [OF _ this, where m = m and ka = ka and ss' = ss2 and bus = "pf_bus pf" and
      scan = "pf_scan pf" and ct = ct]
    show ?thesis
      using assms 2 o r b
      by (auto simp: initialize_hardware_def Let_def publish_not_ready_inv intro!: ready split: if_splits)
  qed
qed

lemma initialize_mock_inv:
  assumes "initialize_mock ct ck pf c ready_at (started_state c now) = Inr g"
  shows "runtime_inv ct g"
proof -
  let ?tr = "platform_transport ct pf" and ?ds = "build_seed_inventory ct ck c"
  obtain path query where q: "pf_split_bus_query pf (bus_path c) = (path, query)" by fastforce
  obtain faults where f: "pf_parse_faults pf query = Inr faults"
    using assms by (auto simp: initialize_mock_def q Let_def split: sum.splits)
  define bus where "bus = (if pf_any_fault pf faults then pf_fault_bus pf (seeded_bus ct path ?ds) faults
    else pf_canned_bus pf (seeded_bus ct path ?ds))"
  obtain st ss where o: "session_open ?tr (new_session (new_crumbs_transport (Some bus)) (make_session_options c)) = (st, ss)"
    by fastforce
  obtain m ka ss2 where b: "bring_up ct ?tr c ?ds ss = (m, ka, ss2)" by (metis prod_cases3)
  have ok: "status_ok st"
    using assms by (auto simp: initialize_mock_def q f bus_def [symmetric] o Let_def split: if_splits)
  note ready = publish_ready_inv [OF _ session_open_ct_open [OF o ok], where m = m and ka = ka and ss' = ss2 and
    bus = "pf_bus pf" and scan = "pf_scan pf" and ct = ct]
  show ?thesis
    using assms ok b by (auto simp: initialize_mock_def q f bus_def [symmetric] o Let_def intro!: ready)
qed

lemma initialize_inv: "runtime_inv ct (initialize ct ck pf c budget clk g)"
  using initialize_hardware_inv initialize_mock_inv
  by (auto simp: initialize_def initialize_until_def publish_not_ready_inv split: sum.splits if_splits)

subsection \<open>Start-up accounts for the configuration\<close>

definition accounted :: "provider_config \<Rightarrow> 'q runtime_state \<Rightarrow> bool" where
  "accounted c state \<longleftrightarrow>
     (\<forall>s \<in> set (config_devices c).
        (spec_id s \<in> set (rs_missing_expected_ids state) \<longleftrightarrow> spec_address s \<notin> dev_address ` set (rs_devices state)) \<and>
        (\<forall>d \<in> set (rs_devices state). dev_address d = spec_address s \<longrightarrow> device_id_of d = spec_id s \<and> dev_type d = spec_type s))"

lemma publish_not_ready_accounted:
  "rs_config state = c \<Longrightarrow> rs_devices state = [] \<Longrightarrow> accounted c (g_state (publish_not_ready state reason))"
  by (auto simp: accounted_def publish_not_ready_def drop_session_def)

lemma finish_discovery_accounted:
  assumes "distinct (map spec_address (config_devices c))" "distinct (map spec_id (config_devices c))"
    and "rs_devices state = dr_devices (finish_discovery ct claim_key c ps un src)"
    and "rs_missing_expected_ids state = dr_missing_expected_ids (finish_discovery ct claim_key c ps un src)"
  shows "accounted c state"
proof -
  let ?r = "finish_discovery ct claim_key c ps un src"
  have ds: "dr_devices ?r = supported_devices (build_inventory_from_probes ct claim_key c ps src)"
    by (simp add: finish_discovery_def Let_def)
  have "spec_id s \<in> set (dr_missing_expected_ids ?r) \<longleftrightarrow> spec_address s \<notin> dev_address ` set (dr_devices ?r)"
    if "s \<in> set (config_devices c)" for s
    using finish_discovery_missing(2) [OF assms(1), of ct claim_key ps un src] assms(2) that
    by (auto simp: distinct_map dest: inj_onD)
  moreover have "device_id_of d = spec_id s \<and> dev_type d = spec_type s"
    if "s \<in> set (config_devices c)" "d \<in> set (dr_devices ?r)" "dev_address d = spec_address s" for s d
    using inventory_entry [OF assms(1) that(2) [unfolded ds] that(1)] that(3) by simp
  ultimately show ?thesis by (simp add: accounted_def assms(3,4))
qed

lemma run_discovery_found:
  "run_discovery ct claim_key tr c deadline clock ss = (Inr r, ss') \<Longrightarrow> \<exists>ps un src. r = finish_discovery ct claim_key c ps un src"
  by (auto simp: run_discovery_def Let_def split: if_splits prod.splits)

lemma initialize_hardware_accounted:
  assumes "distinct (map spec_address (config_devices c))" "distinct (map spec_id (config_devices c))"
    and "rs_config state = c" "rs_devices state = []" "initialize_hardware ct claim_key pf c deadline clock state = Inr g"
  shows "accounted c (g_state g)"
proof -
  from assms(5) consider
      (failed) reason reqs where "g = publish_not_ready (state\<lparr>rs_host_requirements := reqs\<rparr>) reason"
    | (found) ps un src where "rs_devices (g_state g) = dr_devices (finish_discovery ct claim_key c ps un src)"
        "rs_missing_expected_ids (g_state g) = dr_missing_expected_ids (finish_discovery ct claim_key c ps un src)"
    by (auto simp: initialize_hardware_def publish_ready_def Let_def dest!: run_discovery_found split: if_splits sum.splits prod.splits)
  then show ?thesis
  proof cases
    case failed
    with assms(3,4) show ?thesis by (simp add: publish_not_ready_accounted)
  next
    case found
    then show ?thesis by (rule finish_discovery_accounted [OF assms(1,2)])
  qed
qed

lemma initialize_mock_accounted:
  assumes "labels_distinct ct" "distinct (map spec_address (config_devices c))" "rs_missing_expected_ids state = []"
    and "initialize_mock ct claim_key pf c ready_at state = Inr g"
  shows "accounted c (g_state g)"
proof -
  have "rs_devices (g_state g) = build_seed_inventory ct claim_key c" "rs_missing_expected_ids (g_state g) = []"
    using assms(3,4) by (auto simp: initialize_mock_def publish_ready_def Let_def split: if_splits sum.splits prod.splits)
  moreover have "inj_on spec_address (set (config_devices c))" using assms(2) by (simp add: distinct_map)
  ultimately show ?thesis
    using seed_inventory_eq [OF assms(1,2), of claim_key]
    by (auto simp: accounted_def expected_device_def seed_probe_def image_image dest: inj_onD)
qed

end
