(* ===== verification/Mock_Startup.thy ===== *)
theory Mock_Startup
  imports Runtime_State
begin

text \<open>
  Start-up on a plain \<open>mock://\<close> bus, end to end: what every simulated board holds once \<open>initialize\<close>
  has published the provider ready. The pass over the devices is followed with the frames of
  \<open>Operation_Frames\<close>: driving and arming one board leaves the others as they are.
\<close>

fun outputs_safe :: "contracts \<Rightarrow> device_type \<Rightarrow> device_state \<Rightarrow> bool" where
  "outputs_safe ct Rlht x \<longleftrightarrow>
     d_rlht_sp1_deci_c x = 0 \<and> d_rlht_sp2_deci_c x = 0 \<and> d_rlht_mode x = byte_of ct RLHT_MODE_OPEN_LOOP \<and>
     d_rlht_on1_ms x = 0 \<and> d_rlht_on2_ms x = 0"
| "outputs_safe ct Dcmt x \<longleftrightarrow>
     d_dcmt_mode x = byte_of ct DCMT_MODE_OPEN_LOOP \<and> d_dcmt_m1_pwm x = 0 \<and> d_dcmt_m2_pwm x = 0"

definition watchdog_set :: "contracts \<Rightarrow> inventory_device \<Rightarrow> device_state \<Rightarrow> bool" where
  "watchdog_set ct d x \<longleftrightarrow> (armable ct d \<longrightarrow> d_watchdog_timeout_ms x = word_of_int (dev_command_watchdog_ms d))"

abbreviation device_byte :: "inventory_device \<Rightarrow> u8" where
  "device_byte d \<equiv> word_of_int (dev_address d)"

abbreviation fresh :: "contracts \<Rightarrow> inventory_device \<Rightarrow> device_state \<Rightarrow> bool" where
  "fresh ct d \<equiv> calm ct (bread_type_id ct (dev_type d))"

definition made_safe :: "contracts \<Rightarrow> inventory_device \<Rightarrow> device_state \<Rightarrow> bool" where
  "made_safe ct d x \<longleftrightarrow> fresh ct d x \<and> outputs_safe ct (dev_type d) x"

lemma holds_device_mono: "holds_device a Q t \<Longrightarrow> (\<And>x. Q x \<Longrightarrow> R x) \<Longrightarrow> holds_device a R t"
  by (auto simp: holds_device_def)

lemma holds_device_conj: "holds_device a Q t \<Longrightarrow> holds_device a R t \<Longrightarrow> holds_device a (\<lambda>x. Q x \<and> R x) t"
  by (auto simp: holds_device_def)

lemma holds_deviceE:
  assumes "holds_device a Q (s_transport ss)" "status_ok (validate_address a)"
  obtains x where "has_device ss a x" "Q x"
  using assms by (auto simp: has_device_iff holds_device_def)

lemma outputs_safe_same: "same_outputs x y \<Longrightarrow> outputs_safe ct ty x = outputs_safe ct ty y"
  by (cases ty) (simp_all add: same_outputs_def)

lemma outputs_safe_commands:
  assumes "opcodes_ok ct" "labels_distinct ct" "d_type_id x = bread_type_id ct ty"
  shows "outputs_safe ct ty (run_commands ct (\<lambda>_. True) (safe_frames_for ct ty) x)"
proof (cases ty)
  case Rlht
  with assms(3) show ?thesis using rlht_safe_effect [OF assms(1,2) _ refl, of x "\<lambda>_. True"] by simp
next
  case Dcmt
  with assms(3) show ?thesis using dcmt_safe_effect [OF assms(1) _ refl, of x "\<lambda>_. True"] by simp
qed

lemma drive_fresh:
  assumes "codec_ok ct" "ack_ok ct" "opcodes_ok ct" "labels_distinct ct" "set_confirmation ct d \<noteq> Unconfirmed"
    and addr: "status_ok (validate_address (device_byte d))"
    and holds: "holds_device (device_byte d) (fresh ct d) (s_transport ss)"
    and drive: "drive ct (canned_transport ct sys steady scan) d ss = (res, ss')"
  shows "so_ok res \<and> holds_device (device_byte d) (made_safe ct d) (s_transport ss')"
proof -
  obtain x where x: "has_device ss (device_byte d) x" "fresh ct d x" by (rule holds_deviceE [OF holds addr])
  have ap: "applies ct (d_next_outcomes x) = (\<lambda>_. True)" and ans: "answers ct x"
    and ty: "d_type_id x = bread_type_id ct (dev_type d)"
    using x(2) by (auto simp: calm_def applies_def)
  obtain y where y: "has_device ss' (device_byte d) y" "so_ok res"
      "same_outputs y (run_commands ct (\<lambda>_. True) (safe_frames_for ct (dev_type d)) x)"
    using drive_canned [OF assms(1-3,5) x(1) ans, of sys steady scan] by (auto simp: ap drive)
  have "outputs_safe ct (dev_type d) y"
    using outputs_safe_commands [OF assms(3,4) ty] outputs_safe_same [OF y(3)] by simp
  then have "holds_device (device_byte d) (outputs_safe ct (dev_type d)) (s_transport ss')"
    using y(1) by (auto simp: has_device_iff elim: holds_device_mono)
  from holds_device_conj [OF calm_frame.drive_keeps [OF holds drive] this] y(2) show ?thesis
    by (auto simp: made_safe_def elim: holds_device_mono)
qed

lemma arm_fresh:
  assumes "codec_ok ct" "opcodes_ok ct"
    and addr: "status_ok (validate_address (device_byte d))"
    and holds: "holds_device (device_byte d) (made_safe ct d) (s_transport ss)"
  shows "holds_device (device_byte d) (\<lambda>x. made_safe ct d x \<and> watchdog_set ct d x)
    (s_transport (arm_if_configured ct (canned_transport ct sys steady scan) d ss))"
proof (cases "armable ct d")
  case True
  let ?ss = "arm_if_configured ct (canned_transport ct sys steady scan) d ss"
  obtain x where x: "has_device ss (device_byte d) x" "made_safe ct d x" by (rule holds_deviceE [OF holds addr])
  have "d_drop_count x = 0" "next_outcome ct x = (byte_of ct CRUMBS_ACK_APPLIED, 0)"
    using x(2) by (simp_all add: made_safe_def calm_def answers_def next_outcome_def)
  from canned_arm [OF assms(1,2) x(1) True this] obtain y where y: "has_device ?ss (device_byte d) y"
    "same_outputs y (x\<lparr>d_watchdog_timeout_ms := word_of_int (dev_command_watchdog_ms d)\<rparr>)" by blast
  have "outputs_safe ct (dev_type d) y \<and> watchdog_set ct d y"
    using outputs_safe_same [OF y(2)] x(2) y(2)
    by (cases "dev_type d") (simp_all add: made_safe_def watchdog_set_def same_outputs_def)
  then have "holds_device (device_byte d) (\<lambda>y. outputs_safe ct (dev_type d) y \<and> watchdog_set ct d y) (s_transport ?ss)"
    using y(1) by (auto simp: has_device_iff elim: holds_device_mono)
  moreover have "holds_device (device_byte d) (fresh ct d) (s_transport ?ss)"
    by (rule calm_frame.arm_keeps) (use holds in \<open>auto simp: made_safe_def elim: holds_device_mono\<close>)
  ultimately show ?thesis
    by (auto simp: made_safe_def dest: holds_device_conj elim: holds_device_mono)
next
  case False
  with holds show ?thesis by (auto simp: arm_unarmable watchdog_set_def elim!: holds_device_mono)
qed

subsection \<open>The pass over the devices\<close>

lemma policy_others:
  assumes "\<forall>d \<in> set ds. device_byte d \<noteq> b" "holds_device b Q (s_transport ss)"
    "apply_outputs_policy ct (canned_transport ct sys steady scan) c ds m ss = (m', ss')"
  shows "holds_device b Q (s_transport ss')"
  using assms
proof (induction ds arbitrary: m ss)
  case (Cons d ds)
  obtain r ss1 where d: "drive ct (canned_transport ct sys steady scan) d ss = (r, ss1)" by fastforce
  have "holds_device b Q (s_transport ss1)"
    using others.drive_keeps [OF _ d, of b Q] Cons.prems(1,2) by simp
  then show ?case using Cons.IH Cons.prems d by (auto split: if_splits)
qed simp

lemma arm_all_others:
  assumes "\<forall>d \<in> set ds. device_byte d \<noteq> b" "holds_device b Q (s_transport ss)"
  shows "holds_device b Q (s_transport (arm_all ct (canned_transport ct sys steady scan) ds ss))"
  using assms
proof (induction ds arbitrary: ss)
  case (Cons d ds)
  have "holds_device b Q (s_transport (arm_if_configured ct (canned_transport ct sys steady scan) d ss))"
    using others.arm_keeps [of d b Q ss ct sys steady scan] Cons.prems by simp
  from Cons.IH [OF _ this] Cons.prems show ?case by (simp add: arm_all_def)
qed (simp add: arm_all_def)

definition placed :: "contracts \<Rightarrow> inventory_device list \<Rightarrow> bool" where
  "placed ct ds \<longleftrightarrow> distinct (map device_byte ds) \<and>
     (\<forall>d \<in> set ds. status_ok (validate_address (device_byte d)) \<and> set_confirmation ct d \<noteq> Unconfirmed)"

lemma placed_Cons:
  "placed ct (d # ds) \<longleftrightarrow> placed ct ds \<and> (\<forall>e \<in> set ds. device_byte e \<noteq> device_byte d) \<and>
     status_ok (validate_address (device_byte d)) \<and> set_confirmation ct d \<noteq> Unconfirmed"
  unfolding placed_def by (simp add: image_iff) metis

lemma policy_makes_safe:
  assumes "codec_ok ct" "ack_ok ct" "opcodes_ok ct" "labels_distinct ct" "outputs_policy c = Safe"
    and "placed ct ds" "\<forall>d \<in> set ds. holds_device (device_byte d) (fresh ct d) (s_transport ss)"
    and "apply_outputs_policy ct (canned_transport ct sys steady scan) c ds m ss = (m', ss')"
  shows "(\<forall>d \<in> set ds. holds_device (device_byte d) (made_safe ct d) (s_transport ss') \<and>
      m' (device_id_of d) = Some ''set'') \<and> (\<forall>i. m i = Some ''set'' \<longrightarrow> m' i = Some ''set'')"
  using assms(6-8)
proof (induction ds arbitrary: m ss)
  case (Cons d ds)
  let ?tr = "canned_transport ct sys steady scan"
  obtain r ss1 where d: "drive ct ?tr d ss = (r, ss1)" by fastforce
  have pd: "placed ct ds" "\<forall>e \<in> set ds. device_byte e \<noteq> device_byte d" "set_confirmation ct d \<noteq> Unconfirmed"
    "status_ok (validate_address (device_byte d))" using Cons.prems(1) by (simp_all add: placed_Cons)
  have safe: "so_ok r \<and> holds_device (device_byte d) (made_safe ct d) (s_transport ss1)"
    using drive_fresh [OF assms(1-4) pd(3,4) _ d] Cons.prems(2) by simp
  have rest: "apply_outputs_policy ct ?tr c ds (m(device_id_of d \<mapsto> ''set'')) ss1 = (m', ss')"
    using Cons.prems(3) assms(5) safe by (simp add: d to_metric_def)
  have "\<forall>e \<in> set ds. holds_device (device_byte e) (fresh ct e) (s_transport ss1)"
  proof
    fix e assume e: "e \<in> set ds"
    from others.drive_keeps [OF _ d, of "device_byte e" "fresh ct e"] e pd(2) Cons.prems(2)
    show "holds_device (device_byte e) (fresh ct e) (s_transport ss1)" by auto
  qed
  note ih = Cons.IH [OF pd(1) this rest]
  have "holds_device (device_byte d) (made_safe ct d) (s_transport ss')"
    by (rule policy_others [OF pd(2) _ rest]) (use safe in simp)
  moreover have "m' (device_id_of d) = Some ''set''" using ih by simp
  moreover have "m' i = Some ''set''" if "m i = Some ''set''" for i
    using ih that by (cases "i = device_id_of d") simp_all
  ultimately show ?case using ih by simp
qed simp

lemma arm_all_sets:
  assumes "codec_ok ct" "opcodes_ok ct" "placed ct ds"
    and "\<forall>d \<in> set ds. holds_device (device_byte d) (made_safe ct d) (s_transport ss)"
  shows "\<forall>d \<in> set ds. holds_device (device_byte d) (\<lambda>x. made_safe ct d x \<and> watchdog_set ct d x)
    (s_transport (arm_all ct (canned_transport ct sys steady scan) ds ss))"
  using assms(3,4)
proof (induction ds arbitrary: ss)
  case (Cons d ds)
  let ?tr = "canned_transport ct sys steady scan"
  let ?ss = "arm_if_configured ct ?tr d ss"
  have pd: "placed ct ds" "\<forall>e \<in> set ds. device_byte e \<noteq> device_byte d" "status_ok (validate_address (device_byte d))"
    using Cons.prems(1) by (simp_all add: placed_Cons)
  have "\<forall>e \<in> set ds. holds_device (device_byte e) (made_safe ct e) (s_transport ?ss)"
  proof
    fix e assume e: "e \<in> set ds"
    from others.arm_keeps [of d "device_byte e" "made_safe ct e" ss ct sys steady scan] e pd(2) Cons.prems(2)
    show "holds_device (device_byte e) (made_safe ct e) (s_transport ?ss)" by auto
  qed
  from Cons.IH [OF pd(1) this] arm_all_others [OF pd(2) arm_fresh [OF assms(1,2) pd(3)]] Cons.prems(2)
  show ?case by (simp add: arm_all_def)
qed simp

text \<open>A board in good order stays so through the pass, when its own turn comes and when another's does.\<close>

lemma good_order_keeps:
  assumes "codec_ok ct" "d = e \<or> device_byte d \<noteq> device_byte e" "in_good_order ct e ss"
  shows "drive ct (canned_transport ct sys steady scan) d ss = (r, ss') \<Longrightarrow> in_good_order ct e ss'"
    and "in_good_order ct e (arm_if_configured ct (canned_transport ct sys steady scan) d ss)"
proof -
  let ?tr = "canned_transport ct sys steady scan"
  have e: "\<not> flagged (device_byte e) ss" "holds_device (device_byte e) (fresh ct e) (s_transport ss)"
    "status_ok (validate_address (device_byte e))" using assms(3) by (simp_all add: in_good_order_def)
  note own = good_order_invariant [OF assms(1), of sys steady scan e]
  show "in_good_order ct e ss'" if "drive ct ?tr d ss = (r, ss')"
  proof (cases "d = e")
    case True
    with session_invariant.drive_keeps_inv [OF own assms(3)] that show ?thesis by simp
  next
    case False
    with other_flags.drive_keeps_inv [OF _ that, of "device_byte e"] others.drive_keeps [OF _ that, of "device_byte e" "fresh ct e"]
      assms(2) e show ?thesis by (simp add: in_good_order_def)
  qed
  show "in_good_order ct e (arm_if_configured ct ?tr d ss)"
  proof (cases "d = e")
    case True
    with session_invariant.arm_keeps_inv [OF own assms(3)] show ?thesis by simp
  next
    case False
    with other_flags.arm_keeps_inv [of d "device_byte e" ss ct ?tr] others.arm_keeps [of d "device_byte e" "fresh ct e" ss ct sys steady scan]
      assms(2) e show ?thesis by (simp add: in_good_order_def)
  qed
qed

lemma bring_up_good_order:
  assumes "codec_ok ct" "\<forall>d \<in> set ds. d = e \<or> device_byte d \<noteq> device_byte e" "in_good_order ct e ss"
    "bring_up ct (canned_transport ct sys steady scan) c ds ss = (m, ka, ss')"
  shows "in_good_order ct e ss'"
proof -
  let ?tr = "canned_transport ct sys steady scan"
  have policy: "in_good_order ct e ss2" if "apply_outputs_policy ct ?tr c ds m0 ss1 = (m1, ss2)" "in_good_order ct e ss1"
    for m0 m1 ss1 ss2
    using assms(2) that
  proof (induction ds arbitrary: m0 ss1)
    case (Cons d ds)
    obtain r ss3 where d: "drive ct ?tr d ss1 = (r, ss3)" by fastforce
    from Cons.prems good_order_keeps(1) [OF assms(1) _ Cons.prems(3) d] Cons.IH show ?case by (auto simp: d split: if_splits)
  qed simp
  have arm: "in_good_order ct e (arm_all ct ?tr ds ss1)" if "in_good_order ct e ss1" for ss1
    using assms(2) that
    by (induction ds arbitrary: ss1) (simp_all add: arm_all_def good_order_keeps(2) [OF assms(1)])
  obtain m1 ss1 where "apply_outputs_policy ct ?tr c ds Map.empty ss = (m1, ss1)" by fastforce
  with policy [OF this assms(3)] arm assms(4) show ?thesis by (auto simp: bring_up_def Let_def)
qed

subsection \<open>From the configuration to the boards\<close>

definition seed_all :: "contracts \<Rightarrow> inventory_device list \<Rightarrow> canned_bus \<Rightarrow> canned_bus" where
  "seed_all ct ds cb = fold (\<lambda>d. add_device (device_byte d) (bread_type_id ct (dev_type d))) ds cb"

lemma seed_all_Cons: "seed_all ct (d # ds) cb = seed_all ct ds (add_device (device_byte d) (bread_type_id ct (dev_type d)) cb)"
  by (simp add: seed_all_def)

lemma seed_all_other: "a \<notin> device_byte ` set ds \<Longrightarrow> cb_devices (seed_all ct ds cb) a = cb_devices cb a"
proof (induction ds arbitrary: cb)
  case (Cons e ds)
  then have "cb_devices (add_device (device_byte e) (bread_type_id ct (dev_type e)) cb) a = cb_devices cb a"
    by (simp add: add_device_def)
  with Cons show ?case by (simp add: seed_all_Cons)
qed (simp add: seed_all_def)

lemma seed_all_fresh:
  "distinct (map device_byte ds) \<Longrightarrow> d \<in> set ds \<Longrightarrow> \<forall>e \<in> set ds. cb_devices cb (device_byte e) = None \<Longrightarrow>
   cb_devices (seed_all ct ds cb) (device_byte d) = Some (new_device\<lparr>d_type_id := bread_type_id ct (dev_type d)\<rparr>)"
proof (induction ds arbitrary: cb)
  case (Cons e ds)
  let ?cb = "add_device (device_byte e) (bread_type_id ct (dev_type e)) cb"
  have put: "cb_devices ?cb = (cb_devices cb)(device_byte e \<mapsto> new_device\<lparr>d_type_id := bread_type_id ct (dev_type e)\<rparr>)"
    using Cons.prems(3) by (simp add: add_device_def device_at_def)
  show ?case
  proof (cases "d = e")
    case True
    with Cons.prems(1) show ?thesis by (simp add: seed_all_Cons seed_all_other put)
  next
    case False
    have "\<forall>f \<in> set ds. device_byte f \<noteq> device_byte e" using Cons.prems(1) by (auto simp: image_iff)
    then have "\<forall>f \<in> set ds. cb_devices ?cb (device_byte f) = None" using Cons.prems(3) by (simp add: put)
    with Cons.IH [of ?cb] Cons.prems(1,2) False show ?thesis by (simp add: seed_all_Cons)
  qed
qed simp

lemma calm_new_device: "calm ct t (new_device\<lparr>d_type_id := t\<rparr>)"
  by (simp add: calm_def answers_def new_device_def)

lemma seeded_bus_fresh:
  assumes "distinct (map device_byte ds)" "d \<in> set ds"
  shows "cb_devices (seeded_bus ct path ds) (device_byte d) =
    Some (new_device\<lparr>d_type_id := bread_type_id ct (dev_type d)\<rparr>)"
  using seed_all_fresh [OF assms, of "new_canned_bus path" ct]
  by (simp add: seeded_bus_def seed_all_def new_canned_bus_def)

text \<open>A platform whose bus for a \<open>mock://\<close> path is the canned bus itself, with no fault asked for.\<close>

definition plain_mock :: "contracts \<Rightarrow> ('q, 'f, canned_bus) platform \<Rightarrow> string \<Rightarrow> bool" where
  "plain_mock ct pf path \<longleftrightarrow>
     (\<exists>sys steady. pf_bus pf = canned_i2c ct sys steady) \<and> (\<forall>cb. pf_canned_bus pf cb = cb) \<and>
     (\<exists>faults. pf_parse_faults pf (snd (pf_split_bus_query pf path)) = Inr faults \<and> \<not> pf_any_fault pf faults)"

text \<open>What the configuration schema and the loader ensure of a \<open>mock://\<close> configuration.\<close>

definition mock_config :: "provider_config \<Rightarrow> bool" where
  "mock_config c \<longleftrightarrow> is_mock_mode c \<and> 0 \<le> retry_count c \<and>
     distinct (map spec_address (config_devices c)) \<and>
     (\<forall>s \<in> set (config_devices c). 8 \<le> spec_address s \<and> spec_address s \<le> 0x77 \<and>
        0 \<le> spec_command_watchdog_ms s \<and> spec_command_watchdog_ms s \<le> 65535)"

definition acks_seeded :: "contracts \<Rightarrow> bool" where
  "acks_seeded ct \<longleftrightarrow> num_of ct CRUMBS_ACK_MIN_VERSION \<le> num_of ct CRUMBS_VERSION \<and> num_of ct CRUMBS_VERSION < 65536"

abbreviation seed_device :: "contracts \<Rightarrow> (string \<Rightarrow> nat \<Rightarrow> string) \<Rightarrow> provider_config \<Rightarrow> device_spec \<Rightarrow> inventory_device" where
  "seed_device ct ck c s \<equiv> expected_device ct ck c ConfigSeeded (spec_type s) s (seed_probe ct s)"

lemma seed_device_simps [simp]:
  "device_id_of (seed_device ct ck c s) = spec_id s" "dev_type (seed_device ct ck c s) = spec_type s"
  "dev_address (seed_device ct ck c s) = spec_address s"
  "dev_command_watchdog_ms (seed_device ct ck c s) = spec_command_watchdog_ms s"
  by (simp_all add: expected_device_def seed_probe_def)

lemma seed_device_confirms:
  assumes "acks_seeded ct"
  shows "set_confirmation ct (seed_device ct ck c s) \<noteq> Unconfirmed"
proof -
  have "crumbs_version (dev_version (seed_device ct ck c s)) = of_nat (num_of ct CRUMBS_VERSION)"
    by (cases "spec_type s") (simp_all add: expected_device_def apply_spec_def seed_probe_def Let_def)
  then show ?thesis
    using assms by (simp add: set_confirmation_def acks_seeded_def Let_def unat_of_nat)
qed

lemma i2c_address_ok:
  assumes "8 \<le> a" "a \<le> 0x77"
  shows "status_ok (validate_address (word_of_int a))" "uint (word_of_int a :: u8) = a"
proof -
  show u: "uint (word_of_int a :: u8) = a" using assms by (simp add: uint_word_of_int)
  show "status_ok (validate_address (word_of_int a))"
    using assms u by (simp add: validate_address_def kMinI2cAddress_def kMaxI2cAddress_def word_less_def)
qed

lemma seed_inventory_placed:
  assumes "labels_distinct ct" "mock_config c" "acks_seeded ct"
  shows "placed ct (build_seed_inventory ct ck c)"
proof -
  have d: "distinct (map spec_address (config_devices c))" using assms(2) by (simp add: mock_config_def)
  have "inj_on (\<lambda>s. word_of_int (spec_address s) :: u8) (set (config_devices c))"
    using assms(2) d i2c_address_ok(2) unfolding mock_config_def
    by (intro inj_onI) (metis distinct_map inj_on_def)
  moreover have "distinct (config_devices c)" using d by (simp add: distinct_map)
  ultimately show ?thesis
    using assms(2) seed_device_confirms [OF assms(3)] i2c_address_ok(1)
    by (auto simp: placed_def seed_inventory_eq [OF assms(1) d] mock_config_def comp_def distinct_map)
qed

lemma plain_mock_opens:
  assumes "pf_bus pf = canned_i2c ct sys steady" "is_mock_mode c" "0 \<le> retry_count c"
  shows "session_open (platform_transport ct pf)
      (new_session (new_crumbs_transport (Some cb)) (make_session_options c)) =
    (success\<lparr>st_attempts := 1\<rparr>, new_session \<lparr>ct_bus = Some (cb\<lparr>cb_opened := True\<rparr>),
       ct_scan_timeout_us = scan_probe_timeout_us (make_session_options c), ct_open = True\<rparr> (make_session_options c))"
proof -
  have "bus_path c \<noteq> []" using assms(2) by (auto simp: is_mock_mode_def starts_with_def)
  with assms(1,3) show ?thesis
    by (simp add: session_open_def new_session_def new_crumbs_transport_def validate_open_options_def
        make_session_options_def transport_open_def)
qed

lemma mock_startup_publishes:
  assumes "codec_ok ct" "ack_ok ct" "opcodes_ok ct" "labels_distinct ct" "acks_seeded ct"
    and "plain_mock ct pf (bus_path c)" "mock_config c" "outputs_policy c = Safe"
  obtains m ss ka where "initialize ct claim_key pf c budget clk g0 = publish_ready ((started_state c (at_start clk))
      \<lparr>rs_devices := build_seed_inventory ct claim_key c, rs_inventory_mode := inventory_source_to_string ConfigSeeded,
       rs_unsupported_probe_count := 0, rs_ready := True, rs_ready_at := at_ready clk,
       rs_startup_message := ''config-seeded inventory (mock mode)'', rs_safe_outputs := m\<rparr>) ss ka"
    "\<forall>d \<in> set (build_seed_inventory ct claim_key c). m (device_id_of d) = Some ''set'' \<and> in_good_order ct d ss \<and>
       holds_device (device_byte d) (\<lambda>x. made_safe ct d x \<and> watchdog_set ct d x) (s_transport ss)"
proof -
  let ?ds = "build_seed_inventory ct claim_key c"
  obtain sys steady where bus: "pf_bus pf = canned_i2c ct sys steady" using assms(6) by (auto simp: plain_mock_def)
  let ?tr = "canned_transport ct sys steady (pf_scan pf)"
  obtain path query where q: "pf_split_bus_query pf (bus_path c) = (path, query)" by fastforce
  obtain faults where f: "pf_parse_faults pf query = Inr faults" "\<not> pf_any_fault pf faults"
    "\<And>cb. pf_canned_bus pf cb = cb" using assms(6) q by (auto simp: plain_mock_def)
  have mock: "is_mock_mode c" "0 \<le> retry_count c" "distinct (map spec_address (config_devices c))"
    using assms(7) by (simp_all add: mock_config_def)
  note placed = seed_inventory_placed [OF assms(4,7,5), of claim_key]
  define ss where "ss = new_session \<lparr>ct_bus = Some ((seeded_bus ct path ?ds)\<lparr>cb_opened := True\<rparr>),
       ct_scan_timeout_us = scan_probe_timeout_us (make_session_options c), ct_open = True\<rparr> (make_session_options c)"
  have "\<forall>d \<in> set ?ds. holds_device (device_byte d) (fresh ct d) (s_transport ss)"
    using seeded_bus_fresh [of ?ds] placed calm_new_device
    by (auto simp: holds_device_def ss_def new_session_def placed_def)
  note fresh = this
  obtain m ss1 where a: "apply_outputs_policy ct ?tr c ?ds Map.empty ss = (m, ss1)" by fastforce
  note safe = policy_makes_safe [OF assms(1-4,8) placed fresh a]
  let ?ss = "arm_all ct ?tr ?ds ss1"
  let ?ka = "new_keepalive ct ?ds kKeepaliveCap (steady_now ?tr (s_transport ?ss))"
  have armed: "\<forall>d \<in> set ?ds. holds_device (device_byte d) (\<lambda>x. made_safe ct d x \<and> watchdog_set ct d x) (s_transport ?ss)"
    by (rule arm_all_sets [OF assms(1,3) placed]) (use safe in blast)
  have up: "bring_up ct ?tr c ?ds ss = (m, ?ka, ?ss)" by (simp add: bring_up_def a Let_def)
  have g: "initialize ct claim_key pf c budget clk g0 = publish_ready ((started_state c (at_start clk))
      \<lparr>rs_devices := ?ds, rs_inventory_mode := inventory_source_to_string ConfigSeeded,
       rs_unsupported_probe_count := 0, rs_ready := True, rs_ready_at := at_ready clk,
       rs_startup_message := ''config-seeded inventory (mock mode)'', rs_safe_outputs := m\<rparr>) ?ss ?ka"
    using plain_mock_opens [OF bus mock(1,2), of "seeded_bus ct path ?ds"] up
    by (simp add: initialize_def initialize_until_def initialize_mock_def mock(1) q f bus ss_def [symmetric] Let_def)
  have "in_good_order ct d ?ss" if d: "d \<in> set ?ds" for d
  proof -
    have "\<not> flagged (device_byte d) ss" by (simp add: flagged_def last_op_failed_def ss_def new_session_def)
    with fresh placed d have "in_good_order ct d ss" by (simp add: in_good_order_def placed_def)
    moreover have "\<forall>e \<in> set ?ds. e = d \<or> device_byte e \<noteq> device_byte d"
      using placed d by (auto simp: placed_def distinct_map dest: inj_onD)
    ultimately show ?thesis by (rule bring_up_good_order [OF assms(1) _ _ up, rotated])
  qed
  with that [OF g] safe armed show ?thesis by blast
qed

text \<open>
  C8: a start-up on a plain \<open>mock://\<close> bus with the output policy \<open>safe\<close> is ready and has put every
  configured board in its safe state before it is served. The devices are the configured ones in
  address order, none is missing, and over the published session every simulated board, which
  starts with its outputs on, now has them off and in open loop, has the configured watchdog time
  set where its watchdog is armed, and is reported as set.
\<close>

theorem mock_startup_makes_boards_safe:
  assumes "codec_ok ct" "ack_ok ct" "opcodes_ok ct" "labels_distinct ct" "acks_seeded ct"
    and "plain_mock ct pf (bus_path c)" "mock_config c" "outputs_policy c = Safe"
  shows "let g = initialize ct claim_key pf c budget clk g0; state = g_state g in
     rs_ready state \<and> rs_missing_expected_ids state = [] \<and>
     map device_id_of (rs_devices state) = map spec_id (sort_key spec_address (config_devices c)) \<and>
     (\<exists>ss. g_session g = Some ss \<and>
        (\<forall>d \<in> set (rs_devices state). rs_safe_outputs state (device_id_of d) = Some ''set'' \<and>
           (\<exists>x. has_device ss (word_of_int (dev_address d)) x \<and> outputs_safe ct (dev_type d) x \<and>
              (armable ct d \<longrightarrow> uint (d_watchdog_timeout_ms x) = dev_command_watchdog_ms d))))"
proof -
  let ?ds = "build_seed_inventory ct claim_key c"
  note placed = seed_inventory_placed [OF assms(4,7,5), of claim_key]
  have "distinct (map spec_address (config_devices c))" using assms(7) by (simp add: mock_config_def)
  note ds = seed_inventory_eq [OF assms(4) this, of claim_key]
  obtain m ss ka where g: "initialize ct claim_key pf c budget clk g0 = publish_ready ((started_state c (at_start clk))
      \<lparr>rs_devices := ?ds, rs_inventory_mode := inventory_source_to_string ConfigSeeded,
       rs_unsupported_probe_count := 0, rs_ready := True, rs_ready_at := at_ready clk,
       rs_startup_message := ''config-seeded inventory (mock mode)'', rs_safe_outputs := m\<rparr>) ss ka"
    and safe: "\<forall>d \<in> set ?ds. m (device_id_of d) = Some ''set'' \<and> in_good_order ct d ss \<and>
       holds_device (device_byte d) (\<lambda>x. made_safe ct d x \<and> watchdog_set ct d x) (s_transport ss)"
    by (rule mock_startup_publishes [OF assms])
  have "\<exists>x. has_device ss (device_byte d) x \<and> outputs_safe ct (dev_type d) x \<and>
      (armable ct d \<longrightarrow> uint (d_watchdog_timeout_ms x) = dev_command_watchdog_ms d)" if d: "d \<in> set ?ds" for d
  proof -
    have "status_ok (validate_address (device_byte d))" using placed d by (simp add: placed_def)
    then obtain x where x: "has_device ss (device_byte d) x" "made_safe ct d x" "watchdog_set ct d x"
      using holds_deviceE [of "device_byte d" "\<lambda>x. made_safe ct d x \<and> watchdog_set ct d x" ss] safe d by blast
    have "dev_command_watchdog_ms d \<le> 65535"
      using d assms(7) by (auto simp: ds mock_config_def)
    with x show ?thesis
      by (intro exI [of _ x]) (auto simp: made_safe_def watchdog_set_def uint_word_of_int)
  qed
  moreover have "map device_id_of ?ds = map spec_id (sort_key spec_address (config_devices c))"
    by (simp add: ds comp_def)
  ultimately show ?thesis
    unfolding g Let_def using safe by (simp add: publish_ready_def)
qed

definition sample_platform :: "(unit, unit, canned_bus) platform" where
  "sample_platform =
     \<lparr>pf_bus = canned_i2c sample_contracts (\<lambda>_. 0) (\<lambda>_. 0), pf_scan = (\<lambda>_ _ _ _ _ _ _ cb. (0, [], [], cb)),
      pf_linux_bus = (\<lambda>path _. new_canned_bus path), pf_canned_bus = (\<lambda>cb. cb), pf_fault_bus = (\<lambda>cb _. cb),
      pf_split_bus_query = (\<lambda>path. (path, [])), pf_parse_faults = (\<lambda>_. Inr ()), pf_any_fault = (\<lambda>_. False),
      pf_check_host = (\<lambda>_ _. []), pf_exit_code = (\<lambda>_. 0), pf_readiness_diagnostics = (\<lambda>_. Map.empty)\<rparr>"

definition bench_config :: provider_config where
  "bench_config = (sample_config [(sample_spec ''pump'' Dcmt 20)\<lparr>spec_command_watchdog_ms := 300\<rparr>,
     sample_spec ''heat'' Rlht 10])\<lparr>bus_path := ''mock://bench''\<rparr>"

lemma bench_ok:
  "plain_mock sample_contracts sample_platform (bus_path bench_config)" "mock_config bench_config"
  "outputs_policy bench_config = Safe" "acks_seeded sample_contracts"
  by (auto simp: plain_mock_def sample_platform_def bench_config_def mock_config_def is_mock_mode_def
      starts_with_def sample_config_def sample_spec_def default_provider_config_def acks_seeded_def)

text \<open>The process after starting up on the bench.\<close>

abbreviation bench_start :: "(unit, canned_bus crumbs_transport) globals" where
  "bench_start \<equiv> initialize sample_contracts (\<lambda>_ _. []) sample_platform bench_config 0
     \<lparr>at_entry = 0, at_start = 0, at_ready = 0, at_failure = 0, at_probe = \<lambda>_. 0\<rparr> new_globals"

abbreviation bench_device :: "device_spec \<Rightarrow> inventory_device" where
  "bench_device \<equiv> seed_device sample_contracts (\<lambda>_ _. []) bench_config"

lemma bench_devices:
  "rs_devices (g_state bench_start) =
     [bench_device (sample_spec ''heat'' Rlht 10), bench_device ((sample_spec ''pump'' Dcmt 20)\<lparr>spec_command_watchdog_ms := 300\<rparr>)]"
  "distinct (map device_byte (rs_devices (g_state bench_start)))"
proof -
  let ?ds = "build_seed_inventory sample_contracts (\<lambda>_ _. []) bench_config"
    and ?clk = "\<lparr>at_entry = 0, at_start = 0, at_ready = 0, at_failure = 0, at_probe = \<lambda>_. 0\<rparr>"
  have c: "config_devices bench_config = [(sample_spec ''pump'' Dcmt 20)\<lparr>spec_command_watchdog_ms := 300\<rparr>, sample_spec ''heat'' Rlht 10]"
    by (simp add: bench_config_def sample_config_def)
  obtain m ss ka where "bench_start = publish_ready ((started_state bench_config (at_start ?clk))
      \<lparr>rs_devices := ?ds, rs_inventory_mode := inventory_source_to_string ConfigSeeded,
       rs_unsupported_probe_count := 0, rs_ready := True, rs_ready_at := at_ready ?clk,
       rs_startup_message := ''config-seeded inventory (mock mode)'', rs_safe_outputs := m\<rparr>) ss ka"
    by (rule mock_startup_publishes [OF sample_codec_ok sample_ack_ok sample_opcodes_ok sample_labels_distinct bench_ok(4,1,2,3)]) (rule that)
  then have ds: "rs_devices (g_state bench_start) = ?ds" by (simp add: publish_ready_def)
  have "distinct (map spec_address (config_devices bench_config))" by (simp add: c)
  from ds seed_inventory_eq [OF sample_labels_distinct this, of "\<lambda>_ _. []"]
  show "rs_devices (g_state bench_start) =
     [bench_device (sample_spec ''heat'' Rlht 10), bench_device ((sample_spec ''pump'' Dcmt 20)\<lparr>spec_command_watchdog_ms := 300\<rparr>)]"
    by (simp add: c)
  from seed_inventory_placed [OF sample_labels_distinct bench_ok(2,4), of "\<lambda>_ _. []"] ds
  show "distinct (map device_byte (rs_devices (g_state bench_start)))" by (simp add: placed_def)
qed

lemma bench_find:
  "find_device (rs_devices (g_state bench_start)) ''heat'' = Some (bench_device (sample_spec ''heat'' Rlht 10))"
  "find_device (rs_devices (g_state bench_start)) ''pump'' =
     Some (bench_device ((sample_spec ''pump'' Dcmt 20)\<lparr>spec_command_watchdog_ms := 300\<rparr>))"
  unfolding bench_devices find_device_def List.find.simps seed_device_simps by simp_all

theorem mock_startup_makes_boards_safe_witness:
  "let g = initialize sample_contracts (\<lambda>_ _. []) sample_platform bench_config 0
         \<lparr>at_entry = 0, at_start = 0, at_ready = 0, at_failure = 0, at_probe = \<lambda>_. 0\<rparr> new_globals in
   rs_ready (g_state g) \<and>
   (\<exists>ss d x. g_session g = Some ss \<and> device_id_of d = ''pump'' \<and> has_device ss (word_of_int (dev_address d)) x \<and>
      outputs_safe sample_contracts (dev_type d) x)"
proof -
  let ?g = "initialize sample_contracts (\<lambda>_ _. []) sample_platform bench_config 0
    \<lparr>at_entry = 0, at_start = 0, at_ready = 0, at_failure = 0, at_probe = \<lambda>_. 0\<rparr> new_globals"
  note * = mock_startup_makes_boards_safe [OF sample_codec_ok sample_ack_ok sample_opcodes_ok sample_labels_distinct
      bench_ok(4,1,2,3), of "\<lambda>_ _. []" 0 "\<lparr>at_entry = 0, at_start = 0, at_ready = 0, at_failure = 0, at_probe = \<lambda>_. 0\<rparr>" new_globals,
      unfolded Let_def]
  have "map device_id_of (rs_devices (g_state ?g)) = [''heat'', ''pump'']"
    using * by (simp add: bench_config_def)
  then have "''pump'' \<in> set (map device_id_of (rs_devices (g_state ?g)))" by simp
  then obtain d where "d \<in> set (rs_devices (g_state ?g))" "device_id_of d = ''pump''" by auto
  then show ?thesis unfolding Let_def using * by blast
qed

subsection \<open>Start-up accounts for the configuration\<close>

text \<open>
  C9: every start-up accounts for every configured device, whatever the platform and the bus do: on hardware or on a mock
  bus, by scan or by list, complete, cut short by the deadline or failed. A configured device is either served, at its
  address, under its id and with its type, or it is reported missing, and never both.
\<close>

theorem startup_accounts_for_config:
  assumes "labels_distinct ct"
    and "distinct (map spec_address (config_devices c))" "distinct (map spec_id (config_devices c))"
  shows "let state = g_state (initialize ct claim_key pf c budget clk g) in
    \<forall>s \<in> set (config_devices c).
      (spec_id s \<in> set (rs_missing_expected_ids state) \<longleftrightarrow> spec_address s \<notin> dev_address ` set (rs_devices state)) \<and>
      (\<forall>d \<in> set (rs_devices state). dev_address d = spec_address s \<longrightarrow> device_id_of d = spec_id s \<and> dev_type d = spec_type s)"
proof -
  have state: "rs_config (started_state c t) = c" "rs_devices (started_state c t) = []" "rs_missing_expected_ids (started_state c t) = []" for t
    by (simp_all add: started_state_def new_runtime_state_def)
  have "accounted c (g_state (initialize ct claim_key pf c budget clk g))"
    using initialize_hardware_accounted [OF assms(2,3) state(1,2)] initialize_mock_accounted [OF assms(1,2) state(3)]
    by (auto simp: initialize_def initialize_until_def publish_not_ready_accounted state split: sum.splits if_splits)
  then show ?thesis by (simp add: accounted_def Let_def)
qed

theorem startup_accounts_for_config_witness:
  "''pump'' \<notin> set (rs_missing_expected_ids (g_state bench_start)) \<and>
   (\<exists>d \<in> set (rs_devices (g_state bench_start)). dev_address d = 20 \<and> device_id_of d = ''pump'' \<and> dev_type d = Dcmt)"
proof -
  let ?s = "(sample_spec ''pump'' Dcmt 20)\<lparr>spec_command_watchdog_ms := 300\<rparr>"
  have c: "distinct (map spec_address (config_devices bench_config))" "distinct (map spec_id (config_devices bench_config))"
    "?s \<in> set (config_devices bench_config)" "spec_id ?s = ''pump''" "spec_address ?s = 20" "spec_type ?s = Dcmt"
    by (simp_all add: bench_config_def sample_config_def)
  have "bench_device ?s \<in> set (rs_devices (g_state bench_start))" by (simp add: bench_devices)
  moreover have "dev_address (bench_device ?s) = 20" unfolding seed_device_simps by (rule c(5))
  ultimately show ?thesis
    using startup_accounts_for_config [OF sample_labels_distinct c(1,2), of "\<lambda>_ _. []" sample_platform 0
        "\<lparr>at_entry = 0, at_start = 0, at_ready = 0, at_failure = 0, at_probe = \<lambda>_. 0\<rparr>" new_globals, unfolded Let_def, THEN bspec, OF c(3)]
    unfolding c(4-6) by (metis image_eqI)
qed

end
