(* ===== verification/Provider_Runtime.thy ===== *)
theory Provider_Runtime
  imports Mock_Startup
begin

text \<open>
  \<open>src/core/bread_provider_runtime\<close>: the requests of the runtime, over the process state. Each
  request is one step on the globals; the messages of the protocol and the SDK's result structs
  are records of the fields the sources set, an unset field is \<open>None\<close>. The transport behind the
  session is any transport, so that what a request puts on the bus can be traced.
\<close>

subsection \<open>Recovery\<close>

definition handle_recovery ::
  "contracts \<Rightarrow> 'w transport \<Rightarrow> inventory_device \<Rightarrow> provider_config \<Rightarrow> ('q, 'w) globals \<Rightarrow> ('q, 'w) globals" where
  "handle_recovery ct tr d c g =
     (case g_session g of
        None \<Rightarrow> g
      | Some ss \<Rightarrow>
          let (recovered, ss1) = take_recovery (word_of_int (dev_address d)) ss in
          if \<not> recovered then g\<lparr>g_session := Some ss1\<rparr>
          else if outputs_policy c = Safe then
            let (result, ss2) = drive ct tr d ss1;
                g2 = record_safe_outputs (device_id_of d) (to_metric result) g
            in g2\<lparr>g_session := Some (arm_if_configured ct tr d ss2)\<rparr>
          else g\<lparr>g_session := Some (arm_if_configured ct tr d ss1)\<rparr>)"

text \<open>Seconds and nanoseconds of a system clock reading, both truncated towards zero.\<close>

definition to_timestamp :: "int \<Rightarrow> int \<times> int" where
  "to_timestamp t =
     (let seconds = (if t < 0 then - (- t div 1000000000) else t div 1000000000)
      in (seconds, t - seconds * 1000000000))"

subsection \<open>What the provider says of itself\<close>

record provider_metadata =
  md_name :: string
  md_version :: string
  md_protocol_version :: string
  md_hello_extra :: "string \<rightharpoonup> string"

text \<open>The version is a macro of the build.\<close>

definition metadata :: "string \<Rightarrow> ('q, 'w) globals \<Rightarrow> provider_metadata" where
  "metadata version g =
     \<lparr>md_name = ''anolis-provider-bread'', md_version = version, md_protocol_version = ''v1'',
      md_hello_extra = [''supports_wait_ready'' \<mapsto> ''true'',
        ''inventory_mode'' \<mapsto> rs_inventory_mode (snapshot g)]\<rparr>"

record failed_device =
  fd_device_id :: string
  fd_type :: string
  fd_reason :: string

record readiness_report =
  rr_ready :: bool
  rr_configured_device_count :: int
  rr_successful_device_ids :: "string list"
  rr_failed_devices :: "failed_device list"
  rr_startup_policy :: string
  rr_provider_impl :: string
  rr_extra_diagnostics :: "string \<rightharpoonup> string"

definition bool_text :: "bool \<Rightarrow> string" where
  "bool_text b = (if b then ''true'' else ''false'')"

definition failed_device_of :: "'q runtime_state \<Rightarrow> string \<Rightarrow> failed_device" where
  "failed_device_of state missing_id =
     \<lparr>fd_device_id = missing_id, fd_type = [],
      fd_reason = (case rs_missing_expected_details state missing_id of
        None \<Rightarrow> ''expected device not found during startup'' | Some detail \<Rightarrow> detail)\<rparr>"

text \<open>Milliseconds between two system clock readings in nanoseconds, at least zero.\<close>

definition init_time_ms :: "int \<Rightarrow> int \<Rightarrow> int" where
  "init_time_ms started ready = (if ready < started then 0 else (ready - started) div 1000000)"

definition readiness ::
  "('q, 'f, 'b) platform \<Rightarrow> int \<Rightarrow> ('q, 'w) globals \<Rightarrow> readiness_report" where
  "readiness pf now g =
     (let state = snapshot g; c = rs_config state in
      \<lparr>rr_ready = rs_ready state,
       rr_configured_device_count = int (length (config_devices c)),
       rr_successful_device_ids = map device_id_of (rs_devices state),
       rr_failed_devices = map (failed_device_of state) (rs_missing_expected_ids state),
       rr_startup_policy = ''degraded'', rr_provider_impl = ''bread'',
       rr_extra_diagnostics =
         [''init_time_ms'' \<mapsto> int_to_string
            (init_time_ms (rs_started_at state) (if rs_ready state then rs_ready_at state else now)),
          ''ready'' \<mapsto> bool_text (rs_ready state),
          ''degraded'' \<mapsto> bool_text (rs_ready state \<and> rs_missing_expected_ids state \<noteq> []),
          ''inventory_mode'' \<mapsto> rs_inventory_mode state,
          ''discovery_mode'' \<mapsto> discovery_mode_to_string (mode_of_discovery c),
          ''bus_path'' \<mapsto> bus_path c,
          ''query_delay_us'' \<mapsto> int_to_string (query_delay_us c),
          ''unsupported_probe_count'' \<mapsto> int_to_string (rs_unsupported_probe_count state),
          ''missing_expected_count'' \<mapsto> nat_to_string (length (rs_missing_expected_ids state)),
          ''startup_message'' \<mapsto> rs_startup_message state] ++
         pf_readiness_diagnostics pf (rs_host_requirements state)\<rparr>)"

datatype provider_health_state = PROVIDER_STATE_DEGRADED

record provider_health_extra =
  ph_state :: "provider_health_state option"
  ph_message :: string

definition provider_health :: "('q, 'w) globals \<Rightarrow> provider_health_extra" where
  "provider_health g =
     (let state = snapshot g in
      if \<not> rs_ready state then \<lparr>ph_state = Some PROVIDER_STATE_DEGRADED, ph_message = rs_startup_message state\<rparr>
      else \<lparr>ph_state = None, ph_message = []\<rparr>)"

subsection \<open>The health of a device\<close>

datatype device_health_state = DEVICE_STATE_FAULT

record device_health_extra =
  dh_state :: "device_health_state option"
  dh_message :: string
  dh_last_seen :: "(int \<times> int) option"
  dh_metrics :: "string \<rightharpoonup> string"

definition no_health :: device_health_extra where
  "no_health = \<lparr>dh_state = None, dh_message = [], dh_last_seen = None, dh_metrics = Map.empty\<rparr>"

text \<open>What the snapshot alone tells of a served device.\<close>

definition passive_health :: "contracts \<Rightarrow> 'q runtime_state \<Rightarrow> string \<Rightarrow> inventory_device \<Rightarrow> device_health_extra" where
  "passive_health ct state device_id d =
     (let m1 = [''address'' \<mapsto> dd_address (dev_descriptor d), ''type_id'' \<mapsto> dd_type_id (dev_descriptor d)];
          m2 = (add_module_version_metric d m1)
            (''inventory'' \<mapsto> rs_inventory_mode state,
             ''set_confirmation'' \<mapsto> set_confirmation_to_string (set_confirmation ct d))
      in case rs_safe_outputs state device_id of
           None \<Rightarrow> no_health\<lparr>dh_metrics := m2\<rparr>
         | Some metric \<Rightarrow>
             let m3 = m2(''safe_outputs'' \<mapsto> metric) in
             if starts_with ''not set'' metric then
               no_health\<lparr>dh_metrics := m3, dh_state := Some DEVICE_STATE_FAULT,
                 dh_message := ''safe outputs '' @ metric\<rparr>
             else no_health\<lparr>dh_metrics := m3\<rparr>)"

definition io_metrics :: "address_stats \<Rightarrow> device_health_extra \<Rightarrow> device_health_extra" where
  "io_metrics stats extra =
     extra\<lparr>dh_metrics := (dh_metrics extra)
         (''io_ok'' \<mapsto> nat_to_string (unat (n_ok stats)),
          ''io_failed'' \<mapsto> nat_to_string (unat (n_failed stats)),
          ''io_retried_attempts'' \<mapsto> nat_to_string (unat (n_retried_attempts stats)),
          ''io_rejected'' \<mapsto> nat_to_string (unat (n_rejected stats))),
       dh_last_seen := (if has_success stats then Some (to_timestamp (last_success stats)) else dh_last_seen extra)\<rparr>"

definition watchdog_metrics :: "watchdog_status \<Rightarrow> device_health_extra \<Rightarrow> device_health_extra" where
  "watchdog_metrics wd extra =
     extra\<lparr>dh_metrics := (dh_metrics extra)
         (''watchdog_armed'' \<mapsto> bool_text (wd_armed wd),
          ''watchdog_timeout_ms'' \<mapsto> nat_to_string (unat (wd_timeout_ms wd)),
          ''watchdog_tripped'' \<mapsto> bool_text (wd_tripped wd),
          ''watchdog_trip_count'' \<mapsto> nat_to_string (unat (wd_trip_count wd)))\<rparr>"

text \<open>The part of the health that reads the session: the counters, and the live watchdog query.\<close>

definition session_health ::
  "contracts \<Rightarrow> 'w transport \<Rightarrow> inventory_device \<Rightarrow> device_health_extra \<Rightarrow> 'w session \<Rightarrow>
   device_health_extra \<times> 'w session" where
  "session_health ct tr d extra ss =
     (let a = word_of_int (dev_address d); extra1 = io_metrics (stats_for ss a) extra in
      if 0 < dev_command_watchdog_ms d \<and> capability_supported ct d \<and> \<not> last_op_failed ss a then
        let (st, wd, ss1) = query_status ct tr d new_watchdog_status ss in
        if status_ok st then (watchdog_metrics wd extra1, snd (rearm_if_rebooted ct tr d wd ss1))
        else (extra1, ss1)
      else (extra1, ss))"

definition missing_health :: "'q runtime_state \<Rightarrow> string \<Rightarrow> device_health_extra" where
  "missing_health state device_id =
     (if device_id \<in> set (rs_missing_expected_ids state) then
        let m = [''inventory'' \<mapsto> rs_inventory_mode state, ''missing'' \<mapsto> ''true''] in
        no_health\<lparr>dh_metrics := (case rs_missing_expected_details state device_id of
          None \<Rightarrow> m | Some detail \<Rightarrow> m(''missing_detail'' \<mapsto> detail))\<rparr>
      else no_health)"

definition device_health ::
  "contracts \<Rightarrow> 'w transport \<Rightarrow> string \<Rightarrow> ('q, 'w) globals \<Rightarrow> device_health_extra \<times> ('q, 'w) globals" where
  "device_health ct tr device_id g =
     (let state = snapshot g in
      case find_device (rs_devices state) device_id of
        None \<Rightarrow> (missing_health state device_id, g)
      | Some d \<Rightarrow>
          let extra = passive_health ct state device_id d in
          case g_session g of
            None \<Rightarrow> (extra, g)
          | Some ss \<Rightarrow> let (extra', ss') = session_health ct tr d extra ss in (extra', g\<lparr>g_session := Some ss'\<rparr>))"

subsection \<open>Devices, reads and calls\<close>

definition list_device_ids :: "('q, 'w) globals \<Rightarrow> string list" where
  "list_device_ids g = map device_id_of (rs_devices (snapshot g))"

definition runtime_has_device :: "string \<Rightarrow> ('q, 'w) globals \<Rightarrow> bool" where
  "runtime_has_device device_id g \<longleftrightarrow> find_device (rs_devices (snapshot g)) device_id \<noteq> None"

definition empty_descriptor :: device_descriptor where
  "empty_descriptor =
     \<lparr>dd_device_id = [], dd_provider_name = [], dd_label = [], dd_address = [], dd_type_id = [],
      dd_type_version = [], dd_claims = [], dd_tags = Map.empty\<rparr>"

definition device_info :: "string \<Rightarrow> ('q, 'w) globals \<Rightarrow> device_descriptor" where
  "device_info device_id g =
     (case find_device (rs_devices (snapshot g)) device_id of
        None \<Rightarrow> empty_descriptor | Some d \<Rightarrow> dev_descriptor d)"

definition capabilities :: "string \<Rightarrow> ('q, 'w) globals \<Rightarrow> capability_set" where
  "capabilities device_id g =
     (case find_device (rs_devices (snapshot g)) device_id of
        None \<Rightarrow> \<lparr>cap_functions = [], cap_signals = []\<rparr> | Some d \<Rightarrow> dev_capabilities d)"

text \<open>
  How a read and a call begin: the device is looked up, and a known device is taken out of the keepalive's
  hands before anything else is done with it. What follows, up to the answer, works on the device and the state that
  leaves.
\<close>

definition begin_request :: "string \<Rightarrow> ('q, 'w) globals \<Rightarrow> (inventory_device \<times> ('q, 'w) globals) option" where
  "begin_request device_id g =
     (case find_device (rs_devices (snapshot g)) device_id of
        None \<Rightarrow> None
      | Some d \<Rightarrow> Some (d, note_contact device_id g))"

definition finish_read ::
  "contracts \<Rightarrow> 'w transport \<Rightarrow> provider_config \<Rightarrow> inventory_device \<Rightarrow> string list \<Rightarrow> ('q, 'w) globals \<Rightarrow>
   adapter_read_result \<times> ('q, 'w) globals" where
  "finish_read ct tr config d signal_ids g =
     (case g_session g of
        None \<Rightarrow>
          (read_error CODE_UNAVAILABLE ''no hardware session (provider not built with hardware support)'', g)
      | Some ss \<Rightarrow>
          let (br, ss') = ad_read_signals (adapter_for ct tr (dev_type d)) d signal_ids ss;
              g2 = g\<lparr>g_session := Some ss'\<rparr>
          in (br, if rd_ok br then handle_recovery ct tr d config g2 else g2))"

definition runtime_read ::
  "contracts \<Rightarrow> 'w transport \<Rightarrow> string \<Rightarrow> string list \<Rightarrow> ('q, 'w) globals \<Rightarrow>
   adapter_read_result \<times> ('q, 'w) globals" where
  "runtime_read ct tr device_id signal_ids g =
     (case begin_request device_id g of
        None \<Rightarrow> (read_error CODE_NOT_FOUND ''unknown device_id'', g)
      | Some (d, g1) \<Rightarrow> finish_read ct tr (rs_config (snapshot g)) d signal_ids g1)"

definition finish_call ::
  "contracts \<Rightarrow> 'w transport \<Rightarrow> provider_config \<Rightarrow> inventory_device \<Rightarrow> u32 \<Rightarrow> value_map \<Rightarrow> ('q, 'w) globals \<Rightarrow>
   adapter_call_result \<times> ('q, 'w) globals" where
  "finish_call ct tr config d fid args g =
     (if \<not> function_exists d fid [] then (call_error CODE_NOT_FOUND ''unknown function_id'', g)
      else
        let (br, session) = call (adapter_for ct tr (dev_type d)) (g_session g) d fid args;
            g2 = g\<lparr>g_session := session\<rparr>
        in (br, if cr_ok br then handle_recovery ct tr d config g2 else g2))"

definition runtime_call ::
  "contracts \<Rightarrow> 'w transport \<Rightarrow> string \<Rightarrow> u32 \<Rightarrow> value_map \<Rightarrow> ('q, 'w) globals \<Rightarrow>
   adapter_call_result \<times> ('q, 'w) globals" where
  "runtime_call ct tr device_id fid args g =
     (case begin_request device_id g of
        None \<Rightarrow> (call_error CODE_NOT_FOUND ''unknown device_id'', g)
      | Some (d, g1) \<Rightarrow> finish_call ct tr (rs_config (snapshot g)) d fid args g1)"

lemmas runtime_read_defs = runtime_read_def begin_request_def finish_read_def
lemmas runtime_call_defs = runtime_call_def begin_request_def finish_call_def

definition resolve_function_id :: "string \<Rightarrow> string \<Rightarrow> ('q, 'w) globals \<Rightarrow> u32 option" where
  "resolve_function_id device_id function_name g =
     (case find_device (rs_devices (snapshot g)) device_id of
        None \<Rightarrow> None
      | Some d \<Rightarrow> map_option fn_id (find (\<lambda>f. fn_name f = function_name) (cap_functions (dev_capabilities d))))"

subsection \<open>The steps of the process\<close>

text \<open>The keepalive's thread woken at a time, on the session the globals own.\<close>

definition feed_globals :: "contracts \<Rightarrow> 'w transport \<Rightarrow> int \<Rightarrow> ('q, 'w) globals \<Rightarrow> ('q, 'w) globals" where
  "feed_globals ct tr now g =
     (case (g_session g, g_keepalive g) of
        (Some ss, Some ka) \<Rightarrow>
          let r = wake ct tr now \<lparr>kr_keepalive = ka, kr_feeder = g_feeder g, kr_now = now, kr_session = ss\<rparr>
          in g\<lparr>g_session := Some (kr_session r), g_keepalive := Some (kr_keepalive r), g_feeder := kr_feeder r\<rparr>
      | _ \<Rightarrow> g)"

text \<open>
  The states the process can be in: started with nothing, initialised any number of times with any
  configuration, reset, serving any requests in any order, with its keepalive thread between them.
\<close>

inductive rt_reachable ::
  "contracts \<Rightarrow> (string \<Rightarrow> nat \<Rightarrow> string) \<Rightarrow> ('q, 'f, 'b) platform \<Rightarrow> ('q, 'b crumbs_transport) globals \<Rightarrow> bool"
  for ct :: contracts and ck :: "string \<Rightarrow> nat \<Rightarrow> string" and pf :: "('q, 'f, 'b) platform" where
  rt_new: "rt_reachable ct ck pf new_globals"
| rt_initialize: "rt_reachable ct ck pf g \<Longrightarrow> rt_reachable ct ck pf (initialize ct ck pf c budget clk g)"
| rt_reset: "rt_reachable ct ck pf g \<Longrightarrow> rt_reachable ct ck pf (reset g)"
| rt_read: "rt_reachable ct ck pf g \<Longrightarrow>
    rt_reachable ct ck pf (snd (runtime_read ct (platform_transport ct pf) i signal_ids g))"
| rt_call: "rt_reachable ct ck pf g \<Longrightarrow>
    rt_reachable ct ck pf (snd (runtime_call ct (platform_transport ct pf) i fid args g))"
| rt_health: "rt_reachable ct ck pf g \<Longrightarrow>
    rt_reachable ct ck pf (snd (device_health ct (platform_transport ct pf) i g))"
| rt_feed: "rt_reachable ct ck pf g \<Longrightarrow> g_feeder g = Waiting w \<Longrightarrow> w \<le> now \<Longrightarrow>
    rt_reachable ct ck pf (feed_globals ct (platform_transport ct pf) now g)"

lemma find_device_Some: "find_device ds i = Some d \<Longrightarrow> d \<in> set ds \<and> device_id_of d = i"
  by (auto simp: find_device_def find_Some_iff)

lemma runtime_inv_served:
  assumes "runtime_inv ct g" "d \<in> set (rs_devices (g_state g))"
  obtains ss ka where "rs_ready (g_state g)" "g_session g = Some ss" "ct_open (s_transport ss)" "g_keepalive g = Some ka"
  using assms by (auto simp: runtime_inv_def Let_def split: if_splits)

lemma runtime_inv_session:
  "runtime_inv ct g \<Longrightarrow> rs_ready (g_state g) \<Longrightarrow> ct_open (s_transport ss) \<Longrightarrow> runtime_inv ct (g\<lparr>g_session := Some ss\<rparr>)"
  by (auto simp: runtime_inv_def Let_def)

lemma contacted_fed [simp]: "map fed_device (ka_fed (contacted i ka)) = map fed_device (ka_fed ka)"
  by (simp add: contacted_def contact_fed_def comp_def if_distrib cong: if_cong)

lemma note_contact_simps [simp]:
  "g_state (note_contact i g) = g_state g" "g_session (note_contact i g) = g_session g"
  by (simp_all add: note_contact_def)

lemma note_contact_inv: "runtime_inv ct g \<Longrightarrow> runtime_inv ct (note_contact i g)"
  by (auto simp: runtime_inv_def note_contact_def Let_def)

lemma record_safe_outputs_inv:
  assumes "runtime_inv ct g" "d \<in> set (rs_devices (g_state g))" "outputs_policy (rs_config (g_state g)) \<noteq> Leave"
  shows "runtime_inv ct (record_safe_outputs (device_id_of d) (to_metric r) g)"
proof -
  obtain ss ka where "rs_ready (g_state g)" by (rule runtime_inv_served [OF assms(1,2)])
  note ready = this
  let ?ids = "device_ids (rs_devices (g_state g))" and ?c = "rs_config (g_state g)"
  have "metrics_ok ?c ?ids (rs_safe_outputs (g_state g))"
    using assms(1) ready by (simp add: runtime_inv_def Let_def)
  from metrics_ok_update [OF this to_metric_policy [OF assms(3)], of "device_id_of d" r]
  have "metrics_ok ?c ?ids ((rs_safe_outputs (g_state g))(device_id_of d \<mapsto> to_metric r))"
    using assms(2) by (simp add: insert_absorb)
  with assms(1) ready show ?thesis
    by (simp add: runtime_inv_def record_safe_outputs_def Let_def del: fun_upd_apply)
qed

lemma handle_recovery_inv:
  assumes inv: "runtime_inv ct g" and d: "d \<in> set (rs_devices (g_state g))" and c: "c = rs_config (g_state g)"
  shows "runtime_inv ct (handle_recovery ct (crumbs_over_i2c ct bus scan) d c g)"
proof -
  let ?tr = "crumbs_over_i2c ct bus scan"
  obtain ss ka where ready: "rs_ready (g_state g)" "g_session g = Some ss" "ct_open (s_transport ss)"
    by (rule runtime_inv_served [OF inv d])
  obtain rec ss1 where t: "take_recovery (word_of_int (dev_address d)) ss = (rec, ss1)" by fastforce
  then have o1: "ct_open (s_transport ss1)" using ready(3) by (auto simp: take_recovery_def)
  obtain r ss2 where dr: "drive ct ?tr d ss1 = (r, ss2)" by fastforce
  have o2: "ct_open (s_transport ss2)" by (rule open_frame.drive_keeps [OF o1 dr])
  let ?g = "record_safe_outputs (device_id_of d) (to_metric r) g"
  have "runtime_inv ct (?g\<lparr>g_session := Some (arm_if_configured ct ?tr d ss2)\<rparr>)" if "outputs_policy c = Safe"
    using runtime_inv_session [OF record_safe_outputs_inv [OF inv d] _ open_frame.arm_keeps [OF o2]] that c ready(1)
    by (simp add: record_safe_outputs_def)
  moreover have "runtime_inv ct (g\<lparr>g_session := Some (arm_if_configured ct ?tr d ss1)\<rparr>)"
    "runtime_inv ct (g\<lparr>g_session := Some ss1\<rparr>)"
    using runtime_inv_session [OF inv ready(1)] open_frame.arm_keeps [OF o1] o1 by blast+
  ultimately show ?thesis by (simp add: handle_recovery_def ready(2) t dr)
qed

lemma runtime_read_inv:
  assumes "runtime_inv ct g"
  shows "runtime_inv ct (snd (runtime_read ct (crumbs_over_i2c ct bus scan) i ids g))"
proof (cases "find_device (rs_devices (g_state g)) i")
  case None
  with assms show ?thesis by (simp add: runtime_read_defs snapshot_def)
next
  case (Some d)
  let ?tr = "crumbs_over_i2c ct bus scan" and ?g = "note_contact i g"
  from find_device_Some [OF Some] have d: "d \<in> set (rs_devices (g_state ?g))" by simp
  note inv = note_contact_inv [OF assms, of i]
  obtain ss ka where ready: "rs_ready (g_state ?g)" "g_session ?g = Some ss" "ct_open (s_transport ss)"
    by (rule runtime_inv_served [OF inv d])
  obtain br ss' where r: "ad_read_signals (adapter_for ct ?tr (dev_type d)) d ids ss = (br, ss')" by fastforce
  have inv2: "runtime_inv ct (?g\<lparr>g_session := Some ss'\<rparr>)"
    by (rule runtime_inv_session [OF inv ready(1) open_frame.read_signals_keeps [OF ready(3) r]])
  from handle_recovery_inv [OF this, of d] d inv2 show ?thesis
    using ready(2) by (simp add: runtime_read_defs snapshot_def Some r Let_def)
qed

lemma runtime_call_inv:
  assumes "runtime_inv ct g"
  shows "runtime_inv ct (snd (runtime_call ct (crumbs_over_i2c ct bus scan) i fid args g))"
proof (cases "find_device (rs_devices (g_state g)) i")
  case None
  with assms show ?thesis by (simp add: runtime_call_defs snapshot_def)
next
  case (Some d)
  let ?tr = "crumbs_over_i2c ct bus scan" and ?g = "note_contact i g"
  from find_device_Some [OF Some] have d: "d \<in> set (rs_devices (g_state ?g))" by simp
  note inv = note_contact_inv [OF assms, of i]
  obtain ss ka where ready: "rs_ready (g_state ?g)" "g_session ?g = Some ss" "ct_open (s_transport ss)"
    by (rule runtime_inv_served [OF inv d])
  obtain br session where r: "call (adapter_for ct ?tr (dev_type d)) (Some ss) d fid args = (br, session)" by fastforce
  obtain ss' where ss': "session = Some ss'" "ct_open (s_transport ss')" using open_frame.call_keeps [OF ready(3) r] by blast
  have inv2: "runtime_inv ct (?g\<lparr>g_session := Some ss'\<rparr>)" by (rule runtime_inv_session [OF inv ready(1) ss'(2)])
  from handle_recovery_inv [OF this, of d] d inv2 inv show ?thesis
    using ready(2) ss'(1) by (simp add: runtime_call_defs snapshot_def Some r Let_def)
qed

lemma device_health_inv:
  assumes "runtime_inv ct g"
  shows "runtime_inv ct (snd (device_health ct (crumbs_over_i2c ct bus scan) i g))"
proof (cases "find_device (rs_devices (g_state g)) i")
  case None
  with assms show ?thesis by (simp add: device_health_def snapshot_def)
next
  case (Some d)
  let ?tr = "crumbs_over_i2c ct bus scan"
  from find_device_Some [OF Some] have d: "d \<in> set (rs_devices (g_state g))" by simp
  obtain ss ka where ready: "rs_ready (g_state g)" "g_session g = Some ss" "ct_open (s_transport ss)"
    by (rule runtime_inv_served [OF assms d])
  obtain st wd ss1 where q: "query_status ct ?tr d new_watchdog_status ss = (st, wd, ss1)" by (metis prod_cases3)
  have "ct_open (s_transport (snd (session_health ct ?tr d extra ss)))" for extra
    using open_frame.query_status_keeps [OF ready(3) q] ready(3) open_frame.rearm_keeps
    by (auto simp: session_health_def q Let_def)
  from runtime_inv_session [OF assms ready(1) this] show ?thesis
    by (simp add: device_health_def snapshot_def Some ready(2) Let_def split_beta)
qed

lemma feed_all_open:
  "ct_open (s_transport ss) \<Longrightarrow> ct_open (s_transport (feed_all ct (crumbs_over_i2c ct bus scan) ds ss))"
proof (induction ds arbitrary: ss)
  case (Cons d ds)
  obtain st wd ss1 where q: "query_status ct (crumbs_over_i2c ct bus scan) d new_watchdog_status ss = (st, wd, ss1)"
    by (metis prod_cases3)
  from Cons.IH [OF open_frame.query_status_keeps [OF Cons.prems q]] show ?case by (simp add: feed_all_def q)
qed (simp add: feed_all_def)

lemma wake_keeps:
  assumes "ct_open (s_transport (kr_session r))" "r' = wake ct (crumbs_over_i2c ct bus scan) now r"
  shows "ct_open (s_transport (kr_session r'))"
    "map fed_device (ka_fed (kr_keepalive r')) = map fed_device (ka_fed (kr_keepalive r))"
  using assms feed_all_open
  by (auto simp: wake_def tick_def feed_loop_spec Let_def comp_def split: prod.splits if_splits option.splits)

lemma feed_globals_inv:
  assumes "runtime_inv ct g"
  shows "runtime_inv ct (feed_globals ct (crumbs_over_i2c ct bus scan) now g)"
proof (cases "rs_ready (g_state g)")
  case True
  with assms obtain ss ka where g: "g_session g = Some ss" "ct_open (s_transport ss)" "g_keepalive g = Some ka"
    by (auto simp: runtime_inv_def Let_def)
  let ?r = "\<lparr>kr_keepalive = ka, kr_feeder = g_feeder g, kr_now = now, kr_session = ss\<rparr>"
  from wake_keeps [of ?r, OF _ refl, of ct bus scan now] assms True g show ?thesis
    by (auto simp: runtime_inv_def feed_globals_def Let_def)
next
  case False
  with assms show ?thesis by (auto simp: runtime_inv_def feed_globals_def Let_def)
qed

lemma new_globals_inv: "runtime_inv ct new_globals"
  by (simp add: runtime_inv_def new_globals_def new_runtime_state_def default_provider_config_def)

lemma reset_inv: "runtime_inv ct (reset g)"
  by (simp add: runtime_inv_def reset_def drop_session_def new_runtime_state_def default_provider_config_def)

text \<open>
  C7: in every state the process can reach, through start-ups that succeed or fail, resets, reads,
  calls and health requests in any order with the keepalive thread between them, and whatever the
  bus and the host answer: a ready provider has an open session and a keepalive feeding exactly the
  devices whose watchdog it arms, and every served device has an output metric that fits the
  policy; a provider that is not ready has neither and serves no device, and every configured device
  is missing for the reason it publishes. So no request for a served device ever finds no session.
\<close>

theorem runtime_state_invariant:
  assumes "rt_reachable ct claim_key pf g"
  shows "runtime_inv ct g \<and> (runtime_has_device i g \<longrightarrow> g_session g \<noteq> None)"
proof -
  have inv: "runtime_inv ct g"
    using assms
    by induction (simp_all add: new_globals_inv initialize_inv reset_inv runtime_read_inv runtime_call_inv
        device_health_inv feed_globals_inv)
  have "g_session g \<noteq> None" if "runtime_has_device i g"
  proof -
    from that obtain d where "d \<in> set (rs_devices (g_state g))"
      by (auto simp: runtime_has_device_def snapshot_def dest: find_device_Some)
    then obtain ss ka where "g_session g = Some ss" by (rule runtime_inv_served [OF inv])
    then show ?thesis by simp
  qed
  with inv show ?thesis by blast
qed

theorem runtime_state_invariant_witness:
  "let g = initialize sample_contracts (\<lambda>_ _. []) sample_platform bench_config 5000
         \<lparr>at_entry = 0, at_start = 0, at_ready = 0, at_failure = 0, at_probe = \<lambda>_. 0\<rparr> new_globals
   in runtime_inv sample_contracts (snd (runtime_call sample_contracts
        (platform_transport sample_contracts sample_platform) ''pump'' 1 Map.empty g))"
  unfolding Let_def by (rule conjunct1 [OF runtime_state_invariant [OF rt_call [OF rt_initialize [OF rt_new]]]])

end
