(* ===== verification/Request_Effects.thy ===== *)
theory Request_Effects
  imports Provider_Runtime
begin

text \<open>
  What the requests of the runtime do to the boards: a call that ends a spell of failures, the health
  of a device, and requests that name nothing the provider serves.
\<close>

subsection \<open>The recovery flag through a call\<close>

lemma read_ack_loop_flagged:
  "read_ack_loop ct tr a n why ss = (got, ss') \<Longrightarrow> flagged a ss \<Longrightarrow>
     flagged a ss' \<and> (\<forall>ack. got = Inr ack \<longrightarrow> a \<in> s_recovery_pending ss')"
proof (induction n arbitrary: why ss)
  case (Suc n)
  obtain st g ss1 where q: "query_read tr a (byte_of ct CRUMBS_CMD_GET_ACK) empty_frame ss = (st, g, ss1)"
    by (metis prod_cases3)
  note f = query_read_flagged [OF q Suc.prems(2)]
  then have "flagged a (record_rejection a ss1)" by simp
  from Suc.IH [OF _ this] Suc.prems(1) f show ?case by (auto simp: q split: if_splits option.splits)
qed auto

lemmas read_ack_flagged = read_ack_loop_flagged [of ct tr a "num_of ct CRUMBS_ACK_READ_ATTEMPTS" for ct tr a,
  folded read_ack_def]

lemma confirm_loop_flagged:
  "confirm_loop ct tr a f op before n why ss = (r, ss') \<Longrightarrow> flagged a ss \<Longrightarrow> cr_ok r \<Longrightarrow> a \<in> s_recovery_pending ss'"
proof (induction n arbitrary: ss)
  case (Suc n)
  obtain st ss1 where s: "session_send tr a f ss = (st, ss1)" by fastforce
  obtain got ss2 where g: "read_ack ct tr a why ss1 = (got, ss2)" by fastforce
  have f: "flagged a ss2 \<and> (\<forall>ack. got = Inr ack \<longrightarrow> a \<in> s_recovery_pending ss2)"
    by (rule read_ack_flagged [OF g]) (use session_send_flagged [OF s Suc.prems(2)] in simp)
  show ?case
  proof (cases got)
    case (Inl why')
    with Suc.prems(1,3) show ?thesis by (auto simp: s g)
  next
    case (Inr ack)
    with Suc.prems(1,3) Suc.IH f show ?thesis by (auto simp: s g split: option.splits)
  qed
qed auto

lemma transmit_confirmed_recovers:
  assumes "transmit_confirmed ct tr d f op ss = (r, ss')" "flagged (device_byte d) ss" "cr_ok r"
  shows "device_byte d \<in> s_recovery_pending ss'"
proof (cases "set_confirmation ct d = Unconfirmed")
  case True
  obtain st ss1 where s: "session_send tr (device_byte d) f ss = (st, ss1)" by fastforce
  from session_send_flagged [OF s assms(2)] assms(1,3) True show ?thesis
    by (auto simp: transmit_confirmed_def s call_error_from_session_def split: if_splits)
next
  case False
  obtain got ss1 where g: "read_ack ct tr (device_byte d) [] ss = (got, ss1)" by fastforce
  from read_ack_flagged [OF g assms(2)] have f: "flagged (device_byte d) ss1" by simp
  show ?thesis
  proof (cases got)
    case (Inl why)
    with assms(1,3) False g show ?thesis by (auto simp: transmit_confirmed_def)
  next
    case (Inr before)
    with assms(1) False g have "confirm_loop ct tr (device_byte d) f op before kConfirmedSends [] ss1 = (r, ss')"
      by (simp add: transmit_confirmed_def)
    from confirm_loop_flagged [OF this f assms(3)] show ?thesis .
  qed
qed

lemma call_recovers:
  assumes "call (adapter_for ct tr ty) (Some ss) d fid args = (r, session)" "flagged (device_byte d) ss" "cr_ok r"
  shows "\<exists>ss'. session = Some ss' \<and> device_byte d \<in> s_recovery_pending ss'"
proof -
  obtain b f where b: "ad_build_frame (adapter_for ct tr ty) fid args = (b, f)" by fastforce
  obtain r' ss' where t: "ad_transmit (adapter_for ct tr ty) d f ss = (r', ss')" by fastforce
  have rs: "r' = r" "session = Some ss'" using assms(1,3) by (auto simp: call_def b t split: if_splits)
  have "\<exists>op ss1. (ss1 = ss \<or> (\<exists>st g p. query_read tr (device_byte d) p empty_frame ss = (st, g, ss1))) \<and>
      transmit_confirmed ct tr d f op ss1 = (r, ss')"
  proof (cases ty)
    case Rlht
    with rlht_ad.transmits [of ct tr d f ss r ss'] t rs(1) assms(3) show ?thesis
      by (intro exI [of _ "''RLHT SET command''"]) simp
  next
    case Dcmt
    with dcmt_ad.transmits [of ct tr d f ss r ss'] t rs(1) assms(3) show ?thesis
      by (intro exI [of _ "''DCMT SET command''"]) simp
  qed
  then obtain op ss1 where pre: "ss1 = ss \<or> (\<exists>st g p. query_read tr (device_byte d) p empty_frame ss = (st, g, ss1))"
    and post: "transmit_confirmed ct tr d f op ss1 = (r, ss')" by blast
  have "flagged (device_byte d) ss1" using pre assms(2) query_read_flagged by blast
  from transmit_confirmed_recovers [OF post this assms(3)] rs(2) show ?thesis by simp
qed

subsection \<open>A call that ends a spell of failures\<close>

lemma recovery_makes_safe:
  assumes "codec_ok ct" "ack_ok ct" "opcodes_ok ct" "labels_distinct ct" "set_confirmation ct d \<noteq> Unconfirmed"
    and "status_ok (validate_address (device_byte d))" "outputs_policy c = Safe"
    and "g_session g = Some ss" "device_byte d \<in> s_recovery_pending ss"
    and "holds_device (device_byte d) (fresh ct d) (s_transport ss)"
  shows "\<exists>ss'. g_session (handle_recovery ct (canned_transport ct sys steady scan) d c g) = Some ss' \<and>
    holds_device (device_byte d) (made_safe ct d) (s_transport ss')"
proof -
  let ?tr = "canned_transport ct sys steady scan"
  let ?ss = "ss\<lparr>s_recovery_pending := s_recovery_pending ss - {device_byte d}\<rparr>"
  obtain res ss2 where d: "drive ct ?tr d ?ss = (res, ss2)" by fastforce
  have "holds_device (device_byte d) (made_safe ct d) (s_transport ss2)"
    using drive_fresh [OF assms(1-6) _ d] assms(10) by simp
  from holds_device_mono [OF arm_fresh [OF assms(1,3,6) this, of sys steady scan]]
  have "holds_device (device_byte d) (made_safe ct d) (s_transport (arm_if_configured ct ?tr d ss2))" by blast
  then show ?thesis
    using assms(7-9) d by (simp add: handle_recovery_def take_recovery_def Let_def)
qed

text \<open>
  C16: a call that succeeds as the first operation after a failure is undone. With the output policy
  \<open>safe\<close>, when the last operation at the board's address has failed, a call that is then accepted
  and applied returns \<open>ok\<close>, and the same request goes on to drive the board's outputs safe: over the
  session it leaves, the outputs are off and in open loop whatever the call commanded. On an RLHT
  every call with valid arguments is one.
\<close>

theorem recovered_call_undone:
  assumes "codec_ok ct" "ack_ok ct" "opcodes_ok ct" "labels_distinct ct" "pid_pack_fits ct"
    and "find_device (rs_devices (g_state g)) i = Some d" "function_exists d fid []"
    and "outputs_policy (rs_config (g_state g)) = Safe" "set_confirmation ct d \<noteq> Unconfirmed"
    and "g_session g = Some ss" "has_device ss (word_of_int (dev_address d)) x" "calm ct (bread_type_id ct (dev_type d)) x"
    and "last_op_failed ss (word_of_int (dev_address d))"
  shows "let tr = canned_transport ct sys steady scan; (r, g') = runtime_call ct tr i fid args g in
     (cr_ok r \<longrightarrow> (\<exists>ss' y. g_session g' = Some ss' \<and> has_device ss' (word_of_int (dev_address d)) y \<and>
        outputs_safe ct (dev_type d) y)) \<and>
     (dev_type d = Rlht \<and> cr_ok (fst (rlht_build_frame ct fid args)) \<longrightarrow> cr_ok r)"
proof -
  let ?tr = "canned_transport ct sys steady scan"
  obtain r session where c: "call (adapter_for ct ?tr (dev_type d)) (Some ss) d fid args = (r, session)" by fastforce
  have addr: "status_ok (validate_address (device_byte d))" and
    holds: "holds_device (device_byte d) (fresh ct d) (s_transport ss)"
    using assms(11,12) by (auto simp: has_device_iff elim: holds_device_mono)
  obtain ss1 where ss1: "session = Some ss1" "holds_device (device_byte d) (fresh ct d) (s_transport ss1)"
    using calm_frame.call_keeps [OF holds c] by blast
  define g2 where "g2 = (note_contact i g)\<lparr>g_session := session\<rparr>"
  have run: "runtime_call ct ?tr i fid args g =
      (r, if cr_ok r then handle_recovery ct ?tr d (rs_config (g_state g)) g2 else g2)"
    using assms(6,7,10) c by (simp add: runtime_call_defs snapshot_def g2_def Let_def)
  have undone: "\<exists>ss' y. g_session (handle_recovery ct ?tr d (rs_config (g_state g)) g2) = Some ss' \<and>
      has_device ss' (device_byte d) y \<and> outputs_safe ct (dev_type d) y" if "cr_ok r"
  proof -
    have "device_byte d \<in> s_recovery_pending ss1"
      using call_recovers [OF c _ that] assms(13) ss1(1) by (auto simp: flagged_def)
    moreover have "g_session g2 = Some ss1" by (simp add: g2_def ss1(1))
    ultimately obtain ss' where ss': "g_session (handle_recovery ct ?tr d (rs_config (g_state g)) g2) = Some ss'"
      "holds_device (device_byte d) (made_safe ct d) (s_transport ss')"
      using recovery_makes_safe [OF assms(1-4,9) addr assms(8) _ _ ss1(2)] by blast
    from holds_deviceE [OF ss'(2) addr] obtain y where "has_device ss' (device_byte d) y" "made_safe ct d y" by blast
    with ss'(1) show ?thesis by (auto simp: made_safe_def)
  qed
  have "cr_ok r" if rlht: "dev_type d = Rlht" "cr_ok (fst (rlht_build_frame ct fid args))"
  proof -
    obtain b f where b: "rlht_build_frame ct fid args = (b, f)" by fastforce
    have "fr_opcode f \<noteq> kSetReplyOpcode" "length (fr_payload f) \<le> 27"
      using rlht_ad.built_command [OF assms(3), where fid = fid and args = args and r = b and f = f]
        rlht_ad.built_fits [OF assms(5), where fid = fid and args = args and r = b and f = f] b rlht(2) by simp_all
    from canned_transmit_step [OF assms(1-3,9,11) _ this, of sys steady scan "''RLHT SET command''"] assms(12)
    have "cr_ok (fst (transmit_confirmed ct ?tr d f ''RLHT SET command'' ss))"
      by (auto simp: calm_def applies_def)
    with c b rlht show ?thesis by (auto simp: call_def rlht_transmit_def split: prod.splits)
  qed
  with undone show ?thesis by (auto simp: Let_def run)
qed

text \<open>A served RLHT whose last operation failed.\<close>

definition failing_globals :: "(unit, canned_bus crumbs_transport) globals" where
  "failing_globals = publish_ready
     (new_runtime_state\<lparr>rs_devices := [sample_device Rlht 10], rs_ready := True\<rparr>)
     ((sample_session sample_rlht_bus)\<lparr>s_last_op_failed := {10}\<rparr>)
     (new_keepalive sample_contracts [sample_device Rlht 10] kKeepaliveCap 0)"

definition duty_args :: value_map where
  "duty_args = [''duty1_pct'' \<mapsto> make_uint64_val 80, ''duty2_pct'' \<mapsto> make_uint64_val 80]"

theorem recovered_call_undone_witness:
  "let tr = canned_transport sample_contracts (\<lambda>_. 0) (\<lambda>_. 0) undefined;
       (r, g') = runtime_call sample_contracts tr ''dev'' 6 duty_args failing_globals
   in cr_ok r \<and> (\<exists>ss y. g_session g' = Some ss \<and> has_device ss 10 y \<and> d_rlht_on1_ms y = 0)"
proof -
  let ?d = "sample_device Rlht 10" and ?x = "new_device\<lparr>d_type_id := 1\<rparr>"
  let ?ss = "(sample_session sample_rlht_bus)\<lparr>s_last_op_failed := {10}\<rparr>"
  have found: "find_device (rs_devices (g_state failing_globals)) ''dev'' = Some ?d" "function_exists ?d 6 []"
    by (simp_all add: failing_globals_def publish_ready_def find_device_def sample_device_def function_exists_def
        build_rlht_capabilities_def rlht_functions_def has_flag_def normalize_capability_profile_def
        fill_profile_def function_with_def Let_def)
  have state: "outputs_policy (rs_config (g_state failing_globals)) = Safe" "g_session failing_globals = Some ?ss"
    by (simp_all add: failing_globals_def publish_ready_def new_runtime_state_def default_provider_config_def)
  have dev: "has_device ?ss (word_of_int (dev_address ?d)) ?x" using sample_has_device(2) by (simp add: placed_defs)
  have x: "calm sample_contracts (bread_type_id sample_contracts (dev_type ?d)) ?x"
    "last_op_failed ?ss (word_of_int (dev_address ?d))"
    by (simp_all add: calm_def answers_def new_device_def last_op_failed_def)
  have built: "cr_ok (fst (rlht_build_frame sample_contracts 6 duty_args))"
    by (simp add: rlht_build_frame_def encode_defs get_arg_defs get_args_uint64_def finish_frame_def duty_args_def)
  from recovered_call_undone [OF sample_codec_ok sample_ack_ok sample_opcodes_ok sample_labels_distinct
      sample_pid_pack_fits found state(1) sample_confirmed state(2) dev x, of "\<lambda>_. 0" "\<lambda>_. 0" undefined duty_args] built
  show ?thesis by (auto simp: Let_def)
qed

subsection \<open>Health asks only a device that answers\<close>

lemma query_status_traffic:
  assumes "query_status ct (traced tr) d out ss = (st, status, ss')"
  shows "\<exists>es. snd (s_transport ss') = snd (s_transport ss) @ es \<and>
    (\<forall>a f. EvSend a f \<in> set es \<longrightarrow> a = device_byte d \<and> f = query_frame (byte_of ct BREAD_OP_GET_WATCHDOG))"
proof -
  let ?a = "device_byte d" and ?p = "byte_of ct BREAD_OP_GET_WATCHDOG"
  obtain st1 g ss1 where q: "query_read (traced tr) ?a ?p empty_frame ss = (st1, g, ss1)" by (metis prod_cases3)
  from query_read_traffic [OF q] obtain bs where
    bs: "set bs \<subseteq> {full_query (s_options ss) ?a ?p, [EvSend ?a (query_frame ?p)]}"
      "snd (s_transport ss1) = snd (s_transport ss) @ concat bs" by blast
  have "s_transport ss' = s_transport ss1"
    using assms by (auto simp: query_status_def q Let_def split: if_splits option.splits)
  moreover have "a = ?a \<and> f = query_frame ?p" if "EvSend a f \<in> set (concat bs)" for a f
    using that bs(1) by (auto simp: full_query_def dest!: subsetD)
  ultimately show ?thesis using bs(2) by auto
qed

lemma arm_traffic_sends:
  "\<exists>es. snd (s_transport (snd (rearm_if_rebooted ct (traced tr) d wd ss))) = snd (s_transport ss) @ es \<and>
    (\<forall>a f. EvSend a f \<in> set es \<longrightarrow> a = device_byte d \<and> f = arm_frame ct d)"
  using arm_traffic [of ct tr d ss] by (auto simp: rearm_if_rebooted_def)

text \<open>
  C21: a health request never commands a board and never blocks on one that is failing. All it writes
  is the watchdog query and, to a board found disarmed, the configured SET_WATCHDOG, both to the
  device asked about; it writes nothing at all when the watchdog is not configured or supported or
  when the last operation on the device failed, and it changes nothing of the published state.
\<close>

theorem device_health_is_quiet:
  assumes "find_device (rs_devices (g_state g)) i = Some d" "g_session g = Some ss"
  shows "let (extra, g') = device_health ct (traced tr) i g in g_state g' = g_state g \<and>
     (\<exists>ss' es. g_session g' = Some ss' \<and> snd (s_transport ss') = snd (s_transport ss) @ es \<and>
        (\<forall>a f. EvSend a f \<in> set es \<longrightarrow> a = word_of_int (dev_address d) \<and>
           f \<in> {query_frame (byte_of ct BREAD_OP_GET_WATCHDOG), arm_frame ct d}) \<and>
        (\<not> armable ct d \<or> last_op_failed ss (word_of_int (dev_address d)) \<longrightarrow> es = [] \<and> ss' = ss))"
proof -
  let ?extra = "passive_health ct (g_state g) i d"
  obtain extra ss' where h: "session_health ct (traced tr) d ?extra ss = (extra, ss')" by fastforce
  have run: "device_health ct (traced tr) i g = (extra, g\<lparr>g_session := Some ss'\<rparr>)"
    using assms by (simp add: device_health_def snapshot_def h Let_def)
  have "\<exists>es. snd (s_transport ss') = snd (s_transport ss) @ es \<and>
      (\<forall>a f. EvSend a f \<in> set es \<longrightarrow> a = device_byte d \<and>
         f \<in> {query_frame (byte_of ct BREAD_OP_GET_WATCHDOG), arm_frame ct d}) \<and>
      (\<not> armable ct d \<or> last_op_failed ss (device_byte d) \<longrightarrow> es = [] \<and> ss' = ss)"
  proof (cases "armable ct d \<and> \<not> last_op_failed ss (device_byte d)")
    case False
    with h have "ss' = ss" by (auto simp: session_health_def Let_def split: if_splits)
    then show ?thesis by (intro exI [of _ "[]"]) simp
  next
    case True
    obtain st wd ss1 where q: "query_status ct (traced tr) d new_watchdog_status ss = (st, wd, ss1)"
      by (metis prod_cases3)
    obtain es where es: "snd (s_transport ss1) = snd (s_transport ss) @ es" "\<forall>a f. EvSend a f \<in> set es \<longrightarrow>
        a = device_byte d \<and> f = query_frame (byte_of ct BREAD_OP_GET_WATCHDOG)"
      using query_status_traffic [OF q] by blast
    obtain fs where fs: "snd (s_transport (snd (rearm_if_rebooted ct (traced tr) d wd ss1))) = snd (s_transport ss1) @ fs"
      "\<forall>a f. EvSend a f \<in> set fs \<longrightarrow> a = device_byte d \<and> f = arm_frame ct d"
      using arm_traffic_sends [of ct tr d wd ss1] by blast
    have "ss' = (if status_ok st then snd (rearm_if_rebooted ct (traced tr) d wd ss1) else ss1)"
      using h True by (auto simp: session_health_def q Let_def split: if_splits)
    then show ?thesis
      using es fs True by (intro exI [of _ "if status_ok st then es @ fs else es"]) auto
  qed
  then show ?thesis by (simp add: run)
qed

theorem device_health_is_quiet_witness:
  "let ss = (new_session (2, []) sample_options)\<lparr>s_last_op_failed := {20}\<rparr>;
       g = publish_ready (new_runtime_state\<lparr>rs_devices := [watched_device]\<rparr> :: unit runtime_state) ss
             (new_keepalive sample_contracts [watched_device] kKeepaliveCap 0);
       (extra, g') = device_health sample_contracts (traced (flaky_transport WriteFailed 5)) ''dev'' g
   in g_session g' = Some ss"
proof -
  let ?ss = "(new_session (2, []) sample_options)\<lparr>s_last_op_failed := {20}\<rparr>"
  let ?g = "publish_ready (new_runtime_state\<lparr>rs_devices := [watched_device]\<rparr> :: unit runtime_state) ?ss
             (new_keepalive sample_contracts [watched_device] kKeepaliveCap 0)"
  have found: "find_device (rs_devices (g_state ?g)) ''dev'' = Some watched_device" "g_session ?g = Some ?ss"
    by (simp_all add: publish_ready_def find_device_def watched_device_def sample_device_def)
  have "last_op_failed ?ss (device_byte watched_device)"
    by (simp add: last_op_failed_def watched_device_def)
  with device_health_is_quiet [OF found, of sample_contracts "flaky_transport WriteFailed 5"]
  show ?thesis by (auto simp: Let_def)
qed

subsection \<open>Requests that name nothing the provider serves\<close>

lemma find_device_listed: "find_device ds i = None \<longleftrightarrow> i \<notin> device_id_of ` set ds"
  by (auto simp: find_device_def find_None_iff image_iff)

lemma function_exists_published: "function_exists d fid [] \<longleftrightarrow> fid \<noteq> 0 \<and> fid \<in> fn_id ` set (cap_functions (dev_capabilities d))"
  by (auto simp: function_exists_def image_iff)

text \<open>
  The provider serves exactly what it lists. A request for a device that is not listed is refused
  with NOT_FOUND, or is empty, and has no effect at all; a call of a function the device does not
  publish is refused with NOT_FOUND without touching the session or the published state; and a name
  that resolves, to an id other than 0, resolves to a published function, whose call reaches the
  device's adapter.
\<close>

lemma only_listed_is_served:
  "(i \<notin> set (list_device_ids g) \<longrightarrow>
      runtime_read ct tr i ids g = (read_error CODE_NOT_FOUND ''unknown device_id'', g) \<and>
      runtime_call ct tr i fid args g = (call_error CODE_NOT_FOUND ''unknown device_id'', g) \<and>
      snd (device_health ct tr i g) = g \<and> \<not> runtime_has_device i g \<and> resolve_function_id i name g = None \<and>
      cap_functions (capabilities i g) = [] \<and> device_info i g = empty_descriptor) \<and>
   (i \<in> set (list_device_ids g) \<and> fid \<notin> fn_id ` set (cap_functions (capabilities i g)) \<longrightarrow>
      (let (r, g') = runtime_call ct tr i fid args g in
       cr_code r = CODE_NOT_FOUND \<and> g_session g' = g_session g \<and> g_state g' = g_state g)) \<and>
   (resolve_function_id i name g = Some f \<and> f \<noteq> 0 \<longrightarrow>
      f \<in> fn_id ` set (cap_functions (capabilities i g)) \<and>
      (\<exists>d \<in> set (rs_devices (g_state g)). device_id_of d = i \<and>
         fst (runtime_call ct tr i f args g) = fst (call (adapter_for ct tr (dev_type d)) (g_session g) d f args)))"
proof (cases "find_device (rs_devices (g_state g)) i")
  case None
  then have "i \<notin> set (list_device_ids g)" by (simp add: find_device_listed list_device_ids_def snapshot_def)
  with None show ?thesis
    by (simp add: runtime_read_defs runtime_call_defs device_health_def runtime_has_device_def
        resolve_function_id_def capabilities_def device_info_def snapshot_def Let_def)
next
  case (Some d)
  then have listed: "i \<in> set (list_device_ids g)"
    using find_device_listed [of "rs_devices (g_state g)" i] by (simp add: list_device_ids_def snapshot_def)
  note d = find_device_Some [OF Some]
  have caps: "capabilities i g = dev_capabilities d" by (simp add: capabilities_def snapshot_def Some)
  have unknown: "let (r, g') = runtime_call ct tr i fid args g in
      cr_code r = CODE_NOT_FOUND \<and> g_session g' = g_session g \<and> g_state g' = g_state g"
    if "fid \<notin> fn_id ` set (cap_functions (dev_capabilities d))"
    using that by (simp add: runtime_call_defs snapshot_def Some function_exists_published Let_def)
  have resolved: "f \<in> fn_id ` set (cap_functions (dev_capabilities d))" if "resolve_function_id i name g = Some f"
    using that by (auto simp: resolve_function_id_def snapshot_def Some find_Some_iff)
  have reaches: "fst (runtime_call ct tr i f args g) = fst (call (adapter_for ct tr (dev_type d)) (g_session g) d f args)"
    if "f \<in> fn_id ` set (cap_functions (dev_capabilities d))" "f \<noteq> 0"
    using that by (simp add: runtime_call_defs snapshot_def Some function_exists_published Let_def split_beta)
  show ?thesis unfolding caps using listed unknown resolved reaches d by blast
qed

end
