(* ===== verification/Command_Line.thy ===== *)
theory Command_Line
  imports Request_Effects
begin

text \<open>
  \<open>src/core/main\<close>: the command line and what the process does with it. The run loop, the two
  envelopes and the streams are the SDK's: what is written to standard output is named, the exit code
  of the host-check envelope is an argument, and serving is an outcome with the configuration that
  \<open>initialize\<close> is then called with. The log lines and the binary mode of Windows are not modelled.
\<close>

datatype cli_action = ShowVersion | ShowSchema | ShowUsage | Proceed string bool bool
  \<comment> \<open>config path, \<open>--check-config\<close> given, \<open>--check-host\<close> given\<close>

text \<open>The loop over the arguments, with the three variables it sets.\<close>

fun parse_args :: "string list \<Rightarrow> string \<Rightarrow> bool \<Rightarrow> bool \<Rightarrow> cli_action" where
  "parse_args [] path check_config check_host_only =
     (if path = [] then ShowUsage else Proceed path check_config check_host_only)"
| "parse_args [argument] path check_config check_host_only =
     (if argument = ''--version'' then ShowVersion
      else if argument = ''--config-schema'' then ShowSchema
      else ShowUsage)"
| "parse_args (argument # value # rest) path check_config check_host_only =
     (if argument = ''--version'' then ShowVersion
      else if argument = ''--config-schema'' then ShowSchema
      else if argument = ''--check-config'' then parse_args rest value True check_host_only
      else if argument = ''--check-host'' then parse_args rest value check_config True
      else if argument = ''--config'' then parse_args rest value check_config check_host_only
      else ShowUsage)"

datatype stdout_item = VersionLine | SchemaEnvelope | UsageText | HostEnvelope

datatype main_outcome = ExitCode int | ServeConfig provider_config

definition provider_main ::
  "config_toolkit \<Rightarrow> ('q, 'f, 'b) platform \<Rightarrow> ('q list \<Rightarrow> int) \<Rightarrow> string list \<Rightarrow> stdout_item list \<times> main_outcome" where
  "provider_main tk pf write_envelope args =
     (case parse_args args [] False False of
        ShowVersion \<Rightarrow> ([VersionLine], ExitCode 0)
      | ShowSchema \<Rightarrow> ([SchemaEnvelope], ExitCode 0)
      | ShowUsage \<Rightarrow> ([UsageText], ExitCode 1)
      | Proceed path check_config check_host_only \<Rightarrow>
          if check_host_only then
            (case load_config tk path of
               Inl what \<Rightarrow> ([], ExitCode 2)
             | Inr c \<Rightarrow> ([HostEnvelope], ExitCode (write_envelope (check_host pf c))))
          else
            (case load_config tk path of
               Inl what \<Rightarrow> ([], ExitCode 1)
             | Inr c \<Rightarrow> if check_config then ([], ExitCode 0) else ([], ServeConfig c)))"

text \<open>The options that take a path, and a command line made of them.\<close>

definition path_flags :: "string set" where
  "path_flags = {''--check-config'', ''--check-host'', ''--config''}"

definition flatten_options :: "(string \<times> string) list \<Rightarrow> string list" where
  "flatten_options opts = concat (map (\<lambda>(flag, path). [flag, path]) opts)"

lemma parse_args_flags:
  assumes "\<forall>(flag, _) \<in> set opts. flag \<in> path_flags"
  shows "parse_args (flatten_options opts @ rest) path cc ch =
    parse_args rest (case rev opts of [] \<Rightarrow> path | (_, p) # _ \<Rightarrow> p)
      (cc \<or> ''--check-config'' \<in> fst ` set opts) (ch \<or> ''--check-host'' \<in> fst ` set opts)"
  using assms
proof (induction opts arbitrary: path cc ch)
  case (Cons o' opts)
  obtain flag p where o': "o' = (flag, p)" by fastforce
  have rest: "(case rev opts of [] \<Rightarrow> p | (_, p') # _ \<Rightarrow> p') =
      (case rev opts @ [(flag, p)] of [] \<Rightarrow> path | (_, p') # _ \<Rightarrow> p')"
    by (cases "rev opts") auto
  have flag: "flag = ''--check-config'' \<or> flag = ''--check-host'' \<or> flag = ''--config''"
    using Cons.prems by (auto simp: o' path_flags_def)
  have "parse_args (flatten_options (o' # opts) @ rest) path cc ch =
      parse_args (flatten_options opts @ rest) p (cc \<or> ''--check-config'' = flag) (ch \<or> ''--check-host'' = flag)"
    using flag by (auto simp: flatten_options_def o')
  also have "\<dots> = parse_args rest (case rev opts of [] \<Rightarrow> p | (_, p') # _ \<Rightarrow> p')
      ((cc \<or> ''--check-config'' = flag) \<or> ''--check-config'' \<in> fst ` set opts)
      ((ch \<or> ''--check-host'' = flag) \<or> ''--check-host'' \<in> fst ` set opts)"
    using Cons.prems by (intro Cons.IH) auto
  finally show ?case by (auto simp: o' rest)
qed (simp add: flatten_options_def)

text \<open>
  A command line of options with their paths runs in one mode: the last path is loaded; with
  \<open>--check-host\<close> anywhere it only checks the host and exits 2 on a bad configuration, else with
  \<open>--check-config\<close> anywhere it only checks the configuration, and else it serves; in both of the
  latter a bad configuration exits 1. Standard output is left to the envelope.
\<close>

lemma command_line_modes:
  assumes "\<forall>(flag, _) \<in> set opts. flag \<in> path_flags" "opts \<noteq> []" "snd (last opts) \<noteq> []"
  shows "provider_main tk pf write_envelope (flatten_options opts) =
    (let loaded = load_config tk (snd (last opts)); flags = fst ` set opts in
     if ''--check-host'' \<in> flags then
       (case loaded of Inl _ \<Rightarrow> ([], ExitCode 2) | Inr c \<Rightarrow> ([HostEnvelope], ExitCode (write_envelope (check_host pf c))))
     else
       (case loaded of Inl _ \<Rightarrow> ([], ExitCode 1)
        | Inr c \<Rightarrow> ([], if ''--check-config'' \<in> flags then ExitCode 0 else ServeConfig c)))"
proof -
  have "(case rev opts of [] \<Rightarrow> [] | (_, p) # _ \<Rightarrow> p) = snd (last opts)"
    using assms(2) by (cases opts rule: rev_cases) auto
  then have "parse_args (flatten_options opts) [] False False =
      Proceed (snd (last opts)) (''--check-config'' \<in> fst ` set opts) (''--check-host'' \<in> fst ` set opts)"
    using parse_args_flags [OF assms(1), of "[]" "[]" False False] assms(3) by simp
  then show ?thesis by (simp add: provider_main_def Let_def split: sum.splits)
qed

end
