(* ===== verification/Config_Schema.thy ===== *)
theory Config_Schema
  imports Crumbs_Session
begin

text \<open>
  \<open>src/config/config_schema\<close>: the declared configuration schema, as the data the source builds. The
  builder calls of the SDK are the constructors and fields of these records; how the SDK's validator
  reads them is the SDK's, and is not modelled: \<open>schema_validated\<close> states what a validator that enforces the table
  accepts. What is shown is that the loader of \<open>Provider_Config\<close> stores every field of such a document as the table
  documents it.
\<close>

datatype schema_kind = StringField | IntegerField | BooleanField | I2cAddressField

datatype schema_default = DefString string | DefInt int | DefBool bool

record schema_field =
  sf_name :: string
  sf_kind :: schema_kind
  sf_required :: bool
  sf_unique :: bool
  sf_non_empty :: bool
  sf_title :: string
  sf_description :: string
  sf_placeholder :: string
  sf_pattern :: "string option"
  sf_enum :: "(string \<times> string) list"
  sf_min_int :: "int option"
  sf_max_int :: "int option"
  sf_default :: "schema_default option"

datatype presence = Optional | Required

datatype schema_rule = RequireField string | ForbidField string

record schema_when =
  when_field :: string
  when_value :: string
  when_rule :: schema_rule

datatype schema_object =
  SchemaObject (obj_fields: "schema_field list")
    (obj_children: "(string \<times> schema_object \<times> presence) list")
    (obj_arrays: "(string \<times> schema_array \<times> presence) list") (obj_whens: "schema_when list")
and schema_array =
  ScalarArray schema_field nat bool string string \<comment> \<open>least length, unique, title, description\<close>
| ObjectArray schema_object

record schema =
  schema_root :: schema_object
  schema_title :: string
  schema_description :: string

definition schema_field_of :: "schema_kind \<Rightarrow> string \<Rightarrow> schema_field" where
  "schema_field_of kind name =
     \<lparr>sf_name = name, sf_kind = kind, sf_required = False, sf_unique = False, sf_non_empty = False,
      sf_title = [], sf_description = [], sf_placeholder = [], sf_pattern = None, sf_enum = [],
      sf_min_int = None, sf_max_int = None, sf_default = None\<rparr>"

definition kIdentifierPattern :: string where
  "kIdentifierPattern = ''^[A-Za-z0-9_.-]{1,64}$''"

definition provider_fields :: "schema_field list" where
  "provider_fields =
     [(schema_field_of StringField ''name'')
        \<lparr>sf_title := ''Provider name'', sf_description := ''Stable identifier for this provider instance.'',
         sf_pattern := Some kIdentifierPattern, sf_default := Some (DefString ''anolis-provider-bread'')\<rparr>,
      (schema_field_of StringField ''outputs_on_startup'')
        \<lparr>sf_title := ''Outputs on startup'',
         sf_enum := [(''safe'', ''Drive outputs safe''), (''leave'', ''Leave outputs as they are'')],
         sf_default := Some (DefString ''safe''),
         sf_description :=
           ''What the provider does to device outputs when it starts, and when a device '' @
           ''comes back after I/O failures. safe sets each DCMT to open loop at PWM 0 and '' @
           ''each RLHT to setpoints 0, open loop and duty 0. leave keeps them as they are, '' @
           ''for a process that must not be interrupted by a restart; set it together with '' @
           ''the runtime's safety.on_startup: leave.''\<rparr>]"

text \<open>The micro sign of a title is the two bytes of its UTF-8 form.\<close>

definition hardware_fields :: "schema_field list" where
  "hardware_fields =
     [(schema_field_of StringField ''bus_path'')
        \<lparr>sf_required := True, sf_non_empty := True, sf_title := ''I2C bus path'',
         sf_placeholder := ''/dev/i2c-1 or mock://name''\<rparr>,
      (schema_field_of IntegerField ''query_delay_us'')
        \<lparr>sf_title := ''Query delay ('' @ [CHR 0xC2, CHR 0xB5] @ ''s)'',
         sf_description := ''Delay between a CRUMBS query write and its reply read.'',
         sf_min_int := Some 1, sf_max_int := Some 2147483647, sf_default := Some (DefInt 10000)\<rparr>,
      (schema_field_of IntegerField ''timeout_ms'')
        \<lparr>sf_title := ''Reply timeout (ms)'',
         sf_description := ''How long to wait for a device's CRUMBS reply before the read fails.'',
         sf_min_int := Some 1, sf_max_int := Some 2147483647, sf_default := Some (DefInt 100)\<rparr>,
      (schema_field_of IntegerField ''retry_count'')
        \<lparr>sf_title := ''I/O retries'', sf_min_int := Some 0, sf_max_int := Some 2147483647,
         sf_default := Some (DefInt 2)\<rparr>,
      (schema_field_of IntegerField ''max_bus_hz'')
        \<lparr>sf_title := ''Maximum bus clock (Hz)'',
         sf_description :=
           ''The highest I2C clock these devices tolerate on this machine. --check-host and '' @
           ''startup compare it with the bus's configured clock; unset skips that check.'',
         sf_min_int := Some 1, sf_max_int := Some 5000000\<rparr>]"

definition discovery_fields :: "schema_field list" where
  "discovery_fields =
     [(schema_field_of StringField ''mode'')
        \<lparr>sf_required := True, sf_title := ''Discovery mode'',
         sf_enum := [(''scan'', ''Scan the bus''), (''manual'', ''Manual address list'')],
         sf_default := Some (DefString ''manual''),
         sf_description := ''manual probes exactly the listed addresses; scan walks the bus.''\<rparr>]"

definition discovery_whens :: "schema_when list" where
  "discovery_whens =
     [\<lparr>when_field = ''mode'', when_value = ''manual'', when_rule = RequireField ''addresses''\<rparr>,
      \<lparr>when_field = ''mode'', when_value = ''scan'', when_rule = ForbidField ''addresses''\<rparr>]"

definition device_fields :: "schema_field list" where
  "device_fields =
     [(schema_field_of StringField ''id'')
        \<lparr>sf_required := True, sf_unique := True, sf_title := ''Device id'',
         sf_description := ''Stable device identifier; unique across devices.'',
         sf_pattern := Some kIdentifierPattern\<rparr>,
      (schema_field_of StringField ''type'')
        \<lparr>sf_required := True, sf_title := ''Device type'',
         sf_enum := [(''rlht'', ''RLHT Heater''), (''dcmt'', ''DCMT Motor'')]\<rparr>,
      (schema_field_of StringField ''label'')
        \<lparr>sf_non_empty := True, sf_title := ''Label'',
         sf_description := ''Human-readable label; defaults to the device id.''\<rparr>,
      (schema_field_of I2cAddressField ''address'')
        \<lparr>sf_required := True, sf_unique := True, sf_title := ''I2C address'',
         sf_description := ''7-bit address in the 0x08-0x77 range; unique across devices.''\<rparr>,
      (schema_field_of IntegerField ''command_watchdog_ms'')
        \<lparr>sf_title := ''Command watchdog (ms)'',
         sf_description := ''Firmware command-watchdog timeout; 0 never arms. Wire field is u16.'',
         sf_min_int := Some 0, sf_max_int := Some 65535, sf_default := Some (DefInt 0)\<rparr>,
      (schema_field_of BooleanField ''encoders'')
        \<lparr>sf_title := ''Encoders fitted'',
         sf_description :=
           ''DCMT only. false when the motors have no encoders: the closed-loop modes, '' @
           ''set_setpoint and the PID tuning functions are left out for this device, '' @
           ''since the firmware advertises them either way.'',
         sf_default := Some (DefBool True)\<rparr>]"

definition device_whens :: "schema_when list" where
  "device_whens = [\<lparr>when_field = ''type'', when_value = ''rlht'', when_rule = ForbidField ''encoders''\<rparr>]"

definition build_schema :: schema where
  "build_schema =
     \<lparr>schema_root = SchemaObject []
        [(''provider'', SchemaObject provider_fields [] [] [], Optional),
         (''hardware'', SchemaObject hardware_fields [] [] [], Required),
         (''discovery'', SchemaObject discovery_fields []
            [(''addresses'', ScalarArray (schema_field_of I2cAddressField ''address'') 1 True
                ''Manual addresses'' ''Probed in order when mode is manual; duplicates rejected.'', Optional)]
            discovery_whens, Required)]
        [(''devices'', ObjectArray (SchemaObject device_fields [] [] device_whens), Optional)] [],
      schema_title = ''anolis-provider-bread configuration'',
      schema_description = ''BREAD-over-CRUMBS hardware devices (RLHT, DCMT) on a shared I2C bus.''\<rparr>"

subsection \<open>The table and the loader\<close>

text \<open>A field by the names of its object and its own, as the document spells them.\<close>

definition object_of :: "string \<Rightarrow> schema_object" where
  "object_of name =
     (case map_of (obj_children (schema_root build_schema)) name of
        Some (obj, _) \<Rightarrow> obj
      | None \<Rightarrow>
          (case map_of (obj_arrays (schema_root build_schema)) name of
             Some (ObjectArray obj, _) \<Rightarrow> obj
           | _ \<Rightarrow> SchemaObject [] [] [] []))"

definition lookup_field :: "string \<Rightarrow> string \<Rightarrow> schema_field" where
  "lookup_field obj name = the (find (\<lambda>f. sf_name f = name) (obj_fields (object_of obj)))"

abbreviation enum_texts :: "string \<Rightarrow> string \<Rightarrow> string set" where
  "enum_texts obj name \<equiv> set (map fst (sf_enum (lookup_field obj name)))"

definition in_bounds :: "schema_field \<Rightarrow> int \<Rightarrow> bool" where
  "in_bounds f v \<longleftrightarrow> (case sf_min_int f of None \<Rightarrow> True | Some lo \<Rightarrow> lo \<le> v) \<and>
     (case sf_max_int f of None \<Rightarrow> True | Some hi \<Rightarrow> v \<le> hi)"

lemmas schema_defs = lookup_field_def object_of_def build_schema_def provider_fields_def hardware_fields_def
  discovery_fields_def device_fields_def schema_field_of_def in_bounds_def

subsection \<open>What the schema admits\<close>

text \<open>
  The part of the SDK's validator the loader relies on, read off the table: a required field is there, a text is
  one of the enumeration, an integer is within its bounds, and every listed address is one.
\<close>

definition admits :: "config_toolkit \<Rightarrow> schema_field \<Rightarrow> yaml option \<Rightarrow> bool" where
  "admits tk f node \<longleftrightarrow>
     (case sf_kind f of
        StringField \<Rightarrow> (case as_string tk node of None \<Rightarrow> \<not> sf_required f
          | Some v \<Rightarrow> sf_enum f = [] \<or> v \<in> set (map fst (sf_enum f)))
      | IntegerField \<Rightarrow> (case as_int64 tk node of None \<Rightarrow> \<not> sf_required f | Some v \<Rightarrow> in_bounds f v)
      | BooleanField \<Rightarrow> (case as_bool tk node of None \<Rightarrow> \<not> sf_required f | Some v \<Rightarrow> True)
      | I2cAddressField \<Rightarrow> (case parse_i2c_address tk node of None \<Rightarrow> \<not> sf_required f | Some v \<Rightarrow> True))"

definition admitted :: "config_toolkit \<Rightarrow> yaml \<Rightarrow> bool" where
  "admitted tk doc \<longleftrightarrow>
     list_all (\<lambda>(name, obj, _). list_all (\<lambda>f. admits tk f (yaml_at (yaml_get doc name) (sf_name f))) (obj_fields obj))
       (obj_children (schema_root build_schema)) \<and>
     list_all (\<lambda>node. parse_i2c_address tk (Some node) \<noteq> None)
       (yaml_items (yaml_at (yaml_get doc ''discovery'') ''addresses'')) \<and>
     list_all (\<lambda>d. list_all (\<lambda>f. admits tk f (yaml_get d (sf_name f))) (obj_fields (object_of ''devices'')))
       (yaml_items (yaml_get doc ''devices''))"

definition schema_validated :: "config_toolkit \<Rightarrow> bool" where
  "schema_validated tk \<longleftrightarrow> (\<forall>doc. validate_schema tk doc = [] \<longrightarrow> admitted tk doc)"

text \<open>A field as the schema documents it: the value the document gives, or the documented default.\<close>

definition text_of :: "config_toolkit \<Rightarrow> string \<Rightarrow> string \<Rightarrow> yaml option \<Rightarrow> string" where
  "text_of tk obj name node =
     (case as_string tk node of Some v \<Rightarrow> v
      | None \<Rightarrow> (case sf_default (lookup_field obj name) of Some (DefString v) \<Rightarrow> v | _ \<Rightarrow> []))"

definition number_of :: "config_toolkit \<Rightarrow> string \<Rightarrow> string \<Rightarrow> yaml option \<Rightarrow> int" where
  "number_of tk obj name node =
     (case as_int64 tk node of Some v \<Rightarrow> v
      | None \<Rightarrow> (case sf_default (lookup_field obj name) of Some (DefInt v) \<Rightarrow> v | _ \<Rightarrow> 0))"

definition truth_of :: "config_toolkit \<Rightarrow> string \<Rightarrow> string \<Rightarrow> yaml option \<Rightarrow> bool" where
  "truth_of tk obj name node =
     (case as_bool tk node of Some v \<Rightarrow> v
      | None \<Rightarrow> (case sf_default (lookup_field obj name) of Some (DefBool v) \<Rightarrow> v | _ \<Rightarrow> False))"

lemma enum_ranges:
  "range outputs_on_startup_to_string = {''safe'', ''leave''}" "range discovery_mode_to_string = {''scan'', ''manual''}"
  "range device_type_to_string = {''rlht'', ''dcmt''}"
  by (auto simp: image_iff)
     (metis outputs_on_startup.exhaust outputs_on_startup_to_string.simps discovery_mode.exhaust
        discovery_mode_to_string.simps device_type.exhaust device_type_to_string.simps)+

lemma given_int:
  assumes "\<exists>f \<in> set fs. sf_name f = n \<and> sf_kind f = IntegerField \<and> (\<forall>v. in_bounds f v \<longleftrightarrow> P v)"
    and "\<And>f. f \<in> set fs \<Longrightarrow> admits tk f (node (sf_name f))" "as_int64 tk (node n) = Some v"
  shows "P v"
proof -
  from assms(1) obtain f where f: "f \<in> set fs" "sf_name f = n" "sf_kind f = IntegerField" "\<forall>v. in_bounds f v \<longleftrightarrow> P v" by blast
  from assms(2) [OF f(1)] f assms(3) show ?thesis by (simp add: admits_def)
qed

lemma given_text:
  assumes "\<exists>f \<in> set fs. sf_name f = n \<and> sf_kind f = StringField \<and> map fst (sf_enum f) = ts" "ts \<noteq> []"
    and "\<And>f. f \<in> set fs \<Longrightarrow> admits tk f (node (sf_name f))" "as_string tk (node n) = Some v"
  shows "v \<in> set ts"
proof -
  from assms(1) obtain f where f: "f \<in> set fs" "sf_name f = n" "sf_kind f = StringField" "map fst (sf_enum f) = ts" by blast
  from assms(3) [OF f(1)] f(2,3) assms(4) have "sf_enum f = [] \<or> v \<in> set (map fst (sf_enum f))" by (simp add: admits_def)
  with f(4) assms(2) show ?thesis by auto
qed

lemma needed_field:
  assumes "\<exists>f \<in> set fs. sf_name f = n \<and> sf_kind f = kind \<and> sf_required f"
    and "\<And>f. f \<in> set fs \<Longrightarrow> admits tk f (node (sf_name f))"
  shows "kind = StringField \<Longrightarrow> \<exists>v. as_string tk (node n) = Some v"
    and "kind = I2cAddressField \<Longrightarrow> \<exists>v. parse_i2c_address tk (node n) = Some v"
proof -
  from assms(1) obtain f where f: "f \<in> set fs" "sf_name f = n" "sf_kind f = kind" "sf_required f" by blast
  from assms(2) [OF f(1)] f show "kind = StringField \<Longrightarrow> \<exists>v. as_string tk (node n) = Some v"
    "kind = I2cAddressField \<Longrightarrow> \<exists>v. parse_i2c_address tk (node n) = Some v"
    by (cases "as_string tk (node n)"; cases "parse_i2c_address tk (node n)"; simp add: admits_def)+
qed

text \<open>The fields with a rule, as the table declares them.\<close>

lemma schema_fields:
  "\<exists>f \<in> set provider_fields. sf_name f = ''outputs_on_startup'' \<and> sf_kind f = StringField \<and> map fst (sf_enum f) = [''safe'', ''leave'']"
  "\<exists>f \<in> set hardware_fields. sf_name f = ''bus_path'' \<and> sf_kind f = StringField \<and> sf_required f"
  "\<exists>f \<in> set hardware_fields. sf_name f = ''query_delay_us'' \<and> sf_kind f = IntegerField \<and> (\<forall>v. in_bounds f v \<longleftrightarrow> 1 \<le> v \<and> v \<le> 2147483647)"
  "\<exists>f \<in> set hardware_fields. sf_name f = ''timeout_ms'' \<and> sf_kind f = IntegerField \<and> (\<forall>v. in_bounds f v \<longleftrightarrow> 1 \<le> v \<and> v \<le> 2147483647)"
  "\<exists>f \<in> set hardware_fields. sf_name f = ''retry_count'' \<and> sf_kind f = IntegerField \<and> (\<forall>v. in_bounds f v \<longleftrightarrow> 0 \<le> v \<and> v \<le> 2147483647)"
  "\<exists>f \<in> set hardware_fields. sf_name f = ''max_bus_hz'' \<and> sf_kind f = IntegerField \<and> (\<forall>v. in_bounds f v \<longleftrightarrow> 1 \<le> v \<and> v \<le> 5000000)"
  "\<exists>f \<in> set discovery_fields. sf_name f = ''mode'' \<and> sf_kind f = StringField \<and> map fst (sf_enum f) = [''scan'', ''manual'']"
  "\<exists>f \<in> set discovery_fields. sf_name f = ''mode'' \<and> sf_kind f = StringField \<and> sf_required f"
  "\<exists>f \<in> set device_fields. sf_name f = ''id'' \<and> sf_kind f = StringField \<and> sf_required f"
  "\<exists>f \<in> set device_fields. sf_name f = ''type'' \<and> sf_kind f = StringField \<and> map fst (sf_enum f) = [''rlht'', ''dcmt'']"
  "\<exists>f \<in> set device_fields. sf_name f = ''type'' \<and> sf_kind f = StringField \<and> sf_required f"
  "\<exists>f \<in> set device_fields. sf_name f = ''address'' \<and> sf_kind f = I2cAddressField \<and> sf_required f"
  "\<exists>f \<in> set device_fields. sf_name f = ''command_watchdog_ms'' \<and> sf_kind f = IntegerField \<and> (\<forall>v. in_bounds f v \<longleftrightarrow> 0 \<le> v \<and> v \<le> 65535)"
  by (simp_all add: provider_fields_def hardware_fields_def discovery_fields_def device_fields_def schema_field_of_def in_bounds_def)

lemma admitted_field:
  assumes "admitted tk doc"
  shows "f \<in> set provider_fields \<Longrightarrow> admits tk f (yaml_at (yaml_get doc ''provider'') (sf_name f))"
    and "f \<in> set hardware_fields \<Longrightarrow> admits tk f (yaml_at (yaml_get doc ''hardware'') (sf_name f))"
    and "f \<in> set discovery_fields \<Longrightarrow> admits tk f (yaml_at (yaml_get doc ''discovery'') (sf_name f))"
    and "node \<in> set (yaml_items (yaml_at (yaml_get doc ''discovery'') ''addresses'')) \<Longrightarrow> parse_i2c_address tk (Some node) \<noteq> None"
    and "d \<in> set (yaml_items (yaml_get doc ''devices'')) \<Longrightarrow> f \<in> set device_fields \<Longrightarrow> admits tk f (yaml_get d (sf_name f))"
  using assms by (simp_all add: admitted_def build_schema_def object_of_def list_all_iff)

text \<open>What an admitted document gives the loader, field by field.\<close>

lemma admitted_fields:
  assumes "admitted tk doc"
  shows "as_string tk (yaml_at (yaml_get doc ''provider'') ''outputs_on_startup'') = Some v \<Longrightarrow> v \<in> set [''safe'', ''leave'']"
    and "\<exists>v. as_string tk (yaml_at (yaml_get doc ''hardware'') ''bus_path'') = Some v"
    and "as_int64 tk (yaml_at (yaml_get doc ''hardware'') ''query_delay_us'') = Some n \<Longrightarrow> 1 \<le> n \<and> n \<le> 2147483647"
    and "as_int64 tk (yaml_at (yaml_get doc ''hardware'') ''timeout_ms'') = Some n \<Longrightarrow> 1 \<le> n \<and> n \<le> 2147483647"
    and "as_int64 tk (yaml_at (yaml_get doc ''hardware'') ''retry_count'') = Some n \<Longrightarrow> 0 \<le> n \<and> n \<le> 2147483647"
    and "as_int64 tk (yaml_at (yaml_get doc ''hardware'') ''max_bus_hz'') = Some n \<Longrightarrow> 1 \<le> n \<and> n \<le> 5000000"
    and "as_string tk (yaml_at (yaml_get doc ''discovery'') ''mode'') = Some v \<Longrightarrow> v \<in> set [''scan'', ''manual'']"
    and "\<exists>v. as_string tk (yaml_at (yaml_get doc ''discovery'') ''mode'') = Some v"
  using given_text [OF schema_fields(1) _ admitted_field(1) [OF assms]] needed_field(1) [OF schema_fields(2) admitted_field(2) [OF assms]]
    given_int [OF schema_fields(3) admitted_field(2) [OF assms]] given_int [OF schema_fields(4) admitted_field(2) [OF assms]]
    given_int [OF schema_fields(5) admitted_field(2) [OF assms]] given_int [OF schema_fields(6) admitted_field(2) [OF assms]]
    given_text [OF schema_fields(7) _ admitted_field(3) [OF assms]] needed_field(1) [OF schema_fields(8) admitted_field(3) [OF assms]]
  by simp_all

lemma admitted_device:
  assumes "admitted tk doc" "d \<in> set (yaml_items (yaml_get doc ''devices''))"
  shows "\<exists>v. as_string tk (yaml_get d ''id'') = Some v"
    and "as_string tk (yaml_get d ''type'') = Some v \<Longrightarrow> v \<in> set [''rlht'', ''dcmt'']"
    and "\<exists>v. as_string tk (yaml_get d ''type'') = Some v"
    and "\<exists>v. parse_i2c_address tk (yaml_get d ''address'') = Some v"
    and "as_int64 tk (yaml_get d ''command_watchdog_ms'') = Some n \<Longrightarrow> 0 \<le> n \<and> n \<le> 65535"
  using needed_field(1) [OF schema_fields(9) admitted_field(5) [OF assms]] given_text [OF schema_fields(10) _ admitted_field(5) [OF assms]]
    needed_field(1) [OF schema_fields(11) admitted_field(5) [OF assms]] needed_field(2) [OF schema_fields(12) admitted_field(5) [OF assms]]
    given_int [OF schema_fields(13) admitted_field(5) [OF assms]]
  by simp_all

subsection \<open>The table and the loader\<close>

text \<open>A device entry of the document and what is loaded from it.\<close>

definition device_as_documented :: "config_toolkit \<Rightarrow> yaml \<Rightarrow> device_spec \<Rightarrow> bool" where
  "device_as_documented tk d s \<longleftrightarrow>
     as_string tk (yaml_get d ''id'') = Some (spec_id s) \<and>
     as_string tk (yaml_get d ''type'') = Some (device_type_to_string (spec_type s)) \<and>
     spec_label s = (case as_string tk (yaml_get d ''label'') of Some v \<Rightarrow> v | None \<Rightarrow> spec_id s) \<and>
     parse_i2c_address tk (yaml_get d ''address'') = Some (spec_address s) \<and>
     spec_command_watchdog_ms s = number_of tk ''devices'' ''command_watchdog_ms'' (yaml_get d ''command_watchdog_ms'') \<and>
     uint (word_of_int (spec_command_watchdog_ms s) :: u16) = spec_command_watchdog_ms s \<and>
     spec_encoders s = truth_of tk ''devices'' ''encoders'' (yaml_get d ''encoders'')"

text \<open>The sections of the document and what is loaded from them, down to the options of the session.\<close>

definition config_as_documented :: "config_toolkit \<Rightarrow> yaml \<Rightarrow> provider_config \<Rightarrow> bool" where
  "config_as_documented tk doc c \<longleftrightarrow>
     (let field = (\<lambda>obj name. yaml_at (yaml_get doc obj) name); opts = make_session_options c in
      provider_name c = text_of tk ''provider'' ''name'' (field ''provider'' ''name'') \<and>
      outputs_on_startup_to_string (outputs_policy c) =
        text_of tk ''provider'' ''outputs_on_startup'' (field ''provider'' ''outputs_on_startup'') \<and>
      as_string tk (field ''hardware'' ''bus_path'') = Some (bus_path c) \<and> opt_bus_path opts = bus_path c \<and>
      query_delay_us c = number_of tk ''hardware'' ''query_delay_us'' (field ''hardware'' ''query_delay_us'') \<and>
      uint (opt_query_delay_us opts) = query_delay_us c \<and>
      timeout_ms c = number_of tk ''hardware'' ''timeout_ms'' (field ''hardware'' ''timeout_ms'') \<and>
      uint (opt_timeout_ms opts) = timeout_ms c \<and>
      retry_count c = number_of tk ''hardware'' ''retry_count'' (field ''hardware'' ''retry_count'') \<and>
      opt_retry_count opts = retry_count c \<and>
      map_option uint (max_bus_hz c) = as_int64 tk (field ''hardware'' ''max_bus_hz'') \<and>
      as_string tk (field ''discovery'' ''mode'') = Some (discovery_mode_to_string (mode_of_discovery c)) \<and>
      map Some (manual_addresses c) =
        map (\<lambda>node. parse_i2c_address tk (Some node)) (yaml_items (field ''discovery'' ''addresses'')))"

lemma map_filter_total: "(\<And>x. x \<in> set xs \<Longrightarrow> f x \<noteq> None) \<Longrightarrow> map Some (List.map_filter f xs) = map f xs"
proof (induction xs)
  case (Cons x xs)
  then obtain y where "f x = Some y" by force
  with Cons show ?case by (simp add: map_filter_simps)
qed (simp add: map_filter_simps)

lemma fits:
  "0 \<le> v \<Longrightarrow> v \<le> 2147483647 \<Longrightarrow> int32_of v = v \<and> uint (word_of_int v :: u32) = v"
  "0 \<le> v \<Longrightarrow> v \<le> 65535 \<Longrightarrow> int32_of v = v \<and> uint (word_of_int v :: u16) = v"
  by (simp_all add: int32_of_id uint_word_of_int)

lemma load_device_documented:
  assumes "admitted tk doc" "d \<in> set (yaml_items (yaml_get doc ''devices''))"
  shows "\<exists>s. load_device tk d = Inr s \<and> device_as_documented tk d s"
proof -
  note dev = admitted_device [OF assms]
  from dev(1) obtain i where i: "as_string tk (yaml_get d ''id'') = Some i" by blast
  from dev(2,3) enum_ranges(3) obtain ty where ty: "as_string tk (yaml_get d ''type'') = Some (device_type_to_string ty)"
    by (metis list.simps(15) rangeE set_empty2 empty_set)
  from dev(4) obtain a where a: "parse_i2c_address tk (yaml_get d ''address'') = Some a" by blast
  have defaults: "sf_default (lookup_field ''devices'' ''command_watchdog_ms'') = Some (DefInt 0)"
    "sf_default (lookup_field ''devices'' ''encoders'') = Some (DefBool True)"
    by (simp_all add: schema_defs)
  let ?w = "number_of tk ''devices'' ''command_watchdog_ms'' (yaml_get d ''command_watchdog_ms'')"
  have w: "uint (word_of_int ?w :: u16) = ?w"
    using fits(2) dev(5) by (auto simp: number_of_def defaults split: option.splits)
  let ?s = "\<lparr>spec_id = i, spec_type = ty, spec_label = (case as_string tk (yaml_get d ''label'') of Some v \<Rightarrow> v | None \<Rightarrow> i),
      spec_address = a, spec_command_watchdog_ms = ?w,
      spec_encoders = truth_of tk ''devices'' ''encoders'' (yaml_get d ''encoders'')\<rparr>"
  have "load_device tk d = Inr ?s"
    using fits(2) dev(5) by (auto simp: load_device_def Let_def i ty a device_type_enum.parse_show default_device_spec_def
        number_of_def truth_of_def defaults split: option.splits)
  with w i ty a show ?thesis unfolding device_as_documented_def
    by (intro exI [of _ ?s] conjI) (simp_all cong: option.case_cong)
qed

lemma load_devices_documented:
  assumes "admitted tk doc" "set ds \<subseteq> set (yaml_items (yaml_get doc ''devices''))"
  shows "\<exists>ss. load_devices tk ds = Inr ss \<and> list_all2 (device_as_documented tk) ds ss"
  using assms(2)
proof (induction ds)
  case (Cons d ds)
  then obtain ss where "load_devices tk ds = Inr ss" "list_all2 (device_as_documented tk) ds ss" by auto
  moreover obtain s where "load_device tk d = Inr s" "device_as_documented tk d s"
    using load_device_documented [OF assms(1)] Cons.prems by auto
  ultimately show ?case by simp
qed simp

lemma hardware_documented:
  assumes "admitted tk doc" "c = load_hardware tk (yaml_get doc ''hardware'') c0"
    and "query_delay_us c0 = 10000" "timeout_ms c0 = 100" "retry_count c0 = 2" "max_bus_hz c0 = None"
  shows "as_string tk (yaml_at (yaml_get doc ''hardware'') ''bus_path'') = Some (bus_path c)"
    and "query_delay_us c = number_of tk ''hardware'' ''query_delay_us'' (yaml_at (yaml_get doc ''hardware'') ''query_delay_us'') \<and>
      uint (word_of_int (query_delay_us c) :: u32) = query_delay_us c"
    and "timeout_ms c = number_of tk ''hardware'' ''timeout_ms'' (yaml_at (yaml_get doc ''hardware'') ''timeout_ms'') \<and>
      uint (word_of_int (timeout_ms c) :: u32) = timeout_ms c"
    and "retry_count c = number_of tk ''hardware'' ''retry_count'' (yaml_at (yaml_get doc ''hardware'') ''retry_count'')"
    and "map_option uint (max_bus_hz c) = as_int64 tk (yaml_at (yaml_get doc ''hardware'') ''max_bus_hz'')"
proof -
  note f = admitted_fields(2-6) [OF assms(1)]
  have defaults: "sf_default (lookup_field ''hardware'' ''query_delay_us'') = Some (DefInt 10000)"
    "sf_default (lookup_field ''hardware'' ''timeout_ms'') = Some (DefInt 100)"
    "sf_default (lookup_field ''hardware'' ''retry_count'') = Some (DefInt 2)"
    by (simp_all add: schema_defs)
  show "as_string tk (yaml_at (yaml_get doc ''hardware'') ''bus_path'') = Some (bus_path c)"
    using f(1) by (auto simp: assms(2) load_hardware_def Let_def split: option.splits)
  show "query_delay_us c = number_of tk ''hardware'' ''query_delay_us'' (yaml_at (yaml_get doc ''hardware'') ''query_delay_us'') \<and>
      uint (word_of_int (query_delay_us c) :: u32) = query_delay_us c"
    using f(2) fits(1) assms(3) by (fastforce simp: assms(2) load_hardware_def Let_def number_of_def defaults split: option.splits)
  show "timeout_ms c = number_of tk ''hardware'' ''timeout_ms'' (yaml_at (yaml_get doc ''hardware'') ''timeout_ms'') \<and>
      uint (word_of_int (timeout_ms c) :: u32) = timeout_ms c"
    using f(3) fits(1) assms(4) by (fastforce simp: assms(2) load_hardware_def Let_def number_of_def defaults split: option.splits)
  show "retry_count c = number_of tk ''hardware'' ''retry_count'' (yaml_at (yaml_get doc ''hardware'') ''retry_count'')"
    using f(4) fits(1) assms(5) by (fastforce simp: assms(2) load_hardware_def Let_def number_of_def defaults split: option.splits)
  show "map_option uint (max_bus_hz c) = as_int64 tk (yaml_at (yaml_get doc ''hardware'') ''max_bus_hz'')"
    using f(5) fits(1) assms(6) by (fastforce simp: assms(2) load_hardware_def Let_def split: option.splits)
qed

text \<open>
  C38: the published schema and the loader agree, whatever the document. If the validator enforces the table, a
  document it accepts loads, and every field of the configuration, and of every device in order, holds the value the
  document gives under the field's name in the field's section, or the default the table documents; the texts of the
  enumerations are those of the values loaded, an absent label is the id, and an
  absent clock limit stays absent. No cast on the way changes a value: not into the \<open>int\<close>s of the
  configuration, the unsigned options of the session or the 16-bit watchdog time of the wire.
\<close>

theorem schema_matches_loader:
  assumes "schema_validated tk" "yaml_load_file tk path = Inr y" "validate_schema tk (drop_rlht_encoders y) = []"
  shows "\<exists>c. load_config tk path = Inr c \<and> config_file_path c = absolute_path tk path \<and>
    config_as_documented tk (drop_rlht_encoders y) c \<and>
    list_all2 (device_as_documented tk) (yaml_items (yaml_get (drop_rlht_encoders y) ''devices'')) (config_devices c)"
proof -
  let ?doc = "drop_rlht_encoders y" and ?d = default_provider_config
  let ?provider = "yaml_get ?doc ''provider''" and ?discovery = "yaml_get ?doc ''discovery''"
  from assms(1,3) have ok: "admitted tk ?doc" by (simp add: schema_validated_def)
  have defaults: "sf_default (lookup_field ''provider'' ''name'') = Some (DefString ''anolis-provider-bread'')"
    "sf_default (lookup_field ''provider'' ''outputs_on_startup'') = Some (DefString ''safe'')"
    by (simp_all add: schema_defs)
  obtain policy where policy: "outputs_on_startup_to_string policy =
      text_of tk ''provider'' ''outputs_on_startup'' (yaml_at ?provider ''outputs_on_startup'')"
    "(case as_string tk (yaml_at ?provider ''outputs_on_startup'') of None \<Rightarrow> Inr Safe | Some v \<Rightarrow> parse_outputs_on_startup v) = Inr policy"
  proof (cases "as_string tk (yaml_at ?provider ''outputs_on_startup'')")
    case (Some v)
    from admitted_fields(1) [OF ok Some] have "v \<in> range outputs_on_startup_to_string" unfolding enum_ranges by simp
    then obtain p where "v = outputs_on_startup_to_string p" by (rule rangeE)
    with Some that show thesis by (simp add: text_of_def outputs_enum.parse_show)
  qed (use that in \<open>simp add: text_of_def defaults\<close>)
  obtain mode where mode: "as_string tk (yaml_at ?discovery ''mode'') = Some (discovery_mode_to_string mode)"
    using admitted_fields(7,8) [OF ok] enum_ranges(2) by (metis list.simps(15) rangeE set_empty2 empty_set)
  obtain specs where specs: "load_devices tk (yaml_items (yaml_get ?doc ''devices'')) = Inr specs"
    "list_all2 (device_as_documented tk) (yaml_items (yaml_get ?doc ''devices'')) specs"
    using load_devices_documented [OF ok order.refl] by blast
  define c0 where "c0 = ?d\<lparr>config_file_path := absolute_path tk path,
    provider_name := text_of tk ''provider'' ''name'' (yaml_at ?provider ''name''), outputs_policy := policy\<rparr>"
  define c1 where "c1 = load_hardware tk (yaml_get ?doc ''hardware'') c0"
  let ?nodes = "yaml_items (yaml_at ?discovery ''addresses'')"
  let ?c = "c1\<lparr>mode_of_discovery := mode, manual_addresses := List.map_filter (\<lambda>n. parse_i2c_address tk (Some n)) ?nodes,
    config_devices := specs\<rparr>"
  have kept: "config_file_path c1 = config_file_path c0" "provider_name c1 = provider_name c0" "outputs_policy c1 = outputs_policy c0"
    "mode_of_discovery c1 = mode_of_discovery c0"
    by (simp_all add: c1_def load_hardware_def Let_def split: option.splits)
  have "c0 = (case as_string tk (yaml_at ?provider ''name'') of None \<Rightarrow> ?d\<lparr>config_file_path := absolute_path tk path\<rparr>
      | Some v \<Rightarrow> ?d\<lparr>config_file_path := absolute_path tk path, provider_name := v\<rparr>)\<lparr>outputs_policy := policy\<rparr>"
    by (simp add: c0_def text_of_def defaults default_provider_config_def split: option.splits)
  then have load: "load_config tk path = Inr ?c"
    using assms(2,3) policy(2) mode specs(1)
    by (auto simp: load_config_def Let_def c1_def discovery_enum.parse_show default_provider_config_def split: option.splits sum.splits)
  have addresses: "map Some (manual_addresses ?c) = map (\<lambda>n. parse_i2c_address tk (Some n)) ?nodes"
    using map_filter_total [of ?nodes "\<lambda>n. parse_i2c_address tk (Some n)", OF admitted_field(4) [OF ok]] by simp
  have "query_delay_us c0 = 10000" "timeout_ms c0 = 100" "retry_count c0 = 2" "max_bus_hz c0 = None"
    by (simp_all add: c0_def default_provider_config_def)
  note hw = hardware_documented [OF ok c1_def this]
  have "config_as_documented tk ?doc ?c"
    using hw(1,4,5) conjunct1 [OF hw(2)] conjunct2 [OF hw(2)] conjunct1 [OF hw(3)] conjunct2 [OF hw(3)] policy(1) mode addresses
    by (simp add: config_as_documented_def Let_def make_session_options_def kept c0_def)
  with load specs(2) show ?thesis by (intro exI [of _ ?c]) (simp add: kept c0_def)
qed

text \<open>A toolkit for documents of plain scalars, whose validator is the table's.\<close>

definition plain_toolkit :: "yaml \<Rightarrow> config_toolkit" where
  "plain_toolkit y =
     \<lparr>yaml_load_file = (\<lambda>_. Inr y), validate_schema = (\<lambda>_. []), format_errors = concat, as_string = sample_text,
      as_int64 = (\<lambda>n. if n = Some (YScalar ''250'') then Some 250 else None), as_bool = (\<lambda>_. None),
      parse_i2c_address = (\<lambda>n. if n = Some (YScalar ''0x0A'') then Some 10 else None), absolute_path = (\<lambda>p. p)\<rparr>"

definition checked_toolkit :: "yaml \<Rightarrow> config_toolkit" where
  "checked_toolkit y =
     (plain_toolkit y)\<lparr>validate_schema := (\<lambda>doc. if admitted (plain_toolkit y) doc then [] else [''not admitted''])\<rparr>"

definition small_document :: yaml where
  "small_document =
     YMap [(''hardware'', YMap [(''bus_path'', YScalar ''mock://a''), (''timeout_ms'', YScalar ''250'')]),
           (''discovery'', YMap [(''mode'', YScalar ''scan'')]),
           (''devices'', YSeq [YMap [(''id'', YScalar ''h0''), (''type'', YScalar ''rlht''), (''address'', YScalar ''0x0A'')]])]"

lemma admitted_checked: "admitted (checked_toolkit y) = admitted (plain_toolkit y)"
  by (intro ext) (simp add: admitted_def admits_def checked_toolkit_def cong: schema_kind.case_cong option.case_cong)

theorem schema_matches_loader_witness:
  "\<exists>c. load_config (checked_toolkit small_document) ''bread.yaml'' = Inr c \<and> timeout_ms c = 250 \<and> retry_count c = 2 \<and>
     bus_path c = ''mock://a'' \<and> mode_of_discovery c = Scan \<and> map spec_address (config_devices c) = [10]"
proof -
  let ?tk = "checked_toolkit small_document"
  have doc: "drop_rlht_encoders small_document = small_document"
    by (simp add: small_document_def drop_device_encoders_def drops_encoders_def)
  have "admitted (plain_toolkit small_document) small_document"
    by (simp add: admitted_def build_schema_def object_of_def provider_fields_def hardware_fields_def discovery_fields_def
        device_fields_def schema_field_of_def admits_def in_bounds_def plain_toolkit_def small_document_def sample_text_def
        yaml_at_def yaml_items_def)
  then have valid: "validate_schema ?tk (drop_rlht_encoders small_document) = []" by (simp add: checked_toolkit_def doc)
  have "schema_validated ?tk" unfolding schema_validated_def admitted_checked by (simp add: checked_toolkit_def)
  from schema_matches_loader [OF this _ valid, of "''bread.yaml''"] obtain c where
    c: "load_config ?tk ''bread.yaml'' = Inr c" "config_as_documented ?tk small_document c"
    "list_all2 (device_as_documented ?tk) (yaml_items (yaml_get small_document ''devices'')) (config_devices c)"
    unfolding doc by (auto simp: checked_toolkit_def plain_toolkit_def)
  have "sf_default (lookup_field ''hardware'' ''retry_count'') = Some (DefInt 2)" by (simp add: schema_defs)
  then have "timeout_ms c = 250" "retry_count c = 2" "bus_path c = ''mock://a''"
      "discovery_mode_to_string (mode_of_discovery c) = ''scan''"
    using c(2) by (simp_all add: config_as_documented_def Let_def small_document_def checked_toolkit_def plain_toolkit_def
        sample_text_def yaml_at_def number_of_def)
  moreover have "map spec_address (config_devices c) = [10]"
  proof -
    let ?d = "YMap [(''id'', YScalar ''h0''), (''type'', YScalar ''rlht''), (''address'', YScalar ''0x0A'')]"
    have "yaml_items (yaml_get small_document ''devices'') = [?d]" by (simp add: small_document_def yaml_items_def)
    with c(3) obtain s where s: "config_devices c = [s]" "device_as_documented ?tk ?d s"
      by (cases "config_devices c") (simp_all add: list_all2_Cons1)
    from s(2) have "parse_i2c_address ?tk (yaml_get ?d ''address'') = Some (spec_address s)"
      unfolding device_as_documented_def by blast
    then show ?thesis by (simp add: s(1) checked_toolkit_def plain_toolkit_def)
  qed
  moreover have "mode_of_discovery c = Scan" using calculation(4) by (cases "mode_of_discovery c") simp_all
  ultimately show ?thesis using c(1) by (intro exI [of _ c] conjI)
qed

end
