(* ===== verification/Logging.thy ===== *)
theory Logging
  imports Crumbs_Session
begin

text \<open>
  \<open>src/logging/logger\<close>: the two streams the process writes its messages to, and the lines that the session writes
  through it (\<open>describe_failure\<close>, the retry loop and \<open>Session::open\<close> of \<open>src/crumbs/session.cpp\<close>). The functions of
  \<open>Crumbs_Session\<close> leave the log out; here they are with it, and shown to be the same functions.
\<close>

datatype level = Info | Warning | Error

text \<open>What has been written to \<open>std::clog\<close> and to \<open>std::cerr\<close>.\<close>

record log_streams =
  clog :: string
  cerr :: string

fun to_prefix :: "level \<Rightarrow> string" where
  "to_prefix Info = ''[INFO]''"
| "to_prefix Warning = ''[WARN]''"
| "to_prefix Error = ''[ERROR]''"

definition log_line :: "level \<Rightarrow> string \<Rightarrow> string" where
  "log_line l message = to_prefix l @ '' '' @ message @ [CHR 0x0A]"

definition log_to :: "level \<Rightarrow> string \<Rightarrow> log_streams \<Rightarrow> log_streams" where
  "log_to l message lg =
     (if l = Error then lg\<lparr>cerr := cerr lg @ log_line l message\<rparr> else lg\<lparr>clog := clog lg @ log_line l message\<rparr>)"

definition log_info :: "string \<Rightarrow> log_streams \<Rightarrow> log_streams" where
  "log_info = log_to Info"

definition log_warning :: "string \<Rightarrow> log_streams \<Rightarrow> log_streams" where
  "log_warning = log_to Warning"

definition log_error :: "string \<Rightarrow> log_streams \<Rightarrow> log_streams" where
  "log_error = log_to Error"

lemmas log_defs = log_info_def log_warning_def log_error_def

definition log_all :: "(level \<times> string) list \<Rightarrow> log_streams \<Rightarrow> log_streams" where
  "log_all es lg = fold (\<lambda>(l, m). log_to l m) es lg"

lemma log_all_simps [simp]:
  "log_all [] lg = lg" "log_all ((l, m) # es) lg = log_all es (log_to l m lg)"
  by (simp_all add: log_all_def)

text \<open>What is written to a stream is the lines of its levels, in order, after what was there.\<close>

lemma log_all_streams:
  "clog (log_all es lg) = clog lg @ concat (map (\<lambda>(l, m). log_line l m) (filter (\<lambda>(l, m). l \<noteq> Error) es))"
  "cerr (log_all es lg) = cerr lg @ concat (map (\<lambda>(l, m). log_line l m) (filter (\<lambda>(l, m). l = Error) es))"
  by (induction es arbitrary: lg) (auto simp: log_to_def)

subsection \<open>The lines of the session\<close>

definition describe_address :: "u8 option \<Rightarrow> string" where
  "describe_address address = (case address of None \<Rightarrow> [] | Some a \<Rightarrow> '' addr='' @ format_i2c_address (uint a))"

definition describe_failure :: "string \<Rightarrow> session_status \<Rightarrow> u8 option \<Rightarrow> string" where
  "describe_failure operation st address =
     operation @ '' failed'' @ describe_address address @ '' code='' @ session_error_to_string (st_code st) @
     '' attempts='' @ int_to_string (st_attempts st) @
     (if st_native_code st \<noteq> 0 then '' native_code='' @ int_to_string (st_native_code st) else []) @
     (if st_message st \<noteq> [] then '' message='' @ [CHR 0x22] @ st_message st @ [CHR 0x22] else [])"

function logged_retry_loop ::
  "string \<Rightarrow> u8 option \<Rightarrow> int \<Rightarrow> ('s \<Rightarrow> session_status \<times> 's) \<Rightarrow> int \<Rightarrow> session_status \<Rightarrow> 's \<times> log_streams \<Rightarrow>
   session_status \<times> 's \<times> log_streams" where
  "logged_retry_loop operation address max_n fn attempt prev (s, lg) =
     (if attempt \<le> max_n then
        (let (st, s') = fn s; cur = st\<lparr>st_attempts := attempt\<rparr> in
         if status_ok cur then (cur, s', lg)
         else if \<not> is_retryable (st_code cur) \<or> st_native_code cur = ETIMEDOUT \<or> attempt = max_n then
           (cur, s', log_error (describe_failure operation cur address) lg)
         else logged_retry_loop operation address max_n fn (attempt + 1) cur
                (s', log_warning (describe_failure operation cur address @ '' retrying'') lg))
      else (prev, s, lg))"
  by pat_completeness auto
termination
  by (relation "measure (\<lambda>(operation, address, max_n, fn, attempt, prev, s). nat (max_n + 1 - attempt))") auto

declare logged_retry_loop.simps [simp del]

definition logged_execute_with_retry ::
  "session_options \<Rightarrow> string \<Rightarrow> u8 option \<Rightarrow> ('s \<Rightarrow> session_status \<times> 's) \<Rightarrow> 's \<times> log_streams \<Rightarrow>
   session_status \<times> 's \<times> log_streams" where
  "logged_execute_with_retry opts operation address fn =
     logged_retry_loop operation address (max_attempts opts) fn 1 (failure TransportError (operation @ '' did not run'') 0)"

definition logged_open ::
  "'w transport \<Rightarrow> 'w session \<times> log_streams \<Rightarrow> session_status \<times> 'w session \<times> log_streams" where
  "logged_open tr = (\<lambda>(ss, lg).
     if tr_is_open tr (s_transport ss) then
       (failure AlreadyOpen ''CRUMBS session is already open'' 0, ss, lg)
     else
       let v = validate_open_options (s_options ss) in
       if \<not> status_ok v then (v, ss, lg)
       else
         let (st, w) = tr_open tr (s_options ss) (s_transport ss); cur = st\<lparr>st_attempts := 1\<rparr>; ss' = ss\<lparr>s_transport := w\<rparr> in
         if status_ok cur then
           (cur, ss', log_info (''opened CRUMBS session on bus '' @ opt_bus_path (s_options ss)) lg)
         else (cur, ss', log_error (describe_failure ''open'' cur None) lg))"

subsection \<open>The log changes nothing, and misses nothing\<close>

text \<open>The failures an operation retried after: of the attempts \<open>k, k + 1, ...\<close>, in order.\<close>

definition retried_from :: "int \<Rightarrow> session_status list \<Rightarrow> bool" where
  "retried_from k sts \<longleftrightarrow>
     (\<forall>st \<in> set sts. \<not> status_ok st \<and> \<not> gives_up st) \<and> map st_attempts sts = map (\<lambda>i. k + int i) [0..<length sts]"

lemma retried_from_Nil [simp]: "retried_from k []"
  by (simp add: retried_from_def)

lemma retried_from_Cons:
  "retried_from k (st # sts) \<longleftrightarrow> \<not> status_ok st \<and> \<not> gives_up st \<and> st_attempts st = k \<and> retried_from (k + 1) sts"
  by (auto simp: retried_from_def map_upt_Suc algebra_simps simp del: upt_Suc)

definition failure_lines :: "string \<Rightarrow> u8 option \<Rightarrow> session_status list \<Rightarrow> session_status \<Rightarrow> (level \<times> string) list" where
  "failure_lines operation address sts st =
     map (\<lambda>s. (Warning, describe_failure operation s address @ '' retrying'')) sts @
     (if status_ok st then [] else [(Error, describe_failure operation st address)])"

lemma logged_retry_loop_spec:
  assumes "attempt \<le> max_n" "logged_retry_loop operation address max_n fn attempt prev (s, lg) = (st, s', lg')"
  shows "retry_loop max_n fn attempt prev s = (st, s') \<and>
    (\<exists>sts. retried_from attempt sts \<and> st_attempts st = attempt + int (length sts) \<and>
       lg' = log_all (failure_lines operation address sts st) lg)"
  using assms
proof (induction max_n fn attempt prev s arbitrary: lg rule: retry_loop.induct)
  case (1 max_n fn attempt prev s)
  obtain x s1 where fn: "fn s = (x, s1)" by fastforce
  let ?cur = "x\<lparr>st_attempts := attempt\<rparr>"
  show ?case
  proof (cases "status_ok ?cur \<or> gives_up ?cur \<or> attempt = max_n")
    case True
    with "1.prems" show ?thesis
      by (intro conjI exI [of _ "[]"])
         (auto simp: fn retry_loop.simps [of max_n fn attempt] logged_retry_loop.simps [of operation address max_n fn attempt]
           gives_up_def failure_lines_def log_defs Let_def split: if_splits)
  next
    case False
    let ?lg = "log_warning (describe_failure operation ?cur address @ '' retrying'') lg"
    have next_le: "attempt + 1 \<le> max_n" using False "1.prems"(1) by simp
    have step: "logged_retry_loop operation address max_n fn (attempt + 1) ?cur (s1, ?lg) = (st, s', lg')"
      "retry_loop max_n fn attempt prev s = retry_loop max_n fn (attempt + 1) ?cur s1"
      using False "1.prems" by (auto simp: fn retry_loop.simps [of max_n fn attempt]
          logged_retry_loop.simps [of operation address max_n fn attempt] gives_up_def Let_def)
    from "1.IH" [OF "1.prems"(1) refl fn [symmetric] refl _ _ next_le step(1)] False
    obtain sts where sts: "retry_loop max_n fn (attempt + 1) ?cur s1 = (st, s')" "retried_from (attempt + 1) sts"
      "st_attempts st = attempt + 1 + int (length sts)" "lg' = log_all (failure_lines operation address sts st) ?lg" by blast
    from sts False step(2) show ?thesis
      by (intro conjI exI [of _ "?cur # sts"]) (simp_all add: retried_from_Cons failure_lines_def log_defs)
  qed
qed

text \<open>
  C27: the log changes nothing and misses nothing. An operation of the session that logs returns the same status and leaves the
  same bus as the operation without its log; it writes one warning for each attempt it retries after, in the order of the
  attempts and with the attempt's own number, and then, exactly when the operation fails, one error. The
  warnings go to one stream and the error to the other, after what was there, and nothing else is written.
\<close>

theorem retries_are_logged:
  "let (st, s', lg') = logged_execute_with_retry opts operation address fn (s, lg) in
     execute_with_retry opts operation fn s = (st, s') \<and>
     (\<exists>sts. retried_from 1 sts \<and> st_attempts st = 1 + int (length sts) \<and>
        clog lg' = clog lg @ concat (map (\<lambda>x. log_line Warning (describe_failure operation x address @ '' retrying'')) sts) \<and>
        cerr lg' = cerr lg @ (if status_ok st then [] else log_line Error (describe_failure operation st address)))"
proof -
  obtain st s' lg' where r: "logged_execute_with_retry opts operation address fn (s, lg) = (st, s', lg')" by (metis prod_cases3)
  have "1 \<le> max_attempts opts" by (simp add: max_attempts_def)
  from logged_retry_loop_spec [OF this r [unfolded logged_execute_with_retry_def]]
  obtain sts where "execute_with_retry opts operation fn s = (st, s')" "retried_from 1 sts"
    "st_attempts st = 1 + int (length sts)" "lg' = log_all (failure_lines operation address sts st) lg"
    by (auto simp: execute_with_retry_def)
  then show ?thesis
    by (auto simp: r log_all_streams failure_lines_def filter_map comp_def split_def intro!: exI [of _ sts])
qed

text \<open>Opening a session writes one line when it reaches the transport, and none when it is refused before.\<close>

lemma open_is_logged:
  "let (st, ss', lg') = logged_open tr (ss, lg) in
     session_open tr ss = (st, ss') \<and>
     lg' = (if tr_is_open tr (s_transport ss) \<or> \<not> status_ok (validate_open_options (s_options ss)) then lg
            else if status_ok st then log_info (''opened CRUMBS session on bus '' @ opt_bus_path (s_options ss)) lg
            else log_error (describe_failure ''open'' st None) lg)"
  by (auto simp: logged_open_def session_open_def Let_def split: prod.splits)

end
