(* ===== verification/Request_Relations.thy ===== *)
theory Request_Relations
  imports Provider_Runtime
begin

text \<open>
  Relations between two runs of whole requests. A request on a device is operations on it and the
  taking of its recovery; so a relation of sessions that those keep is kept by calls and
  reads, with equal answers. The locale \<open>request_relation\<close> says so. A health request
  prints the books too, of which two runs may differ in part: \<open>health_relation\<close> has the part as a relation on
  what is printed. The keepalive's thread makes operations on the devices it feeds.
\<close>

subsection \<open>The process\<close>

definition same_globals :: "('v session \<Rightarrow> 'w session \<Rightarrow> bool) \<Rightarrow> ('q, 'v) globals \<Rightarrow> ('q, 'w) globals \<Rightarrow> bool" where
  "same_globals S g h \<longleftrightarrow>
     g_state g = g_state h \<and> rel_option S (g_session g) (g_session h) \<and> g_keepalive g = g_keepalive h \<and>
     g_feeder g = g_feeder h"

lemma same_globals_note_contact: "same_globals S g h \<Longrightarrow> same_globals S (note_contact i g) (note_contact i h)"
  by (simp add: same_globals_def note_contact_def)

lemma same_globals_session:
  "same_globals S g h \<Longrightarrow> rel_option S s t \<Longrightarrow> same_globals S (g\<lparr>g_session := s\<rparr>) (h\<lparr>g_session := t\<rparr>)"
  by (simp add: same_globals_def)

lemma same_globals_some:
  assumes "same_globals S g h" "g_session g = Some s"
  obtains t where "g_session h = Some t" "S s t"
  using assms by (auto simp: same_globals_def option_rel_Some1)

subsection \<open>Calls and reads\<close>

locale request_relation = device_relation +
  assumes take_recovery_rel: "S s t \<Longrightarrow>
    rel_prod (=) S (take_recovery (word_of_int (dev_address d)) s) (take_recovery (word_of_int (dev_address d)) t)"
begin

lemma handle_recovery_rel:
  assumes "same_globals S g h"
  shows "same_globals S (handle_recovery ct tr1 d c g) (handle_recovery ct tr2 d c h)"
proof (cases "g_session g")
  case None
  with assms show ?thesis by (auto simp: handle_recovery_def same_globals_def)
next
  case (Some s)
  with assms obtain t where t: "g_session h = Some t" "S s t"
    by (auto simp: same_globals_def option_rel_Some1)
  obtain b s1 t1 where r: "take_recovery (word_of_int (dev_address d)) s = (b, s1)"
    "take_recovery (word_of_int (dev_address d)) t = (b, t1)" "S s1 t1"
    using take_recovery_rel [OF t(2)] by (auto simp: rel_prod_conv split: prod.splits)
  obtain res s2 t2 where dr: "drive ct tr1 d s1 = (res, s2)" "drive ct tr2 d t1 = (res, t2)" "S s2 t2"
    using rel_funD [OF drive_rel r(3)] by (auto simp: rel_prod_conv split: prod.splits)
  from assms Some t(1) r dr rel_funD [OF arm_rel r(3)] rel_funD [OF arm_rel dr(3)] show ?thesis
    by (simp add: handle_recovery_def same_globals_def record_safe_outputs_def)
qed

lemma finish_call_rel:
  assumes "same_globals S g h"
  shows "rel_prod (=) (same_globals S) (finish_call ct tr1 c d fid args g) (finish_call ct tr2 c d fid args h)"
proof -
  from assms have "rel_option S (g_session g) (g_session h)" by (simp add: same_globals_def)
  from rel_funD [OF rel_funD [OF rel_funD [OF call_rel this] refl] refl, of fid args]
  obtain br s t where r: "call (adapter_for ct tr1 (dev_type d)) (g_session g) d fid args = (br, s)"
    "call (adapter_for ct tr2 (dev_type d)) (g_session h) d fid args = (br, t)" "rel_option S s t"
    by (auto simp: rel_prod_conv split: prod.splits)
  note same = same_globals_session [OF assms r(3)]
  from assms r same handle_recovery_rel [OF same] show ?thesis by (simp add: finish_call_def Let_def)
qed

lemma finish_read_rel:
  assumes "same_globals S g h"
  shows "rel_prod (=) (same_globals S) (finish_read ct tr1 c d ids g) (finish_read ct tr2 c d ids h)"
proof (cases "g_session g")
  case None
  with assms have "g_session h = None" by (simp add: same_globals_def)
  with None assms show ?thesis by (simp add: finish_read_def)
next
  case (Some s)
  then obtain t where t: "g_session h = Some t" "S s t" by (rule same_globals_some [OF assms])
  from rel_funD [OF rel_funD [OF adapter_rel(1) refl] t(2), of ids]
  obtain br s1 t1 where r: "ad_read_signals (adapter_for ct tr1 (dev_type d)) d ids s = (br, s1)"
    "ad_read_signals (adapter_for ct tr2 (dev_type d)) d ids t = (br, t1)" "S s1 t1"
    by (auto simp: rel_prod_conv split: prod.splits)
  then have "rel_option S (Some s1) (Some t1)" by simp
  note same = same_globals_session [OF assms this]
  from Some t(1) r same handle_recovery_rel [OF same] show ?thesis by (simp add: finish_read_def Let_def)
qed

lemma begin_request_rel:
  assumes "same_globals S g h" "find_device (rs_devices (g_state g)) i = Some d"
  shows "begin_request i g = Some (d, note_contact i g)" "begin_request i h = Some (d, note_contact i h)"
    "same_globals S (note_contact i g) (note_contact i h)" "snapshot g = snapshot h"
  using assms same_globals_note_contact by (auto simp: begin_request_def snapshot_def same_globals_def)

lemma runtime_call_rel:
  assumes "same_globals S g h" "find_device (rs_devices (g_state g)) i = Some d"
  shows "rel_prod (=) (same_globals S) (runtime_call ct tr1 i fid args g) (runtime_call ct tr2 i fid args h)"
  using finish_call_rel [OF begin_request_rel(3) [OF assms]] by (simp add: runtime_call_def begin_request_rel [OF assms])

lemma runtime_read_rel:
  assumes "same_globals S g h" "find_device (rs_devices (g_state g)) i = Some d"
  shows "rel_prod (=) (same_globals S) (runtime_read ct tr1 i ids g) (runtime_read ct tr2 i ids h)"
  using finish_read_rel [OF begin_request_rel(3) [OF assms]] by (simp add: runtime_read_def begin_request_rel [OF assms])

end

subsection \<open>Health\<close>

locale health_relation = request_relation +
  fixes E :: "device_health_extra \<Rightarrow> device_health_extra \<Rightarrow> bool"
  assumes print_refl: "E x x"
    and print_io: "S s t \<Longrightarrow>
      E (io_metrics (stats_for s (word_of_int (dev_address d))) x) (io_metrics (stats_for t (word_of_int (dev_address d))) x)"
    and print_watchdog: "E x y \<Longrightarrow> E (watchdog_metrics wd x) (watchdog_metrics wd y)"
    and failed_rel: "S s t \<Longrightarrow>
      last_op_failed s (word_of_int (dev_address d)) = last_op_failed t (word_of_int (dev_address d))"
begin

lemma session_health_rel:
  assumes "S s t"
  shows "rel_prod E S (session_health ct tr1 d x s) (session_health ct tr2 d x t)"
proof -
  obtain st wd s1 where 1: "query_status ct tr1 d new_watchdog_status s = (st, wd, s1)" by (metis prod_cases3)
  obtain st' wd' t1 where 2: "query_status ct tr2 d new_watchdog_status t = (st', wd', t1)" by (metis prod_cases3)
  from rel_funD [OF rel_funD [OF query_status_rel refl] assms, of new_watchdog_status]
  have q: "same_status st st'" "wd' = wd" "S s1 t1" by (simp_all add: 1 2)
  have "status_ok st = status_ok st'" using rel_funD [OF same_status_rules(1) q(1)] .
  moreover have "S (snd (rearm_if_rebooted ct tr1 d wd s1)) (snd (rearm_if_rebooted ct tr2 d wd t1))"
    using rel_funD [OF rel_funD [OF rearm_rel refl] q(3), of wd] by (auto simp: rel_prod_conv split: prod.splits)
  ultimately show ?thesis
    using assms q print_io [OF assms] print_watchdog [OF print_io [OF assms]] failed_rel [OF assms]
    by (simp add: session_health_def 1 2 Let_def)
qed

lemma device_health_rel:
  assumes "same_globals S g h" "find_device (rs_devices (g_state g)) i = Some d"
  shows "rel_prod E (same_globals S) (device_health ct tr1 i g) (device_health ct tr2 i h)"
proof -
  from assms(1) have st: "g_state h = g_state g" by (simp add: same_globals_def)
  show ?thesis
  proof (cases "g_session g")
    case None
    with assms(1) have "g_session h = None" by (simp add: same_globals_def)
    with None st assms show ?thesis by (simp add: device_health_def snapshot_def print_refl)
  next
    case (Some s)
    then obtain t where t: "g_session h = Some t" "S s t" by (rule same_globals_some [OF assms(1)])
    let ?x = "passive_health ct (g_state g) i d"
    obtain x s1 where 1: "session_health ct tr1 d ?x s = (x, s1)" by fastforce
    obtain y t1 where 2: "session_health ct tr2 d ?x t = (y, t1)" by fastforce
    from session_health_rel [OF t(2), of ?x] have "E x y" "S s1 t1" by (simp_all add: 1 2)
    with st assms Some t(1) 1 2 show ?thesis by (simp add: device_health_def snapshot_def same_globals_def)
  qed
qed

end

subsection \<open>The keepalive's thread\<close>

lemma feed_all_rel:
  assumes "\<And>d. d \<in> set ds \<Longrightarrow> device_relation ct tr1 tr2 d S"
  shows "S s t \<Longrightarrow> S (feed_all ct tr1 ds s) (feed_all ct tr2 ds t)"
  using assms
proof (induction ds arbitrary: s t)
  case (Cons d ds)
  from Cons.prems(2) have "device_relation ct tr1 tr2 d S" by simp
  from rel_funD [OF rel_funD [OF device_relation.query_status_rel [OF this] refl] Cons.prems(1), of new_watchdog_status]
  have "S (snd (snd (query_status ct tr1 d new_watchdog_status s))) (snd (snd (query_status ct tr2 d new_watchdog_status t)))"
    by (auto simp: rel_prod_conv split: prod.splits)
  from Cons.IH [OF this Cons.prems(2)] show ?case by (simp add: feed_all_def)
qed (simp add: feed_all_def)

lemma tick_rel:
  assumes "\<And>d. d \<in> fed_device ` set (ka_fed ka) \<Longrightarrow> device_relation ct tr1 tr2 d S" "S s t"
  shows "rel_prod (=) (rel_prod (=) S) (tick ct tr1 now ka s) (tick ct tr2 now ka t)"
proof -
  have "S (feed_all ct tr1 (due_devices now (ka_fed ka)) s) (feed_all ct tr2 (due_devices now (ka_fed ka)) t)"
    by (rule feed_all_rel [OF assms(1) assms(2)]) (auto simp: due_devices_def)
  with assms(2) show ?thesis by (simp add: tick_spec)
qed

lemma feed_globals_rel:
  assumes "\<And>ka d. g_keepalive g = Some ka \<Longrightarrow> d \<in> fed_device ` set (ka_fed ka) \<Longrightarrow> device_relation ct tr1 tr2 d S"
    and "same_globals S g h"
  shows "same_globals S (feed_globals ct tr1 now g) (feed_globals ct tr2 now h)"
proof (cases "g_session g")
  case None
  with assms(2) show ?thesis by (auto simp: feed_globals_def same_globals_def)
next
  case (Some s)
  then obtain t where t: "g_session h = Some t" "S s t" by (rule same_globals_some [OF assms(2)])
  show ?thesis
  proof (cases "g_keepalive g")
    case None
    with assms(2) Some t(1) show ?thesis by (simp add: feed_globals_def same_globals_def)
  next
    case ka: (Some ka)
    from tick_rel [where ka = ka and now = now, OF assms(1) [OF ka] t(2)] obtain n ka' s1 t1 where
      "tick ct tr1 now ka s = (n, ka', s1)" "tick ct tr2 now ka t = (n, ka', t1)" "S s1 t1"
      by (auto simp: rel_prod_conv split: prod.splits)
    moreover have "g_state h = g_state g" "g_keepalive h = Some ka" "g_feeder h = g_feeder g"
      using assms(2) ka by (simp_all add: same_globals_def)
    ultimately show ?thesis using Some ka t by (simp add: feed_globals_def same_globals_def wake_def Let_def)
  qed
qed

subsection \<open>Bringing the devices up\<close>

lemma apply_outputs_policy_rel:
  assumes "\<And>d. d \<in> set ds \<Longrightarrow> device_relation ct tr1 tr2 d S"
  shows "S s t \<Longrightarrow> rel_prod (=) S (apply_outputs_policy ct tr1 c ds m s) (apply_outputs_policy ct tr2 c ds m t)"
  using assms
proof (induction ds arbitrary: m s t)
  case (Cons d ds)
  from Cons.prems(2) have "device_relation ct tr1 tr2 d S" by simp
  from rel_funD [OF device_relation.drive_rel [OF this] Cons.prems(1)] obtain r s1 t1 where
    "drive ct tr1 d s = (r, s1)" "drive ct tr2 d t = (r, t1)" "S s1 t1" by (auto simp: rel_prod_conv split: prod.splits)
  with Cons.IH [OF _ Cons.prems(2)] Cons.prems(1) show ?case by simp
qed simp

lemma arm_all_rel:
  assumes "\<And>d. d \<in> set ds \<Longrightarrow> device_relation ct tr1 tr2 d S"
  shows "S s t \<Longrightarrow> S (arm_all ct tr1 ds s) (arm_all ct tr2 ds t)"
  using assms
proof (induction ds arbitrary: s t)
  case (Cons d ds)
  from Cons.prems(2) have "device_relation ct tr1 tr2 d S" by simp
  from Cons.IH [OF rel_funD [OF device_relation.arm_rel [OF this] Cons.prems(1)] Cons.prems(2)] show ?case
    by (simp add: arm_all_def)
qed (simp add: arm_all_def)

lemma bring_up_rel:
  assumes dev: "\<And>d. d \<in> set ds \<Longrightarrow> device_relation ct tr1 tr2 d S" and "S s t"
    and clock: "\<And>s t. S s t \<Longrightarrow> steady_now tr1 (s_transport s) = steady_now tr2 (s_transport t)"
  shows "rel_prod (=) (rel_prod (=) S) (bring_up ct tr1 c ds s) (bring_up ct tr2 c ds t)"
proof -
  obtain m s1 t1 where p: "apply_outputs_policy ct tr1 c ds Map.empty s = (m, s1)"
    "apply_outputs_policy ct tr2 c ds Map.empty t = (m, t1)" "S s1 t1"
    using apply_outputs_policy_rel [where ds = ds and m = Map.empty and c = c, OF dev assms(2)] by (auto simp: rel_prod_conv split: prod.splits)
  from arm_all_rel [where ds = ds, OF dev p(3)] have "S (arm_all ct tr1 ds s1) (arm_all ct tr2 ds t1)" by simp
  with clock [OF this] p(1,2) show ?thesis by (simp add: bring_up_def Let_def)
qed

subsection \<open>Transports that look the same\<close>

context device_sim
begin

lemma requests:
  assumes "word_of_int (dev_address d) \<in> B"
  shows "request_relation ct tr1 tr2 d (same_session R B)"
  by unfold_locales (use assms in \<open>auto simp: take_recovery_def same_session_def stats_of_def\<close>)

end

end
