(* ===== verification/Interleaving.thy ===== *)
theory Interleaving
  imports Request_Relations
begin

text \<open>
  The keepalive's thread inside a request. A request is several session operations, and the thread
  may wake between any two of them. Here it may wake before every single operation of the transport,
  as often as a schedule says, which is finer than the session's mutex allows; the request is the
  same request, from its first session operation on, over the transport \<open>beside_keepalive\<close>. The keepalive the thread
  works on is the process's own, in the state the request's \<open>begin_request\<close> left it in, and it is the process's again
  after the request. (A wake before that is a wake before the request.) The locale \<open>addressed_transport\<close> is what a bus
  with addresses promises: an operation at one address answers from what is at that address
  and changes nothing at another. Under it the request cannot tell that the thread ran, because its
  first act is to take its device out of the thread's hands.
\<close>

record 'w interleaved =
  il_count :: nat \<comment> \<open>the transport operations so far\<close>
  il_keepalive :: "keepalive option"
  il_transport :: 'w

text \<open>
  One wake of the thread: a tick, on a session with empty books, as no books bear on what a tick
  does (see \<open>tick_ignores_books\<close>).
\<close>

definition feed_once ::
  "contracts \<Rightarrow> 'w transport \<Rightarrow> session_options \<Rightarrow> int \<Rightarrow> 'w interleaved \<Rightarrow> 'w interleaved" where
  "feed_once ct tr opts now x =
     (case il_keepalive x of
        None \<Rightarrow> x
      | Some ka \<Rightarrow>
          let (next, ka', ss) = tick ct tr now ka (new_session (il_transport x) opts)
          in x\<lparr>il_keepalive := Some ka', il_transport := s_transport ss\<rparr>)"

definition feed_between ::
  "contracts \<Rightarrow> 'w transport \<Rightarrow> session_options \<Rightarrow> (nat \<Rightarrow> int list) \<Rightarrow> 'w interleaved \<Rightarrow> 'w interleaved" where
  "feed_between ct tr opts sched x =
     fold (feed_once ct tr opts) (sched (il_count x)) (x\<lparr>il_count := il_count x + 1\<rparr>)"

definition on_transport :: "('w \<Rightarrow> 'r \<times> 'w) \<Rightarrow> 'w interleaved \<Rightarrow> 'r \<times> 'w interleaved" where
  "on_transport fn x = (let (r, w) = fn (il_transport x) in (r, x\<lparr>il_transport := w\<rparr>))"

definition beside_keepalive ::
  "contracts \<Rightarrow> 'w transport \<Rightarrow> session_options \<Rightarrow> (nat \<Rightarrow> int list) \<Rightarrow> 'w interleaved transport" where
  "beside_keepalive ct tr opts sched =
     (let between = feed_between ct tr opts sched in
      \<lparr>tr_open = (\<lambda>o' x. on_transport (tr_open tr o') (between x)),
       tr_close = (\<lambda>x. let y = between x in y\<lparr>il_transport := tr_close tr (il_transport y)\<rparr>),
       tr_is_open = (\<lambda>x. tr_is_open tr (il_transport x)),
       tr_scan = (\<lambda>o' out x. let (st, (out', y)) =
           (let y = between x; (st, out', w) = tr_scan tr o' out (il_transport y)
            in (st, out', y\<lparr>il_transport := w\<rparr>)) in (st, out', y)),
       tr_send = (\<lambda>a f x. on_transport (tr_send tr a f) (between x)),
       tr_read = (\<lambda>a t g x. let y = between x; (st, out, w) = tr_read tr a t g (il_transport y)
          in (st, out, y\<lparr>il_transport := w\<rparr>)),
       tr_delay_us = (\<lambda>n x. let y = between x in y\<lparr>il_transport := tr_delay_us tr n (il_transport y)\<rparr>),
       system_now = (\<lambda>x. system_now tr (il_transport x)),
       steady_now = (\<lambda>x. steady_now tr (il_transport x))\<rparr>)"

lemma beside_keepalive_simps [simp]:
  "tr_is_open (beside_keepalive ct tr opts sched) x = tr_is_open tr (il_transport x)"
  "tr_send (beside_keepalive ct tr opts sched) a f x = on_transport (tr_send tr a f) (feed_between ct tr opts sched x)"
  "tr_read (beside_keepalive ct tr opts sched) a t g x =
     (let y = feed_between ct tr opts sched x; (st, out, w) = tr_read tr a t g (il_transport y)
      in (st, out, y\<lparr>il_transport := w\<rparr>))"
  "tr_delay_us (beside_keepalive ct tr opts sched) n x =
     (let y = feed_between ct tr opts sched x in y\<lparr>il_transport := tr_delay_us tr n (il_transport y)\<rparr>)"
  by (simp_all add: beside_keepalive_def Let_def)

text \<open>The thread leaves the device at an address alone.\<close>

definition spares :: "u8 \<Rightarrow> keepalive \<Rightarrow> bool" where
  "spares a ka \<longleftrightarrow> (\<forall>f \<in> set (ka_fed ka). fed_done f \<or> word_of_int (dev_address (fed_device f)) \<noteq> a)"

lemma tick_spares: "spares a ka \<Longrightarrow> tick ct tr now ka ss = (next, ka', ss') \<Longrightarrow> spares a ka'"
  by (auto simp: tick_spec spares_def split: if_splits) blast+

subsection \<open>What a tick does is not in the books\<close>

interpretation same_io: device_sim tr tr d "(=)" "{}" ct for tr d ct
  by unfold_locales (simp_all add: rel_prod.simps prod.rel_eq)

lemma tick_ignores_books:
  assumes "tick ct tr now ka ss = (next, ka', ss')"
  shows "\<exists>ss1. tick ct tr now ka (new_session (s_transport ss) (s_options ss)) = (next, ka', ss1) \<and>
     s_transport ss1 = s_transport ss'"
proof -
  let ?new = "new_session (s_transport ss) (s_options ss)"
  have "same_session (=) {} ss ?new" by (simp add: same_session_def new_session_def)
  from tick_rel [where ka = ka and now = now, OF same_io.device_relation_axioms this, of ct tr] obtain ss1 where
    "tick ct tr now ka ?new = (next, ka', ss1)" "same_session (=) {} ss' ss1"
    using assms by (auto simp: rel_prod_conv split: prod.splits)
  then show ?thesis using same_sessionD(1) [of "(=)" "{}" ss' ss1] by simp
qed

subsection \<open>A bus with addresses\<close>

locale addressed_transport =
  fixes tr :: "'w transport" and view :: "u8 \<Rightarrow> 'w \<Rightarrow> 'd"
  assumes open_view: "view a v = view a w \<Longrightarrow> tr_is_open tr v = tr_is_open tr w"
    and send_view: "view a v = view a w \<Longrightarrow>
      rel_prod (=) (\<lambda>v w. view a v = view a w) (tr_send tr a f v) (tr_send tr a f w)"
    and read_view: "view a v = view a w \<Longrightarrow>
      rel_prod (=) (rel_prod (=) (\<lambda>v w. view a v = view a w)) (tr_read tr a t g v) (tr_read tr a t g w)"
    and delay_view: "view a (tr_delay_us tr n w) = view a w"
    and send_other: "a \<noteq> b \<Longrightarrow> view b (snd (tr_send tr a f w)) = view b w"
    and read_other: "a \<noteq> b \<Longrightarrow> view b (snd (snd (tr_read tr a t g w))) = view b w"
begin

lemma other_frame: "word_of_int (dev_address d) \<noteq> b \<Longrightarrow> device_frame tr d (\<lambda>w. view b w = x)"
  by unfold_locales (simp_all add: send_other read_other delay_view)

lemma feed_all_other:
  "\<forall>d \<in> set ds. word_of_int (dev_address d) \<noteq> b \<Longrightarrow> view b (s_transport (feed_all ct tr ds ss)) = view b (s_transport ss)"
proof (induction ds arbitrary: ss)
  case (Cons d ds)
  obtain st out ss1 where q: "query_status ct tr d new_watchdog_status ss = (st, out, ss1)" by (metis prod_cases3)
  have "view b (s_transport ss1) = view b (s_transport ss)"
    using device_frame.query_status_keeps [OF other_frame _ q, of b "view b (s_transport ss)"] Cons.prems by simp
  with Cons show ?case by (simp add: feed_all_def q)
qed (simp add: feed_all_def)

lemma feed_once_other:
  assumes "pred_option (spares b) (il_keepalive x)"
  shows "view b (il_transport (feed_once ct tr opts now x)) = view b (il_transport x)"
    "pred_option (spares b) (il_keepalive (feed_once ct tr opts now x))"
proof (atomize (full), cases "il_keepalive x")
  case (Some ka)
  with assms have ka: "spares b ka" by simp
  obtain n ka' ss where t: "tick ct tr now ka (new_session (il_transport x) opts) = (n, ka', ss)"
    by (metis prod_cases3)
  have "\<forall>d \<in> set (due_devices now (ka_fed ka)). word_of_int (dev_address d) \<noteq> b"
    using ka by (auto simp: spares_def due_devices_def)
  from feed_all_other [OF this] t have "view b (s_transport ss) = view b (il_transport x)"
    by (auto simp: tick_spec new_session_def split: if_splits)
  with tick_spares [OF ka t] Some t
  show "view b (il_transport (feed_once ct tr opts now x)) = view b (il_transport x) \<and>
      pred_option (spares b) (il_keepalive (feed_once ct tr opts now x))"
    by (simp add: feed_once_def)
qed (simp add: feed_once_def)

lemma feed_between_other:
  assumes "pred_option (spares b) (il_keepalive x)"
  shows "view b (il_transport (feed_between ct tr opts sched x)) = view b (il_transport x) \<and>
    pred_option (spares b) (il_keepalive (feed_between ct tr opts sched x))"
proof -
  have "view b (il_transport (fold (feed_once ct tr opts) ts y)) = view b (il_transport y) \<and>
      pred_option (spares b) (il_keepalive (fold (feed_once ct tr opts) ts y))" if "pred_option (spares b) (il_keepalive y)" for ts y
    using that by (induction ts arbitrary: y) (simp_all add: feed_once_other)
  from this [of "x\<lparr>il_count := il_count x + 1\<rparr>"] assms show ?thesis by (simp add: feed_between_def)
qed

lemma beside_sim:
  "transport_sim (beside_keepalive ct tr opts sched) tr a
     (\<lambda>x w. view a (il_transport x) = view a w \<and> pred_option (spares a) (il_keepalive x))"
proof
  fix x w f t g n
  let ?y = "feed_between ct tr opts sched x"
  assume "view a (il_transport x) = view a w \<and> pred_option (spares a) (il_keepalive x)"
  then have y: "view a (il_transport ?y) = view a w" "pred_option (spares a) (il_keepalive ?y)"
    and x: "view a (il_transport x) = view a w" using feed_between_other by auto
  from open_view [OF x] show "tr_is_open (beside_keepalive ct tr opts sched) x = tr_is_open tr w" by simp
  from send_view [OF y(1), of f] y(2)
  show "rel_prod (=) (\<lambda>x w. view a (il_transport x) = view a w \<and> pred_option (spares a) (il_keepalive x))
      (tr_send (beside_keepalive ct tr opts sched) a f x) (tr_send tr a f w)"
    by (auto simp: on_transport_def rel_prod_conv split: prod.splits)
  from read_view [OF y(1), of t g] y(2)
  show "rel_prod (=) (rel_prod (=) (\<lambda>x w. view a (il_transport x) = view a w \<and> pred_option (spares a) (il_keepalive x)))
      (tr_read (beside_keepalive ct tr opts sched) a t g x) (tr_read tr a t g w)"
    by (auto simp: rel_prod_conv Let_def split: prod.splits)
  from y show "view a (il_transport (tr_delay_us (beside_keepalive ct tr opts sched) n x)) = view a (tr_delay_us tr n w) \<and>
      pred_option (spares a) (il_keepalive (tr_delay_us (beside_keepalive ct tr opts sched) n x))"
    by (simp add: Let_def delay_view)
qed

end

subsection \<open>Whole requests\<close>

text \<open>
  The process with its thread let into the transport: the thread has the process's keepalive. Afterwards the process has what
  the thread and the request left.
\<close>

definition beside_globals :: "('q, 'w) globals \<Rightarrow> ('q, 'w interleaved) globals" where
  "beside_globals g =
     \<lparr>g_state = g_state g,
      g_session = map_option (\<lambda>ss.
        \<lparr>s_transport = \<lparr>il_count = 0, il_keepalive = g_keepalive g, il_transport = s_transport ss\<rparr>,
         s_options = s_options ss, s_stats = s_stats ss, s_last_op_failed = s_last_op_failed ss,
         s_recovery_pending = s_recovery_pending ss\<rparr>) (g_session g),
      g_keepalive = g_keepalive g, g_feeder = g_feeder g\<rparr>"

definition after_thread :: "('q, 'w interleaved) globals \<Rightarrow> ('q, 'w) globals" where
  "after_thread h =
     \<lparr>g_state = g_state h,
      g_session = map_option (\<lambda>ss.
        \<lparr>s_transport = il_transport (s_transport ss),
         s_options = s_options ss, s_stats = s_stats ss, s_last_op_failed = s_last_op_failed ss,
         s_recovery_pending = s_recovery_pending ss\<rparr>) (g_session h),
      g_keepalive = (case g_session h of None \<Rightarrow> g_keepalive h | Some ss \<Rightarrow> il_keepalive (s_transport ss)),
      g_feeder = g_feeder h\<rparr>"

text \<open>A call and a read with the thread beside them: the request's own beginning, then the rest with the thread let in.\<close>

definition call_beside ::
  "contracts \<Rightarrow> 'w transport \<Rightarrow> session_options \<Rightarrow> (nat \<Rightarrow> int list) \<Rightarrow> string \<Rightarrow> u32 \<Rightarrow> value_map \<Rightarrow> ('q, 'w) globals \<Rightarrow>
   adapter_call_result \<times> ('q, 'w) globals" where
  "call_beside ct tr opts sched i fid args g =
     (case begin_request i g of
        None \<Rightarrow> (call_error CODE_NOT_FOUND ''unknown device_id'', g)
      | Some (d, g1) \<Rightarrow> apsnd after_thread
          (finish_call ct (beside_keepalive ct tr opts sched) (rs_config (snapshot g)) d fid args (beside_globals g1)))"

definition read_beside ::
  "contracts \<Rightarrow> 'w transport \<Rightarrow> session_options \<Rightarrow> (nat \<Rightarrow> int list) \<Rightarrow> string \<Rightarrow> string list \<Rightarrow> ('q, 'w) globals \<Rightarrow>
   adapter_read_result \<times> ('q, 'w) globals" where
  "read_beside ct tr opts sched i ids g =
     (case begin_request i g of
        None \<Rightarrow> (read_error CODE_NOT_FOUND ''unknown device_id'', g)
      | Some (d, g1) \<Rightarrow> apsnd after_thread
          (finish_read ct (beside_keepalive ct tr opts sched) (rs_config (snapshot g)) d ids (beside_globals g1)))"

text \<open>
  Two processes that agree on the published state, on the device at an address and on the session's books for it; the
  first one's thread leaves the address alone.
\<close>

definition same_outcome :: "(u8 \<Rightarrow> 'w \<Rightarrow> 'd) \<Rightarrow> u8 \<Rightarrow> ('q, 'w) globals \<Rightarrow> ('q, 'w) globals \<Rightarrow> bool" where
  "same_outcome view a g h \<longleftrightarrow>
     g_state g = g_state h \<and>
     rel_option (same_session (\<lambda>v w. view a v = view a w) {a}) (g_session g) (g_session h) \<and>
     (g_session g \<noteq> None \<longrightarrow> pred_option (spares a) (g_keepalive g))"

context addressed_transport
begin

lemma beside_globals_start:
  assumes "pred_option (spares a) (g_keepalive g)"
  shows "same_globals (same_session (\<lambda>x w. view a (il_transport x) = view a w \<and> pred_option (spares a) (il_keepalive x)) {a})
    (beside_globals g) g"
  using assms by (cases "g_session g") (simp_all add: beside_globals_def same_globals_def same_session_def stats_of_def)

lemma after_thread_outcome:
  assumes "same_globals (same_session (\<lambda>x w. view a (il_transport x) = view a w \<and> pred_option (spares a) (il_keepalive x)) {a}) h g"
  shows "same_outcome view a (after_thread h) g"
  using assms by (cases "g_session h"; cases "g_session g")
    (simp_all add: after_thread_def same_globals_def same_outcome_def same_session_def stats_of_def)

lemma requests_undisturbed:
  assumes "find_device (rs_devices (g_state g)) i = Some d"
    and "pred_option (spares (device_byte d)) (g_keepalive (note_contact i g))"
  shows "rel_prod (=) (same_outcome view (device_byte d)) (call_beside ct tr opts sched i fid args g) (runtime_call ct tr i fid args g)"
    and "rel_prod (=) (same_outcome view (device_byte d)) (read_beside ct tr opts sched i ids g) (runtime_read ct tr i ids g)"
proof -
  let ?R = "\<lambda>x w. view (device_byte d) (il_transport x) = view (device_byte d) w \<and> pred_option (spares (device_byte d)) (il_keepalive x)"
  have sim: "device_sim (beside_keepalive ct tr opts sched) tr d ?R"
    using beside_sim by (simp add: device_sim_def)
  have requests: "request_relation ct (beside_keepalive ct tr opts sched) tr d (same_session ?R {device_byte d})"
    by (rule device_sim.requests [OF sim]) simp
  have start: "begin_request i g = Some (d, note_contact i g)" using assms(1) by (simp add: begin_request_def snapshot_def)
  note g = beside_globals_start [OF assms(2)]
  from request_relation.finish_call_rel [OF requests g, of "rs_config (snapshot g)" fid args]
  show "rel_prod (=) (same_outcome view (device_byte d)) (call_beside ct tr opts sched i fid args g) (runtime_call ct tr i fid args g)"
    by (auto simp: call_beside_def runtime_call_def start rel_prod_conv intro: after_thread_outcome split: prod.splits)
  from request_relation.finish_read_rel [OF requests g, of "rs_config (snapshot g)" ids]
  show "rel_prod (=) (same_outcome view (device_byte d)) (read_beside ct tr opts sched i ids g) (runtime_read ct tr i ids g)"
    by (auto simp: read_beside_def runtime_read_def start rel_prod_conv intro: after_thread_outcome split: prod.splits)
qed

end

subsection \<open>The bus of the provider\<close>

text \<open>
  What is asked of the I2C bus under the transport, with \<open>seen a\<close> what the device at address \<open>a\<close> is
  and whether the bus is open: an exchange with one address depends on that and leaves the other addresses alone.
\<close>

locale addressed_bus =
  fixes bus :: "'b i2c_bus" and seen :: "u8 \<Rightarrow> 'b \<Rightarrow> 'd"
  assumes write_seen: "seen a v = seen a w \<Longrightarrow>
      rel_prod (=) (\<lambda>v w. seen a v = seen a w) (bus_write bus a bs v) (bus_write bus a bs w)"
    and read_seen: "seen a v = seen a w \<Longrightarrow>
      rel_prod (=) (rel_prod (=) (\<lambda>v w. seen a v = seen a w)) (bus_read bus a n t v) (bus_read bus a n t w)"
    and delay_seen: "seen a (bus_delay_us bus u w) = seen a w"
    and write_apart: "a \<noteq> b \<Longrightarrow> seen b (snd (bus_write bus a bs w)) = seen b w"
    and read_apart: "a \<noteq> b \<Longrightarrow> seen b (snd (snd (bus_read bus a n t w))) = seen b w"

definition wire_view :: "(u8 \<Rightarrow> 'b \<Rightarrow> 'd) \<Rightarrow> u8 \<Rightarrow> 'b crumbs_transport \<Rightarrow> bool \<times> 'd option" where
  "wire_view seen a t = (ct_open t, map_option (seen a) (ct_bus t))"

sublocale addressed_bus \<subseteq> addressed_transport "crumbs_over_i2c ct bus scan" "wire_view seen" for ct scan
proof
  fix a b :: u8 and v w :: "'b crumbs_transport" and f g :: raw_frame and t n :: u32
  let ?tr = "crumbs_over_i2c ct bus scan" and ?v = "wire_view seen"
  show "?v a v = ?v a w \<Longrightarrow> tr_is_open ?tr v = tr_is_open ?tr w" by (simp add: wire_view_def)
  show "rel_prod (=) (\<lambda>v w. ?v a v = ?v a w) (tr_send ?tr a f v) (tr_send ?tr a f w)" if "?v a v = ?v a w"
    using that write_seen [of a "the (ct_bus v)" "the (ct_bus w)" "crumbs_encode_message ct (populate_message f)"]
    by (auto simp: wire_view_def transport_send_def Let_def rel_prod_conv split: option.splits prod.splits)
  show "rel_prod (=) (rel_prod (=) (\<lambda>v w. ?v a v = ?v a w)) (tr_read ?tr a t g v) (tr_read ?tr a t g w)"
    if "?v a v = ?v a w"
    using that read_seen [of a "the (ct_bus v)" "the (ct_bus w)" "num_of ct CRUMBS_MESSAGE_MAX_SIZE" t]
    by (auto simp: wire_view_def transport_read_def Let_def rel_prod_conv split: option.splits prod.splits)
  show "?v a (tr_delay_us ?tr n w) = ?v a w"
    by (cases "ct_bus w") (simp_all add: wire_view_def transport_delay_us_def delay_seen)
  show "?v b (snd (tr_send ?tr a f w)) = ?v b w" if "a \<noteq> b"
    using write_apart [OF that, of "crumbs_encode_message ct (populate_message f)" "the (ct_bus w)"]
    by (auto simp: wire_view_def transport_send_def Let_def split: option.splits prod.splits)
  show "?v b (snd (snd (tr_read ?tr a t g w))) = ?v b w" if "a \<noteq> b"
    using read_apart [OF that, of "num_of ct CRUMBS_MESSAGE_MAX_SIZE" t "the (ct_bus w)"]
    by (auto simp: wire_view_def transport_read_def Let_def split: option.splits prod.splits)
qed

context addressed_bus
begin

lemma provider_undisturbed:
  assumes "find_device (rs_devices (g_state g)) i = Some d"
    and "pred_option (spares (device_byte d)) (g_keepalive (note_contact i g))"
  shows "rel_prod (=) (same_outcome (wire_view seen) (device_byte d))
      (call_beside ct (crumbs_over_i2c ct bus scan) opts sched i fid args g)
      (runtime_call ct (crumbs_over_i2c ct bus scan) i fid args g)"
    and "rel_prod (=) (same_outcome (wire_view seen) (device_byte d))
      (read_beside ct (crumbs_over_i2c ct bus scan) opts sched i ids g)
      (runtime_read ct (crumbs_over_i2c ct bus scan) i ids g)"
  by (rule requests_undisturbed [OF assms])+

end

definition canned_seen :: "u8 \<Rightarrow> canned_bus \<Rightarrow> bool \<times> device_state option" where
  "canned_seen a cb = (cb_opened cb, cb_devices cb a)"

interpretation canned_addr: addressed_bus "canned_i2c ct sys steady" canned_seen for ct sys steady
proof
  fix a b :: u8 and v w :: canned_bus and bs n t u
  let ?bus = "canned_i2c ct sys steady"
  show "rel_prod (=) (\<lambda>v w. canned_seen a v = canned_seen a w) (bus_write ?bus a bs v) (bus_write ?bus a bs w)"
    if "canned_seen a v = canned_seen a w"
    using that by (auto simp: canned_seen_def canned_write_def apply_write_def put_device_def split: sum.splits option.splits)
  show "rel_prod (=) (rel_prod (=) (\<lambda>v w. canned_seen a v = canned_seen a w)) (bus_read ?bus a n t v) (bus_read ?bus a n t w)"
    if "canned_seen a v = canned_seen a w"
    using that by (auto simp: canned_seen_def canned_read_def emit_reply_def put_device_def Let_def
        split: sum.splits option.splits prod.splits)
  show "canned_seen a (bus_delay_us ?bus u w) = canned_seen a w" by simp
  show "canned_seen b (snd (bus_write ?bus a bs w)) = canned_seen b w" if "a \<noteq> b"
    using that by (auto simp: canned_seen_def canned_write_def apply_write_def put_device_def split: sum.splits option.splits)
  show "canned_seen b (snd (snd (bus_read ?bus a n t w))) = canned_seen b w" if "a \<noteq> b"
    using that by (auto simp: canned_seen_def canned_read_def emit_reply_def put_device_def Let_def
        split: sum.splits option.splits prod.splits)
qed

text \<open>Once a request has begun, the thread leaves its device alone.\<close>

lemma note_contact_spares:
  assumes "runtime_inv ct g" "distinct (map device_byte (rs_devices (g_state g)))"
    and "find_device (rs_devices (g_state g)) i = Some d"
  shows "pred_option (spares (device_byte d)) (g_keepalive (note_contact i g))"
proof -
  let ?ds = "rs_devices (g_state g)"
  have d: "d \<in> set ?ds" "device_id_of d = i" using find_device_Some [OF assms(3)] by simp_all
  obtain ss ka where ready: "rs_ready (g_state g)" and ka: "g_keepalive g = Some ka" by (rule runtime_inv_served [OF assms(1) d(1)])
  with assms(1) have "map fed_device (ka_fed ka) = filter (armable ct) ?ds" by (auto simp: runtime_inv_def Let_def)
  then have "fed_device ` set (ka_fed ka) \<subseteq> set ?ds" by (metis filter_is_subset image_set)
  then have "fed_device f = d \<or> device_byte (fed_device f) \<noteq> device_byte d" if "f \<in> set (ka_fed ka)" for f
    using that assms(2) d(1) by (auto simp: distinct_map dest: inj_onD)
  then show ?thesis using ka d(2) by (auto simp: note_contact_def spares_def contacted_def contact_fed_def)
qed

text \<open>
  C3: the keepalive's thread never disturbs a request. Whenever it wakes inside a call or a read, and
  however often, even between the write and the read of one query, the request on a device of the
  provider returns the same result and leaves the same state published, the same books for that device
  (recovery flag and counters) and the same device on the bus as without the thread, and the device stays out of
  the thread's feeding. The thread works on the process's own keepalive; that it leaves the device alone is the doing of the
  request, which begins by telling the keepalive of the contact. It holds for any
  bus on which an exchange with one address leaves the other addresses alone.
\<close>

theorem keepalive_never_disturbs_requests:
  assumes "addressed_bus bus seen" "runtime_inv ct g"
    and "distinct (map device_byte (rs_devices (g_state g)))" "find_device (rs_devices (g_state g)) i = Some d"
  shows "let tr = crumbs_over_i2c ct bus scan; same = same_outcome (wire_view seen) (device_byte d) in
    rel_prod (=) same (call_beside ct tr opts sched i fid args g) (runtime_call ct tr i fid args g) \<and>
    rel_prod (=) same (read_beside ct tr opts sched i ids g) (runtime_read ct tr i ids g)"
proof -
  note undisturbed = addressed_bus.provider_undisturbed [OF assms(1,4) note_contact_spares [OF assms(2-4)]]
  show ?thesis unfolding Let_def by (intro conjI undisturbed)
qed

theorem keepalive_never_disturbs_requests_witness:
  "\<exists>d. find_device (rs_devices (g_state bench_start)) ''heat'' = Some d \<and> g_keepalive bench_start \<noteq> None \<and>
     (let tr = platform_transport sample_contracts sample_platform;
          opts = \<lparr>opt_bus_path = ''mock://bench'', opt_query_delay_us = 10000, opt_timeout_ms = 100, opt_retry_count = 2\<rparr>;
          sched = \<lambda>n. [100 * int n];
          same = same_outcome (wire_view canned_seen) (device_byte d) in
      rel_prod (=) same (call_beside sample_contracts tr opts sched ''heat'' 7 Map.empty bench_start)
        (runtime_call sample_contracts tr ''heat'' 7 Map.empty bench_start) \<and>
      rel_prod (=) same (read_beside sample_contracts tr opts sched ''heat'' [] bench_start)
        (runtime_read sample_contracts tr ''heat'' [] bench_start))"
proof -
  let ?d = "bench_device (sample_spec ''heat'' Rlht 10)"
  have bus: "addressed_bus (pf_bus sample_platform) canned_seen"
    by (simp add: sample_platform_def canned_addr.addressed_bus_axioms)
  note find = bench_find(1)
  then have "?d \<in> set (rs_devices (g_state bench_start))" by (simp add: find_device_Some)
  then obtain ss ka where ka: "g_keepalive bench_start = Some ka" by (rule runtime_inv_served [OF initialize_inv])
  show ?thesis
    using ka find keepalive_never_disturbs_requests [OF bus initialize_inv bench_devices(2) find, of
      _ "\<lparr>opt_bus_path = ''mock://bench'', opt_query_delay_us = 10000, opt_timeout_ms = 100, opt_retry_count = 2\<rparr>" "\<lambda>n. [100 * int n]"]
    unfolding Let_def by (intro exI [of _ ?d]) simp
qed

end
