(* ===== verification/Board_Steps.thy ===== *)
theory Board_Steps
  imports Request_Effects
begin

text \<open>
  What one activity of the provider does to the simulated boards: a call on a board in good order takes effect exactly when
  it is accepted, and reads, health requests and wakes of the keepalive's thread change no control of any board.
  Every activity keeps all of the boards in good order and the boards it is not about as they are.
\<close>

subsection \<open>Requests on a board in good order\<close>

definition serving ::
  "contracts \<Rightarrow> ('q, canned_bus crumbs_transport) globals \<Rightarrow> string \<Rightarrow> inventory_device \<Rightarrow> device_state \<Rightarrow> bool" where
  "serving ct g i d x \<longleftrightarrow>
     find_device (rs_devices (g_state g)) i = Some d \<and> set_confirmation ct d \<noteq> Unconfirmed \<and>
     (\<exists>ss. g_session g = Some ss \<and> in_good_order ct d ss \<and> has_device ss (device_byte d) x)"

lemma servingE:
  assumes "serving ct g i d x"
  obtains ss where "find_device (rs_devices (g_state g)) i = Some d" "set_confirmation ct d \<noteq> Unconfirmed"
    "g_session g = Some ss" "in_good_order ct d ss" "has_device ss (device_byte d) x" "fresh ct d x"
proof -
  from assms obtain ss where ss: "g_session g = Some ss" "in_good_order ct d ss" "has_device ss (device_byte d) x"
    by (auto simp: serving_def)
  from ss(2) have "holds_device (device_byte d) (fresh ct d) (s_transport ss)" by (simp add: in_good_order_def)
  with ss(3) have "fresh ct d x" by (auto simp: has_device_iff holds_device_def)
  with that ss assms show ?thesis by (auto simp: serving_def)
qed

lemma handle_recovery_unflagged:
  "g_session g = Some ss \<Longrightarrow> \<not> flagged (device_byte d) ss \<Longrightarrow> handle_recovery ct tr d c g = g"
  by (simp add: handle_recovery_def take_recovery_def flagged_def)

text \<open>The brake check of a simulated DCMT holds nothing back: its brakes are never engaged.\<close>

lemma canned_dcmt_brakes:
  "parsers_ok ct \<Longrightarrow> dcmt_parse_state ct (build_dcmt_state_payload ct x) = Some s \<Longrightarrow> dc_brakes s = 0"
proof -
  assume p: "parsers_ok ct" and s: "dcmt_parse_state ct (build_dcmt_state_payload ct x) = Some s"
  have "\<exists>raw. dcmt_parse_state_payload ct (build_dcmt_state_payload ct x) = Some raw \<and> dr_brakes raw = 0"
    unfolding build_dcmt_state_payload_def Let_def using p [unfolded parsers_ok_def] by simp
  with s show "dc_brakes s = 0" by (auto simp: dcmt_parse_state_def Let_def split: if_splits)
qed

lemma canned_brake_check:
  assumes "codec_ok ct" "parsers_ok ct" "labels_distinct ct" "dev_type d = Dcmt"
    and "has_device ss (device_byte d) x" "fresh ct d x"
  shows "\<exists>ss' y. brake_check ct (canned_transport ct sys steady scan) d f ss = (None, ss') \<and>
     has_device ss' (device_byte d) y \<and> fresh ct d y \<and> same_outputs y x"
proof -
  let ?p = "byte_of ct DCMT_OP_GET_STATE"
  have "d_type_id x = byte_of ct DCMT_TYPE_ID" using assms(4,6) by (simp add: calm_def)
  then have reply: "reply_payload ct (staged ?p x) = (Inr (build_dcmt_state_payload ct (staged ?p x)), staged ?p x)"
    using labels_distinctD(1) [OF assms(3)] by (simp add: reply_payload_def Let_def) (simp add: staged_def)
  obtain ss' where q: "query_read (canned_transport ct sys steady scan) (device_byte d) ?p empty_frame ss =
      (ok_once, \<lparr>fr_type_id = d_type_id x, fr_opcode = ?p, fr_payload = build_dcmt_state_payload ct (staged ?p x)\<rparr>, ss')"
    "has_device ss' (device_byte d) (staged ?p x)"
    using canned_session_query [OF assms(1,5) reply, of sys steady scan empty_frame] by blast
  have "brake_check ct (canned_transport ct sys steady scan) d f ss \<in> {(None, ss), (None, ss')}"
    using q(1) canned_dcmt_brakes [OF assms(2)]
    by (auto simp: brake_check_def braked_motor_def split: option.splits)
  moreover have "fresh ct d (staged ?p x)" using assms(6) by (simp add: calm_def)
  moreover have "same_outputs (staged ?p x) x" by simp
  ultimately show ?thesis using assms(5,6) q(2) same_outputs_refl by blast
qed

text \<open>Whether the transmission of a frame is refused by the adapter itself.\<close>

definition withheld :: "contracts \<Rightarrow> inventory_device \<Rightarrow> raw_frame \<Rightarrow> bool" where
  "withheld ct d f \<longleftrightarrow> dev_type d = Dcmt \<and> needs_encoders ct d f"

lemma canned_transmit:
  assumes ok: "codec_ok ct" "ack_ok ct" "opcodes_ok ct" "labels_distinct ct" "parsers_ok ct"
    and d: "set_confirmation ct d \<noteq> Unconfirmed" "has_device ss (device_byte d) x" "fresh ct d x"
    and f: "fr_opcode f \<noteq> kSetReplyOpcode" "length (fr_payload f) \<le> 27"
  shows "\<exists>r ss' y. ad_transmit (adapter_for ct (canned_transport ct sys steady scan) (dev_type d)) d f ss = (r, ss') \<and>
     has_device ss' (device_byte d) y \<and> (cr_ok r \<longleftrightarrow> \<not> withheld ct d f) \<and>
     same_outputs y (if cr_ok r then apply_set ct (populate_message f) x else x)"
proof (cases "dev_type d")
  case Rlht
  have "answers ct x" "applies ct (d_next_outcomes x) 0" using d(3) by (simp_all add: calm_def applies_def)
  from canned_transmit_step [OF ok(1-3) d(1,2) this(1) f, of sys steady scan "''RLHT SET command''"] this(2)
  obtain r ss' y where "transmit_confirmed ct (canned_transport ct sys steady scan) d f ''RLHT SET command'' ss = (r, ss')"
    "has_device ss' (device_byte d) y" "cr_ok r" "same_outputs y (apply_set ct (populate_message f) x)" by auto
  with Rlht show ?thesis by (auto simp: withheld_def rlht_transmit_def)
next
  case Dcmt
  obtain ss1 x1 where b: "brake_check ct (canned_transport ct sys steady scan) d f ss = (None, ss1)"
    "has_device ss1 (device_byte d) x1" "fresh ct d x1" "same_outputs x1 x"
    using canned_brake_check [OF ok(1,5,4) Dcmt d(2,3), of sys steady scan f] by blast
  have "answers ct x1" "applies ct (d_next_outcomes x1) 0" using b(3) by (simp_all add: calm_def applies_def)
  from canned_transmit_step [OF ok(1-3) d(1) b(2) this(1) f, of sys steady scan "''DCMT SET command''"] this(2)
  obtain r ss' y where t: "transmit_confirmed ct (canned_transport ct sys steady scan) d f ''DCMT SET command'' ss1 = (r, ss')"
    "has_device ss' (device_byte d) y" "cr_ok r" "same_outputs y (apply_set ct (populate_message f) x1)" by auto
  have "same_outputs y (apply_set ct (populate_message f) x)"
    using t(4) same_outputs_apply_set [OF b(4)] by (rule same_outputs_trans)
  with Dcmt b t show ?thesis by (auto simp: withheld_def dcmt_transmit_def)
qed

lemma board_call:
  assumes ok: "codec_ok ct" "ack_ok ct" "opcodes_ok ct" "labels_distinct ct" "parsers_ok ct" "pid_pack_fits ct"
    and g: "serving ct g i d x" "function_exists d fid []"
    and b: "ad_build_frame (adapter_for ct (canned_transport ct sys steady scan) (dev_type d)) fid args = (b, f)"
  shows "\<exists>r g' y. runtime_call ct (canned_transport ct sys steady scan) i fid args g = (r, g') \<and> serving ct g' i d y \<and>
     (cr_ok r \<longleftrightarrow> cr_ok b \<and> \<not> withheld ct d f) \<and>
     same_outputs y (if cr_ok r then apply_set ct (populate_message f) x else x)"
proof -
  let ?tr = "canned_transport ct sys steady scan"
  obtain ss where ss: "find_device (rs_devices (g_state g)) i = Some d" "set_confirmation ct d \<noteq> Unconfirmed"
    "g_session g = Some ss" "in_good_order ct d ss" "has_device ss (device_byte d) x" "fresh ct d x"
    by (rule servingE [OF g(1)])
  show ?thesis
  proof (cases "cr_ok b")
    case False
    then have "call (adapter_for ct ?tr (dev_type d)) (Some ss) d fid args = (b, Some ss)" by (simp add: call_def b)
    with ss g(2) False show ?thesis
      by (auto simp: runtime_call_defs snapshot_def serving_def Let_def intro!: exI [of _ x])
  next
    case True
    have f: "fr_opcode f \<noteq> kSetReplyOpcode" "length (fr_payload f) \<le> 27"
      using rlht_ad.built_command [OF ok(3), where fid = fid and args = args and r = b and f = f]
        rlht_ad.built_fits [OF ok(6), where fid = fid and args = args and r = b and f = f]
        dcmt_ad.built_command [OF ok(3), where fid = fid and args = args and r = b and f = f]
        dcmt_ad.built_fits [OF ok(6), where fid = fid and args = args and r = b and f = f]
        b True by (cases "dev_type d"; simp)+
    obtain r ss' y where t: "ad_transmit (adapter_for ct ?tr (dev_type d)) d f ss = (r, ss')"
      "has_device ss' (device_byte d) y" "cr_ok r \<longleftrightarrow> \<not> withheld ct d f"
      "same_outputs y (if cr_ok r then apply_set ct (populate_message f) x else x)"
      using canned_transmit [OF ok(1-5) ss(2,5,6) f, of sys steady scan] by blast
    have c: "call (adapter_for ct ?tr (dev_type d)) (Some ss) d fid args = (r, Some ss')"
      using True by (simp add: call_def b t(1))
    from session_invariant.call_keeps_inv [OF good_order_invariant [OF ok(1)] ss(4) c] have good: "in_good_order ct d ss'"
      by simp
    let ?g = "(note_contact i g)\<lparr>g_session := Some ss'\<rparr>"
    have "handle_recovery ct ?tr d (rs_config (g_state g)) ?g = ?g"
      using good by (intro handle_recovery_unflagged [where ss = ss']) (simp_all add: in_good_order_def)
    then have "runtime_call ct ?tr i fid args g = (r, ?g)"
      using ss(1,3) g(2) c by (simp add: runtime_call_defs snapshot_def Let_def)
    moreover have "serving ct ?g i d y" using ss(1,2) good t(2) by (simp add: serving_def)
    ultimately show ?thesis using t(3,4) True by blast
  qed
qed

subsection \<open>Steps at one board\<close>

text \<open>
  A step of the session that is about one board: it keeps that board in good order, raises no flag at another
  address and changes no other board. It is quiet when it changes nothing of its own board but the watchdog's time.
\<close>

definition same_controls :: "device_state \<Rightarrow> device_state \<Rightarrow> bool" where
  "same_controls x y \<longleftrightarrow> same_outputs (x\<lparr>d_watchdog_timeout_ms := 0\<rparr>) (y\<lparr>d_watchdog_timeout_ms := 0\<rparr>)"

lemma same_controls_simps [simp]:
  "same_controls x x" "same_controls (staged p x) y = same_controls x y"
  "same_controls x (y\<lparr>d_watchdog_timeout_ms := t\<rparr>) = same_controls x y"
  by (simp_all add: same_controls_def same_outputs_def staged_def)

lemma same_controls_trans: "same_controls x y \<Longrightarrow> same_controls y z \<Longrightarrow> same_controls x z"
  by (simp add: same_controls_def same_outputs_def)

lemma same_outputs_controls: "same_outputs x y \<Longrightarrow> same_controls x y"
  by (simp add: same_controls_def same_outputs_def)

definition board_step ::
  "contracts \<Rightarrow> inventory_device \<Rightarrow> canned_bus crumbs_transport session \<Rightarrow> canned_bus crumbs_transport session \<Rightarrow> bool" where
  "board_step ct e ss ss' \<longleftrightarrow> (in_good_order ct e ss \<longrightarrow> in_good_order ct e ss') \<and>
     (\<forall>b. device_byte e \<noteq> b \<longrightarrow> (\<not> flagged b ss \<longrightarrow> \<not> flagged b ss') \<and>
        (\<forall>Q. holds_device b Q (s_transport ss) \<longrightarrow> holds_device b Q (s_transport ss')))"

definition quiet_step ::
  "contracts \<Rightarrow> inventory_device \<Rightarrow> canned_bus crumbs_transport session \<Rightarrow> canned_bus crumbs_transport session \<Rightarrow> bool" where
  "quiet_step ct e ss ss' \<longleftrightarrow> board_step ct e ss ss' \<and>
     (\<forall>x. in_good_order ct e ss \<longrightarrow> has_device ss (device_byte e) x \<longrightarrow>
        (\<exists>y. has_device ss' (device_byte e) y \<and> same_controls y x))"

lemma quiet_step_refl [simp]: "quiet_step ct e ss ss"
  by (auto simp: quiet_step_def board_step_def)

lemma quiet_step_trans: "quiet_step ct e s t \<Longrightarrow> quiet_step ct e t u \<Longrightarrow> quiet_step ct e s u"
  unfolding quiet_step_def board_step_def by (meson same_controls_trans)

lemma good_order_fresh: "in_good_order ct e ss \<Longrightarrow> has_device ss (device_byte e) x \<Longrightarrow> fresh ct e x"
  by (auto simp: in_good_order_def has_device_iff holds_device_def)

lemma has_device_rejection [simp]: "has_device (record_rejection b ss) a x = has_device ss a x"
  by (simp add: has_device_iff)

lemma call_board_step:
  assumes "codec_ok ct"
    and c: "call (adapter_for ct (canned_transport ct sys steady scan) (dev_type e)) (Some ss) e fid args = (r, session)"
  shows "\<exists>ss'. session = Some ss' \<and> board_step ct e ss ss'"
proof -
  obtain ss' where ss': "session = Some ss'" using other_flags.call_keeps_inv [OF _ c, of "device_byte e"] by auto
  with session_invariant.call_keeps_inv [OF good_order_invariant [OF assms(1)] _ c] other_flags.call_keeps_inv [OF _ c]
    others.call_keeps [OF _ c] show ?thesis by (auto simp: board_step_def)
qed

lemma read_board_step:
  assumes "codec_ok ct" "ad_read_signals (adapter_for ct (canned_transport ct sys steady scan) (dev_type e)) e ids ss = (r, ss')"
  shows "board_step ct e ss ss'"
  using session_invariant.read_signals_keeps_inv [OF good_order_invariant [OF assms(1)] _ assms(2)]
    other_flags.read_signals_keeps_inv [OF _ assms(2)] others.read_signals_keeps [OF _ assms(2)]
  by (auto simp: board_step_def)

lemma query_board_step:
  assumes "codec_ok ct" "query_status ct (canned_transport ct sys steady scan) e out ss = (st, status, ss')"
  shows "board_step ct e ss ss'"
  using session_invariant.query_status_keeps_inv [OF good_order_invariant [OF assms(1)] _ assms(2)]
    other_flags.query_status_keeps_inv [OF _ assms(2)] others.query_status_keeps [OF _ assms(2)]
  by (auto simp: board_step_def)

lemma rearm_board_step:
  assumes "codec_ok ct"
  shows "board_step ct e ss (snd (rearm_if_rebooted ct (canned_transport ct sys steady scan) e status ss))"
  using session_invariant.rearm_keeps_inv [OF good_order_invariant [OF assms], of e ss sys steady scan status]
    other_flags.rearm_keeps_inv [where ss = ss] others.rearm_keeps [where ss = ss and sys = sys and steady = steady and scan = scan]
  by (auto simp: board_step_def)

lemma query_quiet:
  assumes "codec_ok ct" "opcodes_ok ct" "parsers_ok ct"
    and q: "query_status ct (canned_transport ct sys steady scan) e out ss = (st, status, ss')"
  shows "quiet_step ct e ss ss'"
proof -
  have "has_device ss' (device_byte e) (staged (byte_of ct BREAD_OP_GET_WATCHDOG) x)" if "has_device ss (device_byte e) x" for x
    using canned_query_status [OF assms(1-3) that, of sys steady scan out] q by auto
  with query_board_step [OF assms(1) q] show ?thesis by (auto simp: quiet_step_def intro!: exI)
qed

lemma rearm_quiet:
  assumes "codec_ok ct" "opcodes_ok ct"
  shows "quiet_step ct e ss (snd (rearm_if_rebooted ct (canned_transport ct sys steady scan) e status ss))"
proof (cases "armable ct e")
  case True
  have "\<exists>y. has_device (arm_if_configured ct (canned_transport ct sys steady scan) e ss) (device_byte e) y \<and> same_controls y x"
    if "in_good_order ct e ss" "has_device ss (device_byte e) x" for x
  proof -
    have "d_drop_count x = 0" "next_outcome ct x = (byte_of ct CRUMBS_ACK_APPLIED, 0)"
      using good_order_fresh [OF that] by (simp_all add: calm_def answers_def next_outcome_def)
    from canned_arm [OF assms that(2) True this, of sys steady scan] show ?thesis
      by (auto dest!: same_outputs_controls)
  qed
  with rearm_board_step [OF assms(1), of e ss sys steady scan status] show ?thesis
    by (auto simp: quiet_step_def rearm_if_rebooted_def)
next
  case False
  then show ?thesis by (auto simp: rearm_if_rebooted_def)
qed

lemma health_quiet:
  assumes "codec_ok ct" "opcodes_ok ct" "parsers_ok ct"
    and "session_health ct (canned_transport ct sys steady scan) e extra ss = (extra', ss')"
  shows "quiet_step ct e ss ss'"
proof -
  obtain st status ss1 where q: "query_status ct (canned_transport ct sys steady scan) e new_watchdog_status ss = (st, status, ss1)"
    by (metis prod_cases3)
  note quiet = query_quiet [OF assms(1-3) q]
  from quiet quiet_step_trans [OF quiet rearm_quiet [OF assms(1,2)]] assms(4)
  show ?thesis by (auto simp: session_health_def q Let_def split: if_splits)
qed

lemma read_quiet:
  assumes "codec_ok ct" "labels_distinct ct"
    and r: "ad_read_signals (adapter_for ct (canned_transport ct sys steady scan) (dev_type e)) e ids ss = (r, ss')"
  shows "quiet_step ct e ss ss'"
proof -
  let ?p = "byte_of ct (state_query (dev_type e))" and ?a = "device_byte e" and ?tr = "canned_transport ct sys steady scan"
  have "\<exists>y. has_device ss' ?a y \<and> same_controls y x" if "in_good_order ct e ss" "has_device ss ?a x" for x
  proof -
    have "d_type_id x = bread_type_id ct (dev_type e)" using good_order_fresh [OF that] by (simp add: calm_def)
    then obtain payload where "reply_payload ct (staged ?p x) = (Inr payload, staged ?p x)"
      using labels_distinctD(1) [OF assms(2)]
      by (cases "dev_type e") (auto simp: reply_payload_def Let_def staged_def)
    from canned_session_query [OF assms(1) that(2) this, of sys steady scan empty_frame] obtain st g ss1 where
      q: "query_read ?tr ?a ?p empty_frame ss = (st, g, ss1)" "has_device ss1 ?a (staged ?p x)" by blast
    from r q(1) have "ss' = ss1 \<or> ss' = record_rejection ?a ss1"
      by (cases "dev_type e") (auto simp: rlht_read_signals_def dcmt_read_signals_def Let_def split: if_splits option.splits)
    with q(2) show ?thesis by (auto intro!: exI [of _ "staged ?p x"])
  qed
  with read_board_step [OF assms(1) r] show ?thesis by (auto simp: quiet_step_def)
qed

subsection \<open>Activities and all the boards\<close>

text \<open>The provider serves: every board is placed and in good order, and the keepalive feeds only boards that are served.\<close>

definition in_service :: "contracts \<Rightarrow> ('q, canned_bus crumbs_transport) globals \<Rightarrow> bool" where
  "in_service ct g \<longleftrightarrow>
     (let ds = rs_devices (g_state g) in distinct (map device_id_of ds) \<and> placed ct ds \<and>
      (\<exists>ss. g_session g = Some ss \<and> (\<forall>d \<in> set ds. in_good_order ct d ss)) \<and>
      (\<forall>ka. g_keepalive g = Some ka \<longrightarrow> fed_device ` set (ka_fed ka) \<subseteq> set ds))"

definition board_of :: "('q, canned_bus crumbs_transport) globals \<Rightarrow> inventory_device \<Rightarrow> device_state \<Rightarrow> bool" where
  "board_of g d x \<longleftrightarrow> (\<exists>ss. g_session g = Some ss \<and> has_device ss (device_byte d) x)"

lemma find_device_distinct:
  "distinct (map device_id_of ds) \<Longrightarrow> d \<in> set ds \<Longrightarrow> find_device ds (device_id_of d) = Some d"
  by (induction ds) (auto simp: find_device_def image_iff)

lemma in_service_serving:
  "in_service ct g \<Longrightarrow> d \<in> set (rs_devices (g_state g)) \<Longrightarrow> board_of g d x \<Longrightarrow> serving ct g (device_id_of d) d x"
  by (auto simp: in_service_def serving_def board_of_def Let_def placed_def find_device_distinct)

lemma placed_apart: "placed ct ds \<Longrightarrow> d \<in> set ds \<Longrightarrow> e \<in> set ds \<Longrightarrow> d = e \<or> device_byte d \<noteq> device_byte e"
  by (auto simp: placed_def distinct_map dest: inj_onD)

definition fed_devices :: "('q, 'w) globals \<Rightarrow> inventory_device set" where
  "fed_devices g = (case g_keepalive g of None \<Rightarrow> {} | Some ka \<Rightarrow> fed_device ` set (ka_fed ka))"

lemma fed_devices_contact [simp]: "fed_devices (note_contact i g) = fed_devices g"
  by (auto simp: fed_devices_def note_contact_def simp flip: set_map split: option.splits)

lemma fed_devices_session [simp]: "fed_devices (g\<lparr>g_session := s\<rparr>) = fed_devices g"
  by (simp add: fed_devices_def)

lemma in_service_iff:
  "in_service ct g \<longleftrightarrow>
     (let ds = rs_devices (g_state g) in distinct (map device_id_of ds) \<and> placed ct ds \<and>
      (\<exists>ss. g_session g = Some ss \<and> (\<forall>d \<in> set ds. in_good_order ct d ss)) \<and> fed_devices g \<subseteq> set ds)"
  by (auto simp: in_service_def fed_devices_def Let_def split: option.splits)

lemma board_step_in_service:
  assumes "in_service ct g" "e \<in> set (rs_devices (g_state g))" "g_session g = Some ss" "board_step ct e ss ss'"
    and g': "g_state g' = g_state g" "g_session g' = Some ss'" "fed_devices g' = fed_devices g"
  shows "in_service ct g'" "d \<in> set (rs_devices (g_state g)) \<Longrightarrow> d \<noteq> e \<Longrightarrow> board_of g d x \<Longrightarrow> board_of g' d x"
proof -
  let ?ds = "rs_devices (g_state g)"
  have placed: "placed ct ?ds" and good: "\<forall>d \<in> set ?ds. in_good_order ct d ss"
    using assms(1,3) by (auto simp: in_service_def Let_def)
  have "in_good_order ct d ss'" if d: "d \<in> set ?ds" for d
    using placed_apart [OF placed assms(2) d] bspec [OF good d] assms(4)
    by (auto simp: in_good_order_def board_step_def)
  with assms(1) g' show "in_service ct g'" by (simp add: in_service_iff Let_def)
  assume "d \<in> set ?ds" "d \<noteq> e" "board_of g d x"
  with placed_apart [OF placed assms(2)] assms(3,4) g'(2) show "board_of g' d x"
    by (auto simp: board_of_def has_device_iff board_step_def)
qed

text \<open>The boards of the provider go through an activity with their controls as they are.\<close>

definition undisturbed :: "('q, canned_bus crumbs_transport) globals \<Rightarrow> ('q, canned_bus crumbs_transport) globals \<Rightarrow> bool" where
  "undisturbed g g' \<longleftrightarrow> g_state g' = g_state g \<and>
     (\<forall>d \<in> set (rs_devices (g_state g)). \<forall>x. board_of g d x \<longrightarrow> (\<exists>y. board_of g' d y \<and> same_controls y x))"

lemma undisturbed_trans: "undisturbed g h \<Longrightarrow> undisturbed h k \<Longrightarrow> undisturbed g k"
  unfolding undisturbed_def by (metis same_controls_trans)

lemma undisturbed_same_session: "g_state g' = g_state g \<Longrightarrow> g_session g' = g_session g \<Longrightarrow> undisturbed g g'"
  by (auto simp: undisturbed_def board_of_def)

lemma in_service_same_session:
  "in_service ct g \<Longrightarrow> g_state g' = g_state g \<Longrightarrow> g_session g' = g_session g \<Longrightarrow> fed_devices g' = fed_devices g \<Longrightarrow> in_service ct g'"
  by (simp add: in_service_iff)

lemma quiet_step_undisturbed:
  assumes "in_service ct g" "e \<in> set (rs_devices (g_state g))" "g_session g = Some ss" "quiet_step ct e ss ss'"
    and g': "g_state g' = g_state g" "g_session g' = Some ss'" "fed_devices g' = fed_devices g"
  shows "in_service ct g' \<and> undisturbed g g'"
proof -
  have step: "board_step ct e ss ss'" using assms(4) by (simp add: quiet_step_def)
  have good: "in_good_order ct e ss" using assms(1-3) by (auto simp: in_service_def Let_def)
  have "\<exists>y. board_of g' d y \<and> same_controls y x" if "d \<in> set (rs_devices (g_state g))" "board_of g d x" for d x
  proof (cases "d = e")
    case True
    with that(2) assms(3,4) good g'(2) show ?thesis by (auto simp: board_of_def quiet_step_def)
  next
    case False
    with board_step_in_service(2) [OF assms(1-3) step g' that(1) _ that(2)] same_controls_simps(1) show ?thesis by blast
  qed
  with g'(1) board_step_in_service(1) [OF assms(1-3) step g'] show ?thesis by (simp add: undisturbed_def)
qed

lemma call_in_service:
  assumes "codec_ok ct" "in_service ct g" "runtime_call ct (canned_transport ct sys steady scan) j fid args g = (r, g')"
  shows "in_service ct g'" "g_state g' = g_state g"
    "d \<in> set (rs_devices (g_state g)) \<Longrightarrow> device_id_of d \<noteq> j \<Longrightarrow> board_of g d x \<Longrightarrow> board_of g' d x"
proof -
  let ?tr = "canned_transport ct sys steady scan" and ?ds = "rs_devices (g_state g)"
  obtain ss where ss: "g_session g = Some ss" "\<forall>d \<in> set ?ds. in_good_order ct d ss"
    using assms(2) by (auto simp: in_service_def Let_def)
  have "in_service ct g' \<and> g_state g' = g_state g \<and> (d \<in> set ?ds \<longrightarrow> device_id_of d \<noteq> j \<longrightarrow> board_of g d x \<longrightarrow> board_of g' d x)"
    for d x
  proof (cases "find_device ?ds j")
    case None
    with assms(2,3) show ?thesis by (auto simp: runtime_call_defs snapshot_def)
  next
    case (Some e)
    have e: "e \<in> set ?ds" "device_id_of e = j" using find_device_Some [OF Some] by simp_all
    show ?thesis
    proof (cases "function_exists e fid []")
      case False
      with Some assms(3) have "g' = note_contact j g" by (auto simp: runtime_call_defs snapshot_def)
      with in_service_same_session [OF assms(2), of g'] show ?thesis by (auto simp: board_of_def)
    next
      case True
      obtain br session where c: "call (adapter_for ct ?tr (dev_type e)) (Some ss) e fid args = (br, session)" by fastforce
      obtain ss' where ss': "session = Some ss'" "board_step ct e ss ss'" using call_board_step [OF assms(1) c] by blast
      then have good: "in_good_order ct e ss'" using ss(2) e(1) by (auto simp: board_step_def)
      let ?g = "(note_contact j g)\<lparr>g_session := Some ss'\<rparr>"
      have "handle_recovery ct ?tr e (rs_config (g_state g)) ?g = ?g"
        using good by (intro handle_recovery_unflagged [where ss = ss']) (simp_all add: in_good_order_def)
      then have g': "g' = ?g" using assms(3) Some True ss(1) c ss'(1) by (auto simp: runtime_call_defs snapshot_def Let_def)
      show ?thesis using board_step_in_service [OF assms(2) e(1) ss(1) ss'(2), of g'] e(2) by (auto simp: g')
    qed
  qed
  then show "in_service ct g'" "g_state g' = g_state g"
    "d \<in> set ?ds \<Longrightarrow> device_id_of d \<noteq> j \<Longrightarrow> board_of g d x \<Longrightarrow> board_of g' d x" by blast+
qed

lemma read_undisturbed:
  assumes "codec_ok ct" "labels_distinct ct" "in_service ct g"
    and "runtime_read ct (canned_transport ct sys steady scan) j ids g = (r, g')"
  shows "in_service ct g' \<and> undisturbed g g'"
proof (cases "find_device (rs_devices (g_state g)) j")
  case None
  with assms(3,4) show ?thesis by (auto simp: runtime_read_defs snapshot_def undisturbed_same_session)
next
  case (Some e)
  let ?tr = "canned_transport ct sys steady scan"
  have e: "e \<in> set (rs_devices (g_state g))" using find_device_Some [OF Some] by simp
  obtain ss where ss: "g_session g = Some ss" "in_good_order ct e ss" using assms(3) e by (auto simp: in_service_def Let_def)
  obtain br ss' where rd: "ad_read_signals (adapter_for ct ?tr (dev_type e)) e ids ss = (br, ss')" by fastforce
  note quiet = read_quiet [OF assms(1,2) rd]
  have good: "in_good_order ct e ss'" using quiet ss(2) by (auto simp: quiet_step_def board_step_def)
  let ?g = "(note_contact j g)\<lparr>g_session := Some ss'\<rparr>"
  have "handle_recovery ct ?tr e (rs_config (g_state g)) ?g = ?g"
    using good by (intro handle_recovery_unflagged [where ss = ss']) (simp_all add: in_good_order_def)
  then have "g' = ?g" using assms(4) Some ss(1) rd by (auto simp: runtime_read_defs snapshot_def Let_def)
  with quiet_step_undisturbed [OF assms(3) e ss(1) quiet, of g'] show ?thesis by simp
qed

lemma health_undisturbed:
  assumes "codec_ok ct" "opcodes_ok ct" "parsers_ok ct" "in_service ct g"
    and "device_health ct (canned_transport ct sys steady scan) j g = (r, g')"
  shows "in_service ct g' \<and> undisturbed g g'"
proof (cases "find_device (rs_devices (g_state g)) j")
  case None
  with assms(4,5) show ?thesis by (auto simp: device_health_def snapshot_def undisturbed_same_session)
next
  case (Some e)
  have e: "e \<in> set (rs_devices (g_state g))" using find_device_Some [OF Some] by simp
  obtain ss where ss: "g_session g = Some ss" using assms(4) by (auto simp: in_service_def Let_def)
  obtain extra ss' where h: "session_health ct (canned_transport ct sys steady scan) e (passive_health ct (g_state g) j e) ss = (extra, ss')"
    by fastforce
  then have "g' = g\<lparr>g_session := Some ss'\<rparr>" using assms(5) Some ss by (auto simp: device_health_def snapshot_def Let_def)
  with quiet_step_undisturbed [OF assms(4) e ss health_quiet [OF assms(1-3) h], of g'] show ?thesis by simp
qed

lemma feed_all_undisturbed:
  assumes "codec_ok ct" "opcodes_ok ct" "parsers_ok ct"
  shows "in_service ct g \<Longrightarrow> g_session g = Some ss \<Longrightarrow> set ds \<subseteq> set (rs_devices (g_state g)) \<Longrightarrow>
    let g' = g\<lparr>g_session := Some (feed_all ct (canned_transport ct sys steady scan) ds ss)\<rparr> in in_service ct g' \<and> undisturbed g g'"
proof (induction ds arbitrary: g ss)
  case Nil
  then show ?case using in_service_same_session [OF Nil(1)] by (simp add: feed_all_def undisturbed_same_session)
next
  case (Cons d ds)
  obtain st status ss1 where q: "query_status ct (canned_transport ct sys steady scan) d new_watchdog_status ss = (st, status, ss1)"
    by (metis prod_cases3)
  let ?g = "g\<lparr>g_session := Some ss1\<rparr>"
  have one: "in_service ct ?g \<and> undisturbed g ?g"
    using quiet_step_undisturbed [OF Cons.prems(1) _ Cons.prems(2) query_quiet [OF assms q], of ?g] Cons.prems(3) by simp
  from Cons.IH [of ?g ss1] one Cons.prems(3) have "in_service ct (g\<lparr>g_session := Some (feed_all ct (canned_transport ct sys steady scan) ds ss1)\<rparr>)"
    "undisturbed ?g (g\<lparr>g_session := Some (feed_all ct (canned_transport ct sys steady scan) ds ss1)\<rparr>)" by (simp_all add: Let_def)
  with one show ?case by (auto simp: Let_def feed_all_def q intro: undisturbed_trans)
qed

lemma wake_undisturbed:
  assumes "codec_ok ct" "opcodes_ok ct" "parsers_ok ct" "in_service ct g"
  shows "let g' = feed_globals ct (canned_transport ct sys steady scan) now g in in_service ct g' \<and> undisturbed g g'"
proof (cases "g_keepalive g")
  case None
  with assms(4) show ?thesis by (auto simp: feed_globals_def undisturbed_same_session split: option.splits)
next
  case (Some ka)
  let ?tr = "canned_transport ct sys steady scan" and ?ds = "due_devices now (ka_fed ka)"
  let ?g' = "feed_globals ct ?tr now g"
  obtain ss where ss: "g_session g = Some ss" using assms(4) by (auto simp: in_service_def Let_def)
  have ds: "set ?ds \<subseteq> set (rs_devices (g_state g))"
    using assms(4) Some by (auto simp: in_service_def due_devices_def Let_def)
  have state: "g_state ?g' = g_state g" "fed_devices ?g' = fed_devices g"
    using Some ss by (auto simp: feed_globals_def wake_def tick_spec fed_devices_def Let_def image_image)
  have "g_session ?g' = Some ss \<or> g_session ?g' = Some (feed_all ct ?tr ?ds ss)"
    using Some ss by (auto simp: feed_globals_def wake_def tick_spec Let_def)
  then show ?thesis
  proof
    assume "g_session ?g' = Some ss"
    with in_service_same_session [OF assms(4) state(1) _ state(2)] undisturbed_same_session [OF state(1)] ss show ?thesis
      by (simp add: Let_def)
  next
    let ?h = "g\<lparr>g_session := Some (feed_all ct ?tr ?ds ss)\<rparr>"
    assume s: "g_session ?g' = Some (feed_all ct ?tr ?ds ss)"
    have "in_service ct ?h" "undisturbed g ?h" using feed_all_undisturbed [OF assms ss ds] by (simp_all add: Let_def)
    then show ?thesis
      using in_service_same_session [of ct ?h ?g'] undisturbed_trans [OF _ undisturbed_same_session, of g ?h ?g'] s state
      by (simp add: Let_def)
  qed
qed

end
