(* ===== verification/Board_Spec.thy ===== *)
theory Board_Spec
  imports Board_Steps
begin

text \<open>
  What the provider promises of a board: it follows the calls made on it, and reads return it. An abstract machine says what
  a call does and what a read returns, in terms of the arguments and the values alone. The
  provider, with validation, encoding, confirmed SETs, retries, the wire and back, is shown to
  implement it on a simulated board, for any sequence of calls, reads and health requests on all of the boards together,
  with the keepalive's thread waking at any time between them.
\<close>

subsection \<open>Activities\<close>

datatype activity = Calls string u32 value_map | Reads string "string list" | AsksHealth string | Wakes int

datatype answer = CallAnswer adapter_call_result | ReadAnswer adapter_read_result | HealthAnswer device_health_extra | NoAnswer

fun perform :: "contracts \<Rightarrow> 'w transport \<Rightarrow> activity \<Rightarrow> ('q, 'w) globals \<Rightarrow> answer \<times> ('q, 'w) globals" where
  "perform ct tr (Calls j fid args) g = apfst CallAnswer (runtime_call ct tr j fid args g)"
| "perform ct tr (Reads j ids) g = apfst ReadAnswer (runtime_read ct tr j ids g)"
| "perform ct tr (AsksHealth j) g = apfst HealthAnswer (device_health ct tr j g)"
| "perform ct tr (Wakes now) g = (NoAnswer, feed_globals ct tr now g)"

fun perform_all :: "contracts \<Rightarrow> 'w transport \<Rightarrow> activity list \<Rightarrow> ('q, 'w) globals \<Rightarrow> answer list \<times> ('q, 'w) globals" where
  "perform_all ct tr [] g = ([], g)"
| "perform_all ct tr (act # acts) g =
     (let (a, g1) = perform ct tr act g; (as, g2) = perform_all ct tr acts g1 in (a # as, g2))"

fun build_frame_for :: "contracts \<Rightarrow> device_type \<Rightarrow> u32 \<Rightarrow> value_map \<Rightarrow> adapter_call_result \<times> raw_frame" where
  "build_frame_for ct Rlht = rlht_build_frame ct"
| "build_frame_for ct Dcmt = dcmt_build_frame ct"

lemma adapter_builds: "ad_build_frame (adapter_for ct tr ty) = build_frame_for ct ty"
  by (cases ty) simp_all

text \<open>A device takes a call: it publishes the function, the arguments are valid, and the adapter does not hold it back.\<close>

definition accepts :: "contracts \<Rightarrow> inventory_device \<Rightarrow> u32 \<Rightarrow> value_map \<Rightarrow> bool" where
  "accepts ct d fid args \<longleftrightarrow> function_exists d fid [] \<and>
     (let (b, f) = build_frame_for ct (dev_type d) fid args in cr_ok b \<and> \<not> withheld ct d f)"

text \<open>
  The answers are those of an abstract machine that starts in the given state: a call on the device is answered with ok exactly when it is
  accepted, and steps the machine when it is; a read of the device returns what the machine says. Nothing else moves it.
\<close>

fun follows ::
  "(u32 \<Rightarrow> value_map \<Rightarrow> 's \<Rightarrow> 's) \<Rightarrow> (string list \<Rightarrow> 's \<Rightarrow> adapter_read_result) \<Rightarrow> contracts \<Rightarrow> inventory_device \<Rightarrow>
   activity list \<Rightarrow> answer list \<Rightarrow> 's \<Rightarrow> bool" where
  "follows step reply ct d [] [] s \<longleftrightarrow> True"
| "follows step reply ct d (Calls j fid args # acts) (CallAnswer r # as) s \<longleftrightarrow>
     (if j = device_id_of d then
        (cr_ok r \<longleftrightarrow> accepts ct d fid args) \<and>
        follows step reply ct d acts as (if accepts ct d fid args then step fid args s else s)
      else follows step reply ct d acts as s)"
| "follows step reply ct d (Reads j ids # acts) (ReadAnswer r # as) s \<longleftrightarrow>
     (j = device_id_of d \<longrightarrow> r = reply ids s) \<and> follows step reply ct d acts as s"
| "follows step reply ct d (AsksHealth j # acts) (HealthAnswer h # as) s \<longleftrightarrow> follows step reply ct d acts as s"
| "follows step reply ct d (Wakes now # acts) (NoAnswer # as) s \<longleftrightarrow> follows step reply ct d acts as s"
| "follows step reply ct d _ _ s \<longleftrightarrow> False"

text \<open>The modes and the flags of the RLHT contract are different values; the flags are different bits.\<close>

definition rlht_values_ok :: "contracts \<Rightarrow> bool" where
  "rlht_values_ok ct \<longleftrightarrow>
     byte_of ct RLHT_MODE_OPEN_LOOP \<noteq> byte_of ct RLHT_MODE_CLOSED_LOOP \<and>
     byte_of ct RLHT_FLAG_RELAY1_ON \<noteq> 0 \<and> byte_of ct RLHT_FLAG_RELAY2_ON \<noteq> 0 \<and>
     byte_of ct RLHT_FLAG_RELAY1_ON AND byte_of ct RLHT_FLAG_RELAY2_ON = 0 \<and>
     byte_of ct RLHT_FLAG_RELAY1_ON AND byte_of ct RLHT_FLAG_ESTOP = 0 \<and>
     byte_of ct RLHT_FLAG_RELAY2_ON AND byte_of ct RLHT_FLAG_ESTOP = 0"

text \<open>All that the statements about boards rely on.\<close>

definition boards_ok :: "contracts \<Rightarrow> bool" where
  "boards_ok ct \<longleftrightarrow> codec_ok ct \<and> ack_ok ct \<and> opcodes_ok ct \<and> labels_distinct ct \<and> parsers_ok ct \<and>
     pid_pack_fits ct \<and> rlht_values_ok ct"

lemma sample_rlht_values_ok: "rlht_values_ok sample_contracts"
  by (simp add: rlht_values_ok_def)

lemma sample_boards_ok: "boards_ok sample_contracts"
  by (simp add: boards_ok_def sample_codec_ok sample_ack_ok sample_opcodes_ok sample_labels_distinct sample_parsers_ok
      sample_pid_pack_fits sample_rlht_values_ok)

lemma read_u16_le_bytes: "read_u16_le (le_bytes v @ bs) = v" "read_u16_le (le_bytes v) = v"
  by (simp_all add: read_u16_le_def le_bytes_def le_value_bytes)

lemma drop_le_bytes [simp]: "drop 2 (le_bytes v @ bs) = bs"
  by (simp add: le_bytes_def)

text \<open>
  The interface of an abstract machine: what is seen of a board, one step per call, and what is read of it, for the devices
  that are \<open>readable\<close>. Its laws are about one exchange with one board: the commuting square of an accepted frame, the
  adapter's read, and that a board with safe outputs is \<open>off\<close>. Its lemmas are about the provider.
\<close>

locale board_machine =
  fixes ct :: contracts and ty :: device_type and seen :: "device_state \<Rightarrow> 's"
    and step :: "u32 \<Rightarrow> value_map \<Rightarrow> 's \<Rightarrow> 's" and reply :: "string list \<Rightarrow> 's \<Rightarrow> adapter_read_result"
    and readable :: "inventory_device \<Rightarrow> bool" and off :: "'s \<Rightarrow> bool"
  assumes seen_controls: "same_controls x y \<Longrightarrow> seen x = seen y"
    and step_commutes: "boards_ok ct \<Longrightarrow> d_type_id x = bread_type_id ct ty \<Longrightarrow> build_frame_for ct ty fid args = (b, f) \<Longrightarrow>
      cr_ok b \<Longrightarrow> seen (apply_set ct (populate_message f) x) = step fid args (seen x)"
    and read_returns: "boards_ok ct \<Longrightarrow> dev_type d = ty \<Longrightarrow> readable d \<Longrightarrow> has_device ss (device_byte d) x \<Longrightarrow>
      d_type_id x = bread_type_id ct ty \<Longrightarrow>
      fst (ad_read_signals (adapter_for ct (canned_transport ct sys steady scan) ty) d ids ss) = reply ids (seen x)"
    and safe_is_off: "outputs_safe ct ty x \<Longrightarrow> off (seen x)"
begin

lemma call_follows:
  assumes "boards_ok ct" "in_service ct g" "d \<in> set (rs_devices (g_state g))" "dev_type d = ty" "board_of g d x"
    and "runtime_call ct (canned_transport ct sys steady scan) j fid args g = (r, g')"
  shows "(j = device_id_of d \<longrightarrow> (cr_ok r \<longleftrightarrow> accepts ct d fid args)) \<and>
    (\<exists>y. board_of g' d y \<and> seen y = (if j = device_id_of d \<and> accepts ct d fid args then step fid args (seen x) else seen x))"
proof (cases "j = device_id_of d")
  case False
  with call_in_service(3) [OF _ assms(2,6) assms(3) _ assms(5)] assms(1) show ?thesis by (auto simp: boards_ok_def)
next
  case True
  have ok: "codec_ok ct" "ack_ok ct" "opcodes_ok ct" "labels_distinct ct" "parsers_ok ct" "pid_pack_fits ct"
    using assms(1) by (simp_all add: boards_ok_def)
  note serving = in_service_serving [OF assms(2,3,5)]
  obtain b f where b: "build_frame_for ct (dev_type d) fid args = (b, f)" by fastforce
  show ?thesis
  proof (cases "function_exists d fid []")
    case False
    have find: "find_device (rs_devices (g_state g)) j = Some d" using serving True by (simp add: serving_def)
    with assms(6) False have "\<not> cr_ok r \<and> g' = note_contact j g" by (auto simp: runtime_call_defs snapshot_def)
    with False True assms(5) show ?thesis by (auto simp: accepts_def board_of_def)
  next
    case exists: True
    from board_call [OF ok serving exists, unfolded adapter_builds, OF b, of sys steady scan]
    obtain r0 g0 y where call: "runtime_call ct (canned_transport ct sys steady scan) j fid args g = (r0, g0)"
      and y0: "serving ct g0 (device_id_of d) d y" "cr_ok r0 \<longleftrightarrow> cr_ok b \<and> \<not> withheld ct d f"
      "same_outputs y (if cr_ok r0 then apply_set ct (populate_message f) x else x)" unfolding True by blast
    have "r0 = r" "g0 = g'" using call assms(6) by simp_all
    note y = y0 [unfolded this]
    have acc: "cr_ok r \<longleftrightarrow> accepts ct d fid args" using y(2) exists b by (simp add: accepts_def)
    have "fresh ct d x" by (rule servingE [OF serving])
    then have "d_type_id x = bread_type_id ct ty" using assms(4) by (simp add: calm_def)
    then have "seen y = (if cr_ok r then step fid args (seen x) else seen x)"
      using seen_controls [OF same_outputs_controls [OF y(3)]] step_commutes [OF assms(1)] b y(2) assms(4) by (auto split: if_splits)
    moreover have "board_of g' d y" using y(1) by (auto simp: serving_def board_of_def)
    ultimately show ?thesis using acc True by auto
  qed
qed

lemma read_in_service:
  assumes "boards_ok ct" "in_service ct g" "d \<in> set (rs_devices (g_state g))" "dev_type d = ty" "readable d" "board_of g d x"
  shows "fst (runtime_read ct (canned_transport ct sys steady scan) (device_id_of d) ids g) = reply ids (seen x)"
proof -
  let ?tr = "canned_transport ct sys steady scan"
  obtain ss where ss: "find_device (rs_devices (g_state g)) (device_id_of d) = Some d" "g_session g = Some ss"
    "has_device ss (device_byte d) x" "fresh ct d x"
    by (rule servingE [OF in_service_serving [OF assms(2,3,6)]])
  have "d_type_id x = bread_type_id ct ty" using ss(4) assms(4) by (simp add: calm_def)
  from read_returns [OF assms(1,4,5) ss(3) this, of sys steady scan ids] ss(1,2) assms(4) show ?thesis
    by (auto simp: runtime_read_defs snapshot_def Let_def split: prod.splits)
qed

text \<open>An activity that changes no control leaves the machine as it is.\<close>

lemma undisturbed_seen:
  "undisturbed g g' \<Longrightarrow> d \<in> set (rs_devices (g_state g)) \<Longrightarrow> board_of g d x \<Longrightarrow> \<exists>y. board_of g' d y \<and> seen y = seen x"
  by (meson seen_controls undisturbed_def)

lemma perform_follows:
  assumes "boards_ok ct" "in_service ct g" "d \<in> set (rs_devices (g_state g))" "dev_type d = ty" "readable d" "board_of g d x"
    and "perform ct (canned_transport ct sys steady scan) act g = (a, g')"
  shows "\<exists>y. in_service ct g' \<and> g_state g' = g_state g \<and> board_of g' d y \<and>
    (\<forall>acts as. follows step reply ct d acts as (seen y) \<longrightarrow> follows step reply ct d (act # acts) (a # as) (seen x))"
proof -
  have ok: "codec_ok ct" "opcodes_ok ct" "labels_distinct ct" "parsers_ok ct" using assms(1) by (simp_all add: boards_ok_def)
  have quiet: ?thesis if "in_service ct g' \<and> undisturbed g g'"
    "\<And>acts as. follows step reply ct d acts as (seen x) \<Longrightarrow> follows step reply ct d (act # acts) (a # as) (seen x)"
  proof -
    from that(1) have "undisturbed g g'" by simp
    from undisturbed_seen [OF this assms(3,6)] obtain y where "board_of g' d y" "seen y = seen x" by blast
    with that show ?thesis by (intro exI [of _ y]) (simp add: undisturbed_def)
  qed
  show ?thesis
  proof (cases act)
    case (Calls j fid args)
    then obtain r where c: "runtime_call ct (canned_transport ct sys steady scan) j fid args g = (r, g')" "a = CallAnswer r"
      using assms(7) by (cases "runtime_call ct (canned_transport ct sys steady scan) j fid args g") auto
    with call_follows [OF assms(1-4,6) c(1)] call_in_service(1,2) [OF ok(1) assms(2) c(1)] Calls show ?thesis
      by (auto split: if_splits)
  next
    case (Reads j ids)
    then obtain r where c: "runtime_read ct (canned_transport ct sys steady scan) j ids g = (r, g')" "a = ReadAnswer r"
      using assms(7) by (cases "runtime_read ct (canned_transport ct sys steady scan) j ids g") auto
    have "r = reply ids (seen x)" if "j = device_id_of d"
      using read_in_service [OF assms(1-6), of sys steady scan ids] c(1) that by simp
    then show ?thesis by (intro quiet read_undisturbed [OF ok(1,3) assms(2) c(1)]) (simp add: Reads c(2))
  next
    case (AsksHealth j)
    then obtain r where c: "device_health ct (canned_transport ct sys steady scan) j g = (r, g')" "a = HealthAnswer r"
      using assms(7) by (cases "device_health ct (canned_transport ct sys steady scan) j g") auto
    show ?thesis by (intro quiet health_undisturbed [OF ok(1,2,4) assms(2) c(1)]) (simp add: AsksHealth c(2))
  next
    case (Wakes now)
    with assms(7) have "a = NoAnswer" "g' = feed_globals ct (canned_transport ct sys steady scan) now g" by simp_all
    with wake_undisturbed [OF ok(1,2,4) assms(2), of sys steady scan now] show ?thesis
      by (intro quiet) (simp_all add: Wakes Let_def)
  qed
qed

lemma all_follow:
  assumes "boards_ok ct" "in_service ct g" "d \<in> set (rs_devices (g_state g))" "dev_type d = ty" "readable d" "board_of g d x"
  shows "follows step reply ct d acts (fst (perform_all ct (canned_transport ct sys steady scan) acts g)) (seen x)"
  using assms(2-)
proof (induction acts arbitrary: g x)
  case (Cons act acts)
  let ?tr = "canned_transport ct sys steady scan"
  obtain a g1 where p: "perform ct ?tr act g = (a, g1)" by fastforce
  from perform_follows [OF assms(1) Cons.prems p] obtain y where y: "in_service ct g1" "g_state g1 = g_state g" "board_of g1 d y"
    "\<And>acts as. follows step reply ct d acts as (seen y) \<Longrightarrow> follows step reply ct d (act # acts) (a # as) (seen x)" by blast
  have "d \<in> set (rs_devices (g_state g1))" using Cons.prems(2) y(2) by simp
  from y(4) [OF Cons.IH [OF y(1) this Cons.prems(3,4) y(3)]] show ?case by (simp add: p split_def Let_def)
qed simp

end

subsection \<open>Start-up puts the boards in service\<close>

lemma mock_startup_in_service:
  assumes "boards_ok ct" "acks_seeded ct" "plain_mock ct pf (bus_path c)" "mock_config c" "outputs_policy c = Safe"
    and "distinct (map spec_id (config_devices c))"
  shows "in_service ct (initialize ct ck pf c budget clk g0)"
    "rs_devices (g_state (initialize ct ck pf c budget clk g0)) = build_seed_inventory ct ck c"
    "d \<in> set (build_seed_inventory ct ck c) \<Longrightarrow> \<exists>x. board_of (initialize ct ck pf c budget clk g0) d x \<and> made_safe ct d x"
    "s \<in> set (config_devices c) \<Longrightarrow> seed_device ct ck c s \<in> set (build_seed_inventory ct ck c)"
proof -
  let ?ds = "build_seed_inventory ct ck c" and ?g = "initialize ct ck pf c budget clk g0"
  have ok: "codec_ok ct" "ack_ok ct" "opcodes_ok ct" "labels_distinct ct" using assms(1) by (simp_all add: boards_ok_def)
  have da: "distinct (map spec_address (config_devices c))" using assms(4) by (simp add: mock_config_def)
  note ds = seed_inventory_eq [OF ok(4) da, of ck]
  note placed = seed_inventory_placed [OF ok(4) assms(4,2), of ck]
  have ids: "distinct (map device_id_of ?ds)"
    using assms(6) da by (simp add: ds comp_def distinct_map)
  obtain m ss ka where g: "?g = publish_ready ((started_state c (at_start clk))
      \<lparr>rs_devices := ?ds, rs_inventory_mode := inventory_source_to_string ConfigSeeded,
       rs_unsupported_probe_count := 0, rs_ready := True, rs_ready_at := at_ready clk,
       rs_startup_message := ''config-seeded inventory (mock mode)'', rs_safe_outputs := m\<rparr>) ss ka"
    and up: "\<forall>d \<in> set ?ds. m (device_id_of d) = Some ''set'' \<and> in_good_order ct d ss \<and>
       holds_device (device_byte d) (\<lambda>x. made_safe ct d x \<and> watchdog_set ct d x) (s_transport ss)"
    by (rule mock_startup_publishes [OF ok assms(2-5)])
  show devices: "rs_devices (g_state ?g) = ?ds" by (simp add: g publish_ready_def)
  have session: "g_session ?g = Some ss" by (simp add: g publish_ready_def)
  have "fed_devices ?g \<subseteq> set ?ds"
    using initialize_inv [of ct ck pf c budget clk g0] devices
    by (fastforce simp: runtime_inv_def fed_devices_def Let_def simp flip: set_map split: option.splits if_splits)
  then show "in_service ct ?g" using ids placed up by (simp add: in_service_iff devices session)
  show "seed_device ct ck c s \<in> set ?ds" if "s \<in> set (config_devices c)" using that by (simp add: ds)
  assume d: "d \<in> set ?ds"
  with up have "holds_device (device_byte d) (made_safe ct d) (s_transport ss)" by (auto elim: holds_device_mono)
  moreover have "status_ok (validate_address (device_byte d))" using placed d by (simp add: placed_def)
  ultimately obtain x where "has_device ss (device_byte d) x" "made_safe ct d x" by (rule holds_deviceE)
  then show "\<exists>x. board_of ?g d x \<and> made_safe ct d x" by (auto simp: board_of_def session)
qed

lemma plain_mock_transport:
  assumes "plain_mock ct pf path"
  obtains sys steady where "platform_transport ct pf = canned_transport ct sys steady (pf_scan pf)"
  using assms by (auto simp: plain_mock_def)

subsection \<open>A board from start-up on\<close>

context board_machine
begin

lemma mock_board_follows:
  assumes "boards_ok ct" "acks_seeded ct" "plain_mock ct pf (bus_path c)" "mock_config c" "outputs_policy c = Safe"
    and "distinct (map spec_id (config_devices c))" "s \<in> set (config_devices c)" "spec_type s = ty"
    and "readable (seed_device ct claim_key c s)"
  shows "\<exists>h. off h \<and> (\<forall>acts. follows step reply ct (seed_device ct claim_key c s) acts
      (fst (perform_all ct (platform_transport ct pf) acts (initialize ct claim_key pf c budget clk g0))) h)"
proof -
  let ?d = "seed_device ct claim_key c s" and ?g = "initialize ct claim_key pf c budget clk g0"
  note up = mock_startup_in_service(1-3) [OF assms(1-6), where ck = claim_key and budget = budget and clk = clk and ?g0.0 = g0]
  have d: "?d \<in> set (rs_devices (g_state ?g))" using up(2) mock_startup_in_service(4) [OF assms(1-7)] by simp
  have type: "dev_type ?d = ty" unfolding seed_device_simps by (rule assms(8))
  obtain x where x: "board_of ?g ?d x" "made_safe ct ?d x" using up(2,3) d by auto
  obtain sys steady where tr: "platform_transport ct pf = canned_transport ct sys steady (pf_scan pf)"
    by (rule plain_mock_transport [OF assms(3)])
  have "off (seen x)" using x(2) type by (intro safe_is_off) (simp add: made_safe_def)
  with all_follow [OF assms(1) up(1) d type assms(9) x(1), of _ sys steady "pf_scan pf"] show ?thesis by (auto simp: tr)
qed

end

subsection \<open>The boards of the bench\<close>

lemma bench_board_profiles:
  "cp_flags (dev_profile (bench_device (sample_spec ''heat'' Rlht 10))) = 63"
  "cp_flags (dev_profile (bench_device ((sample_spec ''pump'' Dcmt 20)\<lparr>spec_command_watchdog_ms := 300\<rparr>))) = 223"
  "dev_encoders (bench_device ((sample_spec ''pump'' Dcmt 20)\<lparr>spec_command_watchdog_ms := 300\<rparr>))"
  by (simp_all add: expected_device_def apply_spec_def build_device_def seed_probe_def normalize_capability_profile_def
      fill_profile_def has_flag_def Let_def)

lemma bench_board_functions:
  "dev_capabilities (bench_device (sample_spec ''heat'' Rlht 10)) = build_rlht_capabilities sample_contracts 63"
  "dev_capabilities (bench_device ((sample_spec ''pump'' Dcmt 20)\<lparr>spec_command_watchdog_ms := 300\<rparr>)) =
     build_dcmt_capabilities sample_contracts 223"
  by (simp_all add: expected_device_def apply_spec_def build_device_def seed_probe_def normalize_capability_profile_def
      fill_profile_def has_flag_def Let_def)

end
