(* ===== verification/Heater_Spec.thy ===== *)
theory Heater_Spec
  imports Board_Spec
begin

text \<open>
  The abstract heater: an RLHT as the caller of the provider sees it. Its state is the mode, the two
  setpoints in tenths of a degree, the on-times and periods of the relays and the thermocouple of
  each channel; a call changes it as its arguments say, and a read returns it. The gains and
  the relay periods are not simulated, so those calls have no effect here. The simulated board, reached through
  the whole provider, refines it.
\<close>

record heater =
  h_open_loop :: bool
  h_setpoint1_dc :: int
  h_setpoint2_dc :: int
  h_on1_ms :: nat
  h_on2_ms :: nat
  h_period1_ms :: nat
  h_period2_ms :: nat
  h_tc1 :: nat
  h_tc2 :: nat

definition tenths_arg :: "value_map \<Rightarrow> string \<Rightarrow> int" where
  "tenths_arg args n = llround (dbl_times_10 (the (get_arg_double args n)))"

definition uint_arg :: "value_map \<Rightarrow> string \<Rightarrow> nat" where
  "uint_arg args n = the (get_arg_uint64 args n)"

definition heater_call :: "u32 \<Rightarrow> value_map \<Rightarrow> heater \<Rightarrow> heater" where
  "heater_call fid args h =
     (if fid = 1 then h\<lparr>h_open_loop := (get_arg_string args ''mode'' = Some ''open_loop'')\<rparr>
      else if fid = 2 then h\<lparr>h_setpoint1_dc := tenths_arg args ''setpoint1_c'',
                            h_setpoint2_dc := tenths_arg args ''setpoint2_c''\<rparr>
      else if fid = 5 then h\<lparr>h_tc1 := uint_arg args ''channel1_thermocouple'',
                            h_tc2 := uint_arg args ''channel2_thermocouple''\<rparr>
      else if fid = 6 then h\<lparr>h_on1_ms := h_period1_ms h * uint_arg args ''duty1_pct'' div 100,
                            h_on2_ms := h_period2_ms h * uint_arg args ''duty2_pct'' div 100\<rparr>
      else h)"

definition heater_signals :: "contracts \<Rightarrow> heater \<Rightarrow> signal_value list" where
  "heater_signals ct h =
     [make_signal_value ''mode'' (make_string_val (if h_open_loop h then ''open_loop'' else ''closed_loop'')) QUALITY_OK,
      deci_c_signal ct ''t1_c'' 250, deci_c_signal ct ''t2_c'' 255,
      deci_c_signal ct ''setpoint1_c'' (word_of_int (h_setpoint1_dc h)),
      deci_c_signal ct ''setpoint2_c'' (word_of_int (h_setpoint2_dc h)),
      make_signal_value ''period1_ms'' (make_uint64_val (h_period1_ms h)) QUALITY_OK,
      make_signal_value ''period2_ms'' (make_uint64_val (h_period2_ms h)) QUALITY_OK,
      make_signal_value ''on1_ms'' (make_uint64_val (h_on1_ms h)) QUALITY_OK,
      make_signal_value ''on2_ms'' (make_uint64_val (h_on2_ms h)) QUALITY_OK,
      make_signal_value ''channel1_thermocouple'' (make_uint64_val (h_tc1 h)) (if h_tc1 h \<in> {1, 2} then QUALITY_OK else QUALITY_FAULT),
      make_signal_value ''channel2_thermocouple'' (make_uint64_val (h_tc2 h)) (if h_tc2 h \<in> {1, 2} then QUALITY_OK else QUALITY_FAULT),
      make_signal_value ''relay1_on'' (make_bool_val (0 < h_on1_ms h)) QUALITY_OK,
      make_signal_value ''relay2_on'' (make_bool_val (0 < h_on2_ms h)) QUALITY_OK,
      make_signal_value ''estop'' (make_bool_val False) QUALITY_OK]"

text \<open>The heater a simulated board is.\<close>

definition heater_of :: "contracts \<Rightarrow> device_state \<Rightarrow> heater" where
  "heater_of ct x =
     \<lparr>h_open_loop = (d_rlht_mode x = byte_of ct RLHT_MODE_OPEN_LOOP),
      h_setpoint1_dc = sint (d_rlht_sp1_deci_c x), h_setpoint2_dc = sint (d_rlht_sp2_deci_c x),
      h_on1_ms = unat (d_rlht_on1_ms x), h_on2_ms = unat (d_rlht_on2_ms x),
      h_period1_ms = unat (d_rlht_period1_ms x), h_period2_ms = unat (d_rlht_period2_ms x),
      h_tc1 = unat (d_rlht_tc1 x AND 3), h_tc2 = unat (d_rlht_tc2 x AND 3)\<rparr>"

lemma heater_of_same: "same_controls x y \<Longrightarrow> heater_of ct x = heater_of ct y"
  by (simp add: same_controls_def same_outputs_def heater_of_def)

subsection \<open>A call does to the board what it does to the heater\<close>

lemma duty_on_ms_nat: "duty \<le> 100 \<Longrightarrow> unat (duty_on_ms period (of_nat duty)) = unat period * duty div 100"
proof -
  assume d: "duty \<le> 100"
  then have u: "unat (of_nat duty :: u8) = duty" by (simp add: unat_of_nat)
  have "unat period * duty div 100 \<le> unat period"
    using d by (metis div_le_mono mult_le_mono2 nonzero_mult_div_cancel_right zero_neq_numeral)
  also have "unat period < 65536" using unsigned_less [of period] by simp
  finally show ?thesis unfolding duty_on_ms_def u by (simp add: unat_of_nat)
qed

text \<open>The frames of the RLHT functions at a board of that type.\<close>

lemma rlht_apply_set:
  assumes "opcodes_ok ct" "labels_distinct ct" "d_type_id x = byte_of ct RLHT_TYPE_ID"
  shows "apply_set ct \<lparr>m_type_id = t, m_opcode = byte_of ct RLHT_OP_SET_MODE, m_data = [m]\<rparr> x = x\<lparr>d_rlht_mode := m\<rparr>"
    "apply_set ct \<lparr>m_type_id = t, m_opcode = byte_of ct RLHT_OP_SET_SETPOINTS, m_data = le_bytes v @ le_bytes w\<rparr> x =
       x\<lparr>d_rlht_sp1_deci_c := v, d_rlht_sp2_deci_c := w\<rparr>"
    "apply_set ct \<lparr>m_type_id = t, m_opcode = byte_of ct RLHT_OP_SET_OPEN_DUTY, m_data = [m, n]\<rparr> x =
       x\<lparr>d_rlht_on1_ms := duty_on_ms (d_rlht_period1_ms x) m, d_rlht_on2_ms := duty_on_ms (d_rlht_period2_ms x) n\<rparr>"
    "apply_set ct \<lparr>m_type_id = t, m_opcode = byte_of ct RLHT_OP_SET_TC_SELECT, m_data = [m, n]\<rparr> x =
       x\<lparr>d_rlht_tc1 := m, d_rlht_tc2 := n\<rparr>"
    "p \<in> byte_of ct ` {RLHT_OP_SET_PID, RLHT_OP_SET_PERIODS, BREAD_OP_CLEAR_WATCHDOG_TRIP} \<Longrightarrow>
       heater_of ct (apply_set ct \<lparr>m_type_id = t, m_opcode = p, m_data = bs\<rparr> x) = heater_of ct x"
proof -
  let ?ops = "{RLHT_OP_SET_MODE, RLHT_OP_SET_SETPOINTS, RLHT_OP_SET_TC_SELECT, RLHT_OP_SET_OPEN_DUTY,
     RLHT_OP_SET_PID, RLHT_OP_SET_PERIODS, BREAD_OP_CLEAR_WATCHDOG_TRIP}"
  have "inj_on (byte_of ct) ?ops"
    using assms(1) by (auto simp: opcodes_ok_def shared_opcodes_def distinct_map intro: inj_on_subset)
  note op = inj_on_eq_iff [OF this]
  note * = labels_distinctD(1) [OF assms(2)] assms(3)
  show "apply_set ct \<lparr>m_type_id = t, m_opcode = byte_of ct RLHT_OP_SET_MODE, m_data = [m]\<rparr> x = x\<lparr>d_rlht_mode := m\<rparr>"
    using * by (simp add: apply_set_def)
  show "apply_set ct \<lparr>m_type_id = t, m_opcode = byte_of ct RLHT_OP_SET_SETPOINTS, m_data = le_bytes v @ le_bytes w\<rparr> x =
       x\<lparr>d_rlht_sp1_deci_c := v, d_rlht_sp2_deci_c := w\<rparr>"
    using * by (simp add: apply_set_def read_u16_le_bytes op)
  show "apply_set ct \<lparr>m_type_id = t, m_opcode = byte_of ct RLHT_OP_SET_OPEN_DUTY, m_data = [m, n]\<rparr> x =
       x\<lparr>d_rlht_on1_ms := duty_on_ms (d_rlht_period1_ms x) m, d_rlht_on2_ms := duty_on_ms (d_rlht_period2_ms x) n\<rparr>"
    using * by (simp add: apply_set_def op)
  show "apply_set ct \<lparr>m_type_id = t, m_opcode = byte_of ct RLHT_OP_SET_TC_SELECT, m_data = [m, n]\<rparr> x =
       x\<lparr>d_rlht_tc1 := m, d_rlht_tc2 := n\<rparr>"
    using * by (simp add: apply_set_def op)
  assume "p \<in> byte_of ct ` {RLHT_OP_SET_PID, RLHT_OP_SET_PERIODS, BREAD_OP_CLEAR_WATCHDOG_TRIP}"
  then have "p \<noteq> byte_of ct RLHT_OP_SET_MODE" "p \<noteq> byte_of ct RLHT_OP_SET_SETPOINTS"
    "p \<noteq> byte_of ct RLHT_OP_SET_TC_SELECT" "p \<noteq> byte_of ct RLHT_OP_SET_OPEN_DUTY" by (auto simp: op)
  with * show "heater_of ct (apply_set ct \<lparr>m_type_id = t, m_opcode = p, m_data = bs\<rparr> x) = heater_of ct x"
    by (simp add: apply_set_def heater_of_def Let_def)
qed

lemma thermocouple_bits: "0 < n \<Longrightarrow> \<not> 2 < n \<Longrightarrow> unat ((of_nat n :: u8) AND 3) = n"
proof -
  assume "0 < n" "\<not> 2 < n"
  then consider "n = 1" | "n = 2" by linarith
  then show "unat ((of_nat n :: u8) AND 3) = n" by cases simp_all
qed

lemma heater_call_commutes:
  assumes "opcodes_ok ct" "rlht_values_ok ct" "labels_distinct ct" "d_type_id x = byte_of ct RLHT_TYPE_ID"
    and "rlht_encode ct fid args = Inr (p, payload)"
  shows "heater_of ct (apply_set ct \<lparr>m_type_id = t, m_opcode = p, m_data = payload\<rparr> x) = heater_call fid args (heater_of ct x)"
proof -
  note board = rlht_apply_set [OF assms(1,3,4), where t = t]
  have fid: "fid \<in> {1, 2, 3, 4, 5, 6, 7}" using assms(5) by (auto simp: rlht_encode_def split: if_splits)
  consider "fid = 1" | "fid = 2" | "fid = 5" | "fid = 6" | "fid \<in> {3, 4, 7}" using fid by auto
  then show ?thesis
  proof cases
    case 1
    with assms(2,5) show ?thesis
      by (auto simp: rlht_encode_def rlht_set_mode_def board heater_of_def heater_call_def rlht_values_ok_def
          split: option.splits if_splits)
  next
    case 2
    with assms(5) show ?thesis
      by (auto simp: rlht_encode_def rlht_set_setpoints_def board heater_of_def heater_call_def tenths_arg_def
          sint_word_of_int_16 Let_def split: option.splits if_splits)
  next
    case 3
    with assms(5) show ?thesis
      by (auto simp: rlht_encode_def rlht_set_tc_select_def get_args_uint64_def board heater_of_def heater_call_def
          uint_arg_def kRlhtThermocoupleMin_def kRlhtThermocoupleMax_def thermocouple_bits split: option.splits if_splits)
  next
    case 4
    with assms(5) show ?thesis
      by (auto simp: rlht_encode_def rlht_set_open_duty_def get_args_uint64_def board heater_of_def heater_call_def
          uint_arg_def duty_on_ms_nat split: option.splits if_splits)
  next
    case 5
    with assms(5) have "p \<in> byte_of ct ` {RLHT_OP_SET_PID, RLHT_OP_SET_PERIODS, BREAD_OP_CLEAR_WATCHDOG_TRIP}"
      by (auto simp: rlht_encode_def rlht_set_pid_def rlht_set_periods_def split: option.splits if_splits)
    with 5 board(5) show ?thesis by (auto simp: heater_call_def)
  qed
qed

subsection \<open>A read returns the heater\<close>

lemma packed_thermocouples:
  "((t1 AND 3) OR push_bit 2 (t2 AND 3)) AND 3 = t1 AND (3 :: u8)"
  "drop_bit 2 ((t1 AND 3) OR push_bit 2 (t2 AND 3)) AND 3 = t2 AND (3 :: u8)"
proof -
  have three: "(3 :: u8) = mask 2" by (simp add: mask_eq_exp_minus_1)
  show "((t1 AND 3) OR push_bit 2 (t2 AND 3)) AND 3 = t1 AND (3 :: u8)"
    by (rule bit_word_eqI) (auto simp: three bit_simps)
  show "drop_bit 2 ((t1 AND 3) OR push_bit 2 (t2 AND 3)) AND 3 = t2 AND (3 :: u8)"
    by (rule bit_word_eqI) (auto simp: three bit_simps)
qed

lemma thermocouple_signal_nat:
  "thermocouple_signal sid t = make_signal_value sid (make_uint64_val (unat t)) (if unat t \<in> {1, 2} then QUALITY_OK else QUALITY_FAULT)"
  by (auto simp: thermocouple_signal_def kRlhtThermocoupleMin_def kRlhtThermocoupleMax_def)

lemma relay_flags:
  assumes "rlht_values_ok ct"
  defines "flags b1 b2 \<equiv> (let f1 = (if b1 then byte_of ct RLHT_FLAG_RELAY1_ON else 0)
     in if b2 then f1 OR byte_of ct RLHT_FLAG_RELAY2_ON else f1)"
  shows "(flags b1 b2 AND byte_of ct RLHT_FLAG_RELAY1_ON \<noteq> 0) = b1"
    "(flags b1 b2 AND byte_of ct RLHT_FLAG_RELAY2_ON \<noteq> 0) = b2" "flags b1 b2 AND byte_of ct RLHT_FLAG_ESTOP = 0"
  using assms(1) by (auto simp: rlht_values_ok_def flags_def Let_def bit.conj_disj_distrib bit.conj_disj_distrib2 and.commute)

lemma canned_rlht_state_simps:
  assumes "rlht_values_ok ct"
  shows "rl_mode (canned_rlht_state ct x) = d_rlht_mode x"
    "rl_t1_dc (canned_rlht_state ct x) = 250" "rl_t2_dc (canned_rlht_state ct x) = 255"
    "rl_sp1_dc (canned_rlht_state ct x) = d_rlht_sp1_deci_c x" "rl_sp2_dc (canned_rlht_state ct x) = d_rlht_sp2_deci_c x"
    "rl_period1 (canned_rlht_state ct x) = d_rlht_period1_ms x" "rl_period2 (canned_rlht_state ct x) = d_rlht_period2_ms x"
    "rl_on1 (canned_rlht_state ct x) = d_rlht_on1_ms x" "rl_on2 (canned_rlht_state ct x) = d_rlht_on2_ms x"
    "rl_tc1 (canned_rlht_state ct x) = d_rlht_tc1 x AND 3" "rl_tc2 (canned_rlht_state ct x) = d_rlht_tc2 x AND 3"
    "(rl_flags (canned_rlht_state ct x) AND byte_of ct RLHT_FLAG_RELAY1_ON \<noteq> 0) = (0 < unat (d_rlht_on1_ms x))"
    "(rl_flags (canned_rlht_state ct x) AND byte_of ct RLHT_FLAG_RELAY2_ON \<noteq> 0) = (0 < unat (d_rlht_on2_ms x))"
    "rl_flags (canned_rlht_state ct x) AND byte_of ct RLHT_FLAG_ESTOP = 0"
proof -
  have pos: "(0 < w) = (0 < unat w)" for w :: u16 by (simp add: word_less_nat_alt)
  note relay_flags [OF assms, of "0 < d_rlht_on1_ms x" "0 < d_rlht_on2_ms x", unfolded pos]
  then show "(rl_flags (canned_rlht_state ct x) AND byte_of ct RLHT_FLAG_RELAY1_ON \<noteq> 0) = (0 < unat (d_rlht_on1_ms x))"
    "(rl_flags (canned_rlht_state ct x) AND byte_of ct RLHT_FLAG_RELAY2_ON \<noteq> 0) = (0 < unat (d_rlht_on2_ms x))"
    "rl_flags (canned_rlht_state ct x) AND byte_of ct RLHT_FLAG_ESTOP = 0"
    by (simp_all only: canned_rlht_state_def Let_def rlht_state.simps pos)
qed (simp_all only: canned_rlht_state_def Let_def rlht_state.simps packed_thermocouples)

lemma heater_signals_of:
  assumes "rlht_values_ok ct"
  shows "rlht_signal_values ct False (canned_rlht_state ct x) = heater_signals ct (heater_of ct x)"
  by (simp add: rlht_signal_values_def heater_signals_def heater_of_def canned_rlht_state_simps [OF assms]
      thermocouple_signal_nat del: unat_gt_0)

definition heater_reply :: "contracts \<Rightarrow> string list \<Rightarrow> heater \<Rightarrow> adapter_read_result" where
  "heater_reply ct ids h = read_values (filter (\<lambda>v. rlht_should_include ids (sv_id v)) (heater_signals ct h))"

definition heater_off :: "heater \<Rightarrow> bool" where
  "heater_off h \<longleftrightarrow> h_open_loop h \<and> h_setpoint1_dc h = 0 \<and> h_setpoint2_dc h = 0 \<and> h_on1_ms h = 0 \<and> h_on2_ms h = 0"

abbreviation counts_estops :: "contracts \<Rightarrow> inventory_device \<Rightarrow> bool" where
  "counts_estops ct d \<equiv> has_flag (cp_flags (dev_profile d)) (cap_of ct RLHT_CAP_ESTOP_COUNT)"

interpretation heater: board_machine ct Rlht "heater_of ct" heater_call "heater_reply ct" "\<lambda>d. \<not> counts_estops ct d" heater_off
proof
  show "heater_of ct x = heater_of ct y" if "same_controls x y" for x y using that by (rule heater_of_same)
  show "heater_off (heater_of ct x)" if "outputs_safe ct Rlht x" for x
    using that by (simp add: heater_off_def heater_of_def)
next
  fix x :: device_state and fid args b f
  assume *: "boards_ok ct" "d_type_id x = bread_type_id ct Rlht" "build_frame_for ct Rlht fid args = (b, f)" "cr_ok b"
  then obtain p payload where e: "rlht_encode ct fid args = Inr (p, payload)" "f = frame_of (byte_of ct RLHT_TYPE_ID) p payload"
    using rlht_encode_errors [of ct fid args]
    by (auto simp: rlht_build_frame_def finish_frame_def split: sum.splits)
  with * heater_call_commutes [OF _ _ _ _ e(1), of x "byte_of ct RLHT_TYPE_ID"]
  show "heater_of ct (apply_set ct (populate_message f) x) = heater_call fid args (heater_of ct x)"
    by (simp add: boards_ok_def populate_message_def frame_of_def)
next
  fix d ss x sys steady scan ids
  assume *: "boards_ok ct" "dev_type d = Rlht" "\<not> counts_estops ct d" "has_device ss (device_byte d) x"
    "d_type_id x = bread_type_id ct Rlht"
  have ok: "codec_ok ct" "parsers_ok ct" "rlht_values_ok ct" using *(1) by (simp_all add: boards_ok_def)
  from canned_rlht_read [OF ok(1,2) *(4) _ *(3), of sys steady scan ids] *(5)
  show "fst (ad_read_signals (adapter_for ct (canned_transport ct sys steady scan) Rlht) d ids ss) = heater_reply ct ids (heater_of ct x)"
    by (auto simp: heater_reply_def heater_signals_of [OF ok(3)])
qed

text \<open>
  C1: a heater configured on a \<open>mock://\<close> bus behaves, from start-up on, as the abstract heater does. Start-up
  leaves it off. Through any sequence of calls, reads and health requests, on this board and on the others, with the
  keepalive's thread waking at any time between them, each call on this board is answered with ok exactly when the board publishes the
  function and the arguments are valid, and each read of it returns exactly the signals asked for, with the values that the calls
  accepted so far on this board give, whatever else was asked.
\<close>

theorem mock_heater_follows_calls:
  assumes "boards_ok ct" "acks_seeded ct" "plain_mock ct pf (bus_path c)" "mock_config c" "outputs_policy c = Safe"
    and "distinct (map spec_id (config_devices c))" "s \<in> set (config_devices c)" "spec_type s = Rlht"
    and "\<not> counts_estops ct (seed_device ct claim_key c s)"
  shows "\<exists>h. heater_off h \<and> (\<forall>acts. follows heater_call (heater_reply ct) ct (seed_device ct claim_key c s) acts
      (fst (perform_all ct (platform_transport ct pf) acts (initialize ct claim_key pf c budget clk g0))) h)"
  using assms by (rule heater.mock_board_follows)

theorem mock_heater_follows_calls_witness:
  "let args = [''setpoint1_c'' \<mapsto> make_double_val (int_div_10 375), ''setpoint2_c'' \<mapsto> make_double_val (int_div_10 0)];
       acts = [Calls ''heat'' 2 args, Wakes 100, AsksHealth ''pump'', Calls ''heat'' 9 args, Reads ''heat'' [''setpoint1_c'']];
       as = fst (perform_all sample_contracts (platform_transport sample_contracts sample_platform) acts bench_start)
   in (\<exists>r. as ! 0 = CallAnswer r \<and> cr_ok r) \<and> (\<exists>r. as ! 3 = CallAnswer r \<and> \<not> cr_ok r) \<and>
      as ! 4 = ReadAnswer (read_values [make_signal_value ''setpoint1_c'' (make_double_val (int_div_10 375)) QUALITY_OK])"
proof -
  let ?s = "sample_spec ''heat'' Rlht 10"
  let ?d = "bench_device ?s"
    and ?args = "[''setpoint1_c'' \<mapsto> make_double_val (int_div_10 375), ''setpoint2_c'' \<mapsto> make_double_val (int_div_10 0)]"
  let ?acts = "[Calls ''heat'' 2 ?args, Wakes 100, AsksHealth ''pump'', Calls ''heat'' 9 ?args, Reads ''heat'' [''setpoint1_c'']]"
  let ?as = "fst (perform_all sample_contracts (platform_transport sample_contracts sample_platform) ?acts bench_start)"
  have c: "distinct (map spec_id (config_devices bench_config))" "?s \<in> set (config_devices bench_config)" "spec_type ?s = Rlht"
    by (simp_all add: bench_config_def sample_config_def)
  have flags: "\<not> counts_estops sample_contracts ?d"
    unfolding bench_board_profiles by (simp add: has_flag_def)
  obtain h where h: "follows heater_call (heater_reply sample_contracts) sample_contracts ?d ?acts ?as h"
    using mock_heater_follows_calls [OF sample_boards_ok bench_ok(4,1,2,3) c flags, where budget = 0 and ?g0.0 = new_globals
        and clk = "\<lparr>at_entry = 0, at_start = 0, at_ready = 0, at_failure = 0, at_probe = \<lambda>_. 0\<rparr>"] by blast
  have id: "device_id_of ?d = ''heat''" "dev_type ?d = Rlht" unfolding seed_device_simps by simp_all
  have args: "rlht_build_frame sample_contracts 2 ?args = (call_ok ''ok'', frame_of 1 2 (le_bytes 375 @ le_bytes 0))"
    using rlht_setpoint_round_trip [of 375 0 ?args sample_contracts] by (simp add: get_arg_defs)
  have a: "accepts sample_contracts ?d 2 ?args" "\<not> accepts sample_contracts ?d 9 ?args"
    by (simp_all only: accepts_def id build_frame_for.simps args withheld_def function_exists_def bench_board_functions)
       (simp_all add: build_rlht_capabilities_def rlht_functions_def function_with_def has_flag_def call_ok_def)
  have t: "tenths_arg ?args ''setpoint1_c'' = 375" by (simp add: tenths_arg_def get_arg_defs deci_round_trip)
  have "heater_reply sample_contracts [''setpoint1_c''] (heater_call 2 ?args h) =
      read_values [make_signal_value ''setpoint1_c'' (make_double_val (int_div_10 375)) QUALITY_OK]"
    by (simp add: heater_reply_def heater_signals_def heater_call_def rlht_should_include_def t deci_c_signal_def)
  moreover obtain r0 e h2 r3 r4 where as: "?as = [CallAnswer r0, NoAnswer, h2, CallAnswer r3, ReadAnswer r4]" "h2 = HealthAnswer e"
    by (simp add: apfst_def map_prod_def split_def Let_def)
  ultimately show ?thesis
    using h [unfolded as] a by (simp only: Let_def as follows.simps id) simp
qed

end
