(* ===== verification/Driver_Spec.thy ===== *)
theory Driver_Spec
  imports Board_Spec
begin

text \<open>
  The abstract driver: a DCMT as the caller of the provider sees it, its mode and the command of each
  motor. The simulated board keeps no brakes, targets or gains, so those calls have no effect here, and in a closed loop
  it reports its targets as invalid, which no read accepts. The board, reached through the whole provider, refines it.
\<close>

record driver =
  v_mode :: string
  v_motor1_pwm :: int
  v_motor2_pwm :: int

definition int_arg :: "value_map \<Rightarrow> string \<Rightarrow> int" where
  "int_arg args n = the (get_arg_int64 args n)"

definition driver_call :: "u32 \<Rightarrow> value_map \<Rightarrow> driver \<Rightarrow> driver" where
  "driver_call fid args v =
     (if fid = 1 then v\<lparr>v_motor1_pwm := int_arg args ''motor1_pwm'', v_motor2_pwm := int_arg args ''motor2_pwm''\<rparr>
      else if fid = 3 then v\<lparr>v_mode := the (get_arg_string args ''mode'')\<rparr>
      else v)"

definition driver_signals :: "driver \<Rightarrow> signal_value list" where
  "driver_signals v =
     map (\<lambda>(i, x). make_signal_value i x QUALITY_OK)
       [(''mode'', make_string_val (v_mode v)),
        (''motor1_target'', make_int64_val (v_motor1_pwm v)), (''motor2_target'', make_int64_val (v_motor2_pwm v)),
        (''motor1_value'', make_int64_val (v_motor1_pwm v)), (''motor2_value'', make_int64_val (v_motor2_pwm v)),
        (''motor1_brake'', make_bool_val False), (''motor2_brake'', make_bool_val False),
        (''estop'', make_bool_val False), (''estop_count'', make_uint64_val 0)]"

definition driver_reply :: "string list \<Rightarrow> driver \<Rightarrow> adapter_read_result" where
  "driver_reply ids v =
     (if v_mode v = ''open_loop'' then read_values (filter (\<lambda>s. dcmt_should_include ids (sv_id s)) (driver_signals v))
      else read_error CODE_INTERNAL ''DCMT GET_STATE payload too short or malformed'')"

definition driver_off :: "driver \<Rightarrow> bool" where
  "driver_off v \<longleftrightarrow> v_mode v = ''open_loop'' \<and> v_motor1_pwm v = 0 \<and> v_motor2_pwm v = 0"

text \<open>The driver a simulated board is.\<close>

definition driver_of :: "contracts \<Rightarrow> device_state \<Rightarrow> driver" where
  "driver_of ct x =
     \<lparr>v_mode = dcmt_mode_to_string ct (d_dcmt_mode x), v_motor1_pwm = sint (d_dcmt_m1_pwm x), v_motor2_pwm = sint (d_dcmt_m2_pwm x)\<rparr>"

lemma driver_of_same: "same_controls x y \<Longrightarrow> driver_of ct x = driver_of ct y"
  by (simp add: same_controls_def same_outputs_def driver_of_def)

subsection \<open>A call does to the board what it does to the driver\<close>

lemma dcmt_apply_set:
  assumes "opcodes_ok ct" "labels_distinct ct" "d_type_id x = byte_of ct DCMT_TYPE_ID"
  shows "apply_set ct \<lparr>m_type_id = t, m_opcode = byte_of ct DCMT_OP_SET_OPEN_LOOP, m_data = le_bytes v @ le_bytes w\<rparr> x =
       x\<lparr>d_dcmt_m1_pwm := v, d_dcmt_m2_pwm := w\<rparr>"
    "apply_set ct \<lparr>m_type_id = t, m_opcode = byte_of ct DCMT_OP_SET_MODE, m_data = [m]\<rparr> x = x\<lparr>d_dcmt_mode := m\<rparr>"
    "p \<in> byte_of ct ` {DCMT_OP_SET_BRAKE, DCMT_OP_SET_SETPOINT, DCMT_OP_SET_PID, BREAD_OP_CLEAR_WATCHDOG_TRIP} \<Longrightarrow>
       driver_of ct (apply_set ct \<lparr>m_type_id = t, m_opcode = p, m_data = bs\<rparr> x) = driver_of ct x"
proof -
  let ?ops = "{DCMT_OP_SET_OPEN_LOOP, DCMT_OP_SET_MODE, DCMT_OP_SET_BRAKE, DCMT_OP_SET_SETPOINT, DCMT_OP_SET_PID,
     BREAD_OP_CLEAR_WATCHDOG_TRIP}"
  have "inj_on (byte_of ct) ?ops"
    using assms(1) by (auto simp: opcodes_ok_def shared_opcodes_def distinct_map intro: inj_on_subset)
  note op = inj_on_eq_iff [OF this]
  note * = labels_distinctD(1) [OF assms(2)] assms(3)
  show "apply_set ct \<lparr>m_type_id = t, m_opcode = byte_of ct DCMT_OP_SET_OPEN_LOOP, m_data = le_bytes v @ le_bytes w\<rparr> x =
       x\<lparr>d_dcmt_m1_pwm := v, d_dcmt_m2_pwm := w\<rparr>"
    using * by (simp add: apply_set_def read_u16_le_bytes)
  show "apply_set ct \<lparr>m_type_id = t, m_opcode = byte_of ct DCMT_OP_SET_MODE, m_data = [m]\<rparr> x = x\<lparr>d_dcmt_mode := m\<rparr>"
    using * by (simp add: apply_set_def op)
  assume "p \<in> byte_of ct ` {DCMT_OP_SET_BRAKE, DCMT_OP_SET_SETPOINT, DCMT_OP_SET_PID, BREAD_OP_CLEAR_WATCHDOG_TRIP}"
  then have "p \<noteq> byte_of ct DCMT_OP_SET_OPEN_LOOP" "p \<noteq> byte_of ct DCMT_OP_SET_MODE" by (auto simp: op)
  with * show "driver_of ct (apply_set ct \<lparr>m_type_id = t, m_opcode = p, m_data = bs\<rparr> x) = driver_of ct x"
    by (simp add: apply_set_def driver_of_def Let_def)
qed

lemma dcmt_mode_strings:
  assumes "labels_distinct ct"
  shows "dcmt_mode_to_string ct (byte_of ct DCMT_MODE_OPEN_LOOP) = ''open_loop''"
    "dcmt_mode_to_string ct (byte_of ct DCMT_MODE_CLOSED_POSITION) = ''closed_position''"
    "dcmt_mode_to_string ct (byte_of ct DCMT_MODE_CLOSED_SPEED) = ''closed_speed''"
  using labels_distinctD(2-4) [OF assms] by (auto simp: dcmt_mode_to_string_def)

lemma open_loop_string: "dcmt_mode_to_string ct m = ''open_loop'' \<longleftrightarrow> m = byte_of ct DCMT_MODE_OPEN_LOOP"
  by (simp add: dcmt_mode_to_string_def)

lemma driver_call_commutes:
  assumes "opcodes_ok ct" "labels_distinct ct" "d_type_id x = byte_of ct DCMT_TYPE_ID"
    and "dcmt_encode ct fid args = Inr (p, payload)"
  shows "driver_of ct (apply_set ct \<lparr>m_type_id = t, m_opcode = p, m_data = payload\<rparr> x) = driver_call fid args (driver_of ct x)"
proof -
  note board = dcmt_apply_set [OF assms(1-3), where t = t]
  have "fid \<in> {1, 2, 3, 4, 5, 6, 7}" using assms(4) by (auto simp: dcmt_encode_def split: if_splits)
  then consider "fid = 1" | "fid = 3" | "fid \<in> {2, 4, 5, 6, 7}" by auto
  then show ?thesis
  proof cases
    case 1
    with assms(4) show ?thesis
      by (auto simp: dcmt_encode_def dcmt_set_open_loop_def dcmt_int_pair_def board driver_of_def driver_call_def int_arg_def
          sint_word_of_int_16 split: option.splits if_splits)
  next
    case 2
    with assms(4) show ?thesis
      by (auto simp: dcmt_encode_def dcmt_set_mode_def board driver_of_def driver_call_def dcmt_mode_strings [OF assms(2)] Let_def
          split: option.splits if_splits)
  next
    case 3
    with assms(4) have "p \<in> byte_of ct ` {DCMT_OP_SET_BRAKE, DCMT_OP_SET_SETPOINT, DCMT_OP_SET_PID, BREAD_OP_CLEAR_WATCHDOG_TRIP}"
      by (auto simp: dcmt_encode_def dcmt_set_brake_def dcmt_set_setpoint_def dcmt_int_pair_def dcmt_set_gains_def
          split: option.splits if_splits)
    with 3 board(3) show ?thesis by (auto simp: driver_call_def)
  qed
qed

subsection \<open>A read returns the driver\<close>

text \<open>The sentinel of the contract is not a valid value.\<close>

definition sentinel_ok :: "contracts \<Rightarrow> bool" where
  "sentinel_ok ct \<longleftrightarrow> \<not> bread_is_valid_i16 ct (BREAD_INVALID_I16 ct)"

lemma canned_dcmt_closed_parse:
  assumes "parsers_ok ct" "sentinel_ok ct" "d_dcmt_mode x \<noteq> byte_of ct DCMT_MODE_OPEN_LOOP"
  shows "dcmt_parse_state ct (build_dcmt_state_payload ct x) = None"
proof -
  have "\<exists>raw. dcmt_parse_state_payload ct (build_dcmt_state_payload ct x) = Some raw \<and>
      dr_mode raw = d_dcmt_mode x \<and> dr_sp1 raw = BREAD_INVALID_I16 ct"
    unfolding build_dcmt_state_payload_def Let_def using assms(1) [unfolded parsers_ok_def] by simp
  with assms(2,3) show ?thesis by (auto simp: dcmt_parse_state_def sentinel_ok_def Let_def)
qed

lemma canned_dcmt_closed_read:
  assumes "codec_ok ct" "parsers_ok ct" "labels_distinct ct" "sentinel_ok ct" "has_device ss (device_byte d) x"
    and "d_type_id x = byte_of ct DCMT_TYPE_ID" "d_dcmt_mode x \<noteq> byte_of ct DCMT_MODE_OPEN_LOOP"
  shows "fst (dcmt_read_signals ct (canned_transport ct sys steady scan) d ids ss) =
     read_error CODE_INTERNAL ''DCMT GET_STATE payload too short or malformed''"
proof -
  let ?p = "byte_of ct DCMT_OP_GET_STATE"
  have "reply_payload ct (staged ?p x) = (Inr (build_dcmt_state_payload ct (staged ?p x)), staged ?p x)"
    using assms(6) labels_distinctD(1) [OF assms(3)]
    by (simp add: reply_payload_def Let_def) (simp add: staged_def)
  from canned_session_query [OF assms(1,5) this, of sys steady scan empty_frame]
  show ?thesis
    using assms(6,7) canned_dcmt_closed_parse [OF assms(2,4), of "staged ?p x"]
    by (auto simp: dcmt_read_signals_def Let_def staged_def)
qed

lemma driver_signals_of:
  assumes "labels_distinct ct" "d_dcmt_mode x = byte_of ct DCMT_MODE_OPEN_LOOP"
  shows "dcmt_signal_values ct \<lparr>dc_mode = d_dcmt_mode x, dc_target1 = d_dcmt_m1_pwm x, dc_target2 = d_dcmt_m2_pwm x,
       dc_value1 = d_dcmt_m1_pwm x, dc_value2 = d_dcmt_m2_pwm x, dc_brakes = 0, dc_estop = 0, dc_estop_count = 0\<rparr> =
     driver_signals (driver_of ct x)"
  by (simp add: dcmt_signal_values_def driver_signals_def driver_of_def assms(2) dcmt_mode_strings [OF assms(1)])

lemma driver_reads:
  assumes "boards_ok ct" "sentinel_ok ct" "has_device ss (device_byte d) x" "d_type_id x = byte_of ct DCMT_TYPE_ID"
  shows "fst (dcmt_read_signals ct (canned_transport ct sys steady scan) d ids ss) = driver_reply ids (driver_of ct x)"
proof (cases "d_dcmt_mode x = byte_of ct DCMT_MODE_OPEN_LOOP")
  case True
  have ok: "codec_ok ct" "parsers_ok ct" "labels_distinct ct" using assms(1) by (simp_all add: boards_ok_def)
  have "v_mode (driver_of ct x) = ''open_loop''" using True by (simp add: driver_of_def open_loop_string)
  with canned_dcmt_read [OF ok(1,2) assms(3,4) True ok(3), of sys steady scan ids] show ?thesis
    unfolding driver_signals_of [OF ok(3) True] by (auto simp: driver_reply_def)
next
  case False
  with canned_dcmt_closed_read [OF _ _ _ assms(2-4) False, of sys steady scan ids] assms(1) show ?thesis
    by (simp add: boards_ok_def driver_reply_def driver_of_def open_loop_string)
qed

interpretation driver: board_machine ct Dcmt "driver_of ct" driver_call driver_reply "\<lambda>d. sentinel_ok ct" driver_off
proof
  show "driver_of ct x = driver_of ct y" if "same_controls x y" for x y using that by (rule driver_of_same)
  show "driver_off (driver_of ct x)" if "outputs_safe ct Dcmt x" for x
    using that by (simp add: driver_off_def driver_of_def open_loop_string)
next
  fix x :: device_state and fid args b f
  assume *: "boards_ok ct" "d_type_id x = bread_type_id ct Dcmt" "build_frame_for ct Dcmt fid args = (b, f)" "cr_ok b"
  then obtain p payload where e: "dcmt_encode ct fid args = Inr (p, payload)" "f = frame_of (byte_of ct DCMT_TYPE_ID) p payload"
    using dcmt_encode_errors [of ct fid args]
    by (auto simp: dcmt_build_frame_def finish_frame_def split: sum.splits)
  with * driver_call_commutes [OF _ _ _ e(1), of x "byte_of ct DCMT_TYPE_ID"]
  show "driver_of ct (apply_set ct (populate_message f) x) = driver_call fid args (driver_of ct x)"
    by (simp add: boards_ok_def populate_message_def frame_of_def)
next
  fix d ss x sys steady scan ids
  assume "boards_ok ct" "sentinel_ok ct" "has_device ss (device_byte d) x" "d_type_id x = bread_type_id ct Dcmt"
  with driver_reads [of ct ss d x sys steady scan ids]
  show "fst (ad_read_signals (adapter_for ct (canned_transport ct sys steady scan) Dcmt) d ids ss) = driver_reply ids (driver_of ct x)"
    by simp
qed

text \<open>
  C2: a motor driver configured on a \<open>mock://\<close> bus behaves, from start-up on, as the abstract driver does. Start-up leaves
  it in open loop at zero. Through any sequence of calls, reads and health requests, on this board and on the others, with
  the keepalive's thread waking at any time between them, each call on this board is answered with ok exactly when the board publishes
  the function, the arguments are valid and the mode is one its encoders allow; each read of it returns exactly the signals asked
  for, with the values that the calls accepted so far give, or an error in a closed loop, which the simulated board cannot report.
\<close>

theorem mock_driver_follows_calls:
  assumes "boards_ok ct" "acks_seeded ct" "plain_mock ct pf (bus_path c)" "mock_config c" "outputs_policy c = Safe"
    and "distinct (map spec_id (config_devices c))" "s \<in> set (config_devices c)" "spec_type s = Dcmt" "sentinel_ok ct"
  shows "\<exists>v. driver_off v \<and> (\<forall>acts. follows driver_call driver_reply ct (seed_device ct claim_key c s) acts
      (fst (perform_all ct (platform_transport ct pf) acts (initialize ct claim_key pf c budget clk g0))) v)"
  using assms by (rule driver.mock_board_follows)

theorem mock_driver_follows_calls_witness:
  "let args = [''motor1_pwm'' \<mapsto> make_int64_val 255, ''motor2_pwm'' \<mapsto> make_int64_val (- 40)];
       too_fast = [''motor1_pwm'' \<mapsto> make_int64_val 256, ''motor2_pwm'' \<mapsto> make_int64_val 0];
       acts = [Calls ''pump'' 1 args, Reads ''heat'' [], Calls ''pump'' 1 too_fast, Wakes 100, Reads ''pump'' [''motor2_value'']];
       as = fst (perform_all sample_contracts (platform_transport sample_contracts sample_platform) acts bench_start)
   in (\<exists>r. as ! 0 = CallAnswer r \<and> cr_ok r) \<and> (\<exists>r. as ! 2 = CallAnswer r \<and> \<not> cr_ok r) \<and>
      as ! 4 = ReadAnswer (read_values [make_signal_value ''motor2_value'' (make_int64_val (- 40)) QUALITY_OK])"
proof -
  let ?s = "(sample_spec ''pump'' Dcmt 20)\<lparr>spec_command_watchdog_ms := 300\<rparr>"
  let ?d = "bench_device ?s"
    and ?args = "[''motor1_pwm'' \<mapsto> make_int64_val 255, ''motor2_pwm'' \<mapsto> make_int64_val (- 40)]"
    and ?fast = "[''motor1_pwm'' \<mapsto> make_int64_val 256, ''motor2_pwm'' \<mapsto> make_int64_val 0]"
  let ?acts = "[Calls ''pump'' 1 ?args, Reads ''heat'' [], Calls ''pump'' 1 ?fast, Wakes 100, Reads ''pump'' [''motor2_value'']]"
  let ?as = "fst (perform_all sample_contracts (platform_transport sample_contracts sample_platform) ?acts bench_start)"
  have c: "distinct (map spec_id (config_devices bench_config))" "?s \<in> set (config_devices bench_config)" "spec_type ?s = Dcmt"
    "sentinel_ok sample_contracts"
    by (simp_all add: bench_config_def sample_config_def sentinel_ok_def)
  obtain v where v: "follows driver_call driver_reply sample_contracts ?d ?acts ?as v" "driver_off v"
    using mock_driver_follows_calls [OF sample_boards_ok bench_ok(4,1,2,3) c, where budget = 0 and ?g0.0 = new_globals
        and claim_key = "\<lambda>_ _. []" and clk = "\<lparr>at_entry = 0, at_start = 0, at_ready = 0, at_failure = 0, at_probe = \<lambda>_. 0\<rparr>"] by blast
  have id: "device_id_of ?d = ''pump''" "dev_type ?d = Dcmt" unfolding seed_device_simps by simp_all
  have fn: "function_exists ?d 1 []"
    unfolding function_exists_def bench_board_functions
    by (simp add: build_dcmt_capabilities_def dcmt_functions_def function_with_def has_flag_def)
  have enc: "\<not> needs_encoders sample_contracts ?d f" for f using bench_board_profiles(3) by (simp add: needs_encoders_def)
  have a: "accepts sample_contracts ?d 1 ?args" "\<not> accepts sample_contracts ?d 1 ?fast"
    unfolding accepts_def id build_frame_for.simps withheld_def
    using fn enc by (simp_all add: dcmt_build_frame_def dcmt_encode_def dcmt_set_open_loop_def dcmt_int_pair_def
        finish_frame_def get_arg_defs)
  have "driver_reply [''motor2_value''] (driver_call 1 ?args v) =
      read_values [make_signal_value ''motor2_value'' (make_int64_val (- 40)) QUALITY_OK]"
    using v(2) by (simp add: driver_reply_def driver_signals_def driver_call_def driver_off_def dcmt_should_include_def int_arg_def get_arg_defs)
  moreover obtain r0 r1 r2 r4 where as: "?as = [CallAnswer r0, ReadAnswer r1, CallAnswer r2, NoAnswer, ReadAnswer r4]"
    by (simp add: apfst_def map_prod_def split_def Let_def)
  ultimately show ?thesis
    using v(1) [unfolded as] a by (simp only: Let_def as follows.simps id) simp
qed

end
