(* ===== verification/Transient_Faults.thy ===== *)
theory Transient_Faults
  imports Request_Relations Board_Spec
begin

text \<open>
  What the retries are for. A fault plan says which operations of the I2C bus fail, and with what; a
  failed operation does not reach the device. When the plan fails at most \<open>retry_count\<close>
  operations out of any \<open>2 * (retry_count + 1)\<close> in a row (as many as the attempts of one query make),
  and none with an errno of ETIMEDOUT, which the session takes for a bus that is stuck and does not retry,
  then no caller can tell: every request has the same answer and every board the same state as
  on a bus without faults, no recovery is noted, and the only traces are the count of retried attempts and the
  time of the last success.
\<close>

subsection \<open>A bus that fails now and then\<close>

definition flaky_bus ::
  "(nat \<Rightarrow> i2c_status option) \<Rightarrow> ('b \<times> nat \<Rightarrow> int) \<Rightarrow> ('b \<times> nat \<Rightarrow> int) \<Rightarrow> 'b i2c_bus \<Rightarrow> ('b \<times> nat) i2c_bus" where
  "flaky_bus plan sys steady bus =
     \<lparr>bus_open = (\<lambda>(b, n). let (st, b') = bus_open bus b in (st, b', n)),
      bus_close = (\<lambda>(b, n). (bus_close bus b, n)),
      bus_write = (\<lambda>a bs (b, n). case plan n of
          Some st \<Rightarrow> (st, b, n + 1)
        | None \<Rightarrow> let (st, b') = bus_write bus a bs b in (st, b', n + 1)),
      bus_read = (\<lambda>a len t (b, n). case plan n of
          Some st \<Rightarrow> (st, [], b, n + 1)
        | None \<Rightarrow> let (st, bs, b') = bus_read bus a len t b in (st, bs, b', n + 1)),
      bus_delay_us = (\<lambda>u (b, n). (bus_delay_us bus u b, n)),
      bus_system_now = sys, bus_steady_now = steady\<rparr>"

text \<open>The failures that are retried, and how many of them there are between two operations.\<close>

fun transient :: "i2c_status \<Rightarrow> bool" where
  "transient I2cOk \<longleftrightarrow> False"
| "transient (I2cFailure code msg errno) \<longleftrightarrow> errno \<noteq> ETIMEDOUT"

definition faults :: "(nat \<Rightarrow> i2c_status option) \<Rightarrow> nat \<Rightarrow> nat \<Rightarrow> nat" where
  "faults plan i j = length (filter (\<lambda>k. plan k \<noteq> None) [i..<j])"

definition rare :: "nat \<Rightarrow> (nat \<Rightarrow> i2c_status option) \<Rightarrow> bool" where
  "rare n plan \<longleftrightarrow> (\<forall>i. faults plan i (i + 2 * (n + 1)) \<le> n) \<and> (\<forall>k. case plan k of None \<Rightarrow> True | Some st \<Rightarrow> transient st)"

lemma faults_same [simp]: "faults plan i i = 0"
  by (simp add: faults_def)

lemma faults_Suc: "i \<le> j \<Longrightarrow> faults plan i (Suc j) = faults plan i j + (if plan j = None then 0 else 1)"
  by (simp add: faults_def)

lemma faults_mono:
  assumes "i \<le> j" "j \<le> k"
  shows "faults plan i j \<le> faults plan i k"
proof -
  have "[i..<k] = [i..<j] @ [j..<k]" using assms by (metis le_Suc_ex upt_add_eq_append)
  then show ?thesis by (simp add: faults_def)
qed

lemma rare_bound: "rare n plan \<Longrightarrow> i \<le> j \<Longrightarrow> j \<le> i + 2 * (n + 1) \<Longrightarrow> faults plan i j \<le> n"
  using faults_mono [of i j "i + 2 * (n + 1)" plan] by (auto simp: rare_def intro: order_trans)

lemma rare_transient: "rare n plan \<Longrightarrow> plan k = Some st \<Longrightarrow> transient st"
  by (auto simp: rare_def dest!: spec [of _ k])

lemma transient_status:
  "transient st \<Longrightarrow> \<not> i2c_ok st"
  "transient st \<Longrightarrow> code \<in> {WriteFailed, ReadFailed, Timeout} \<Longrightarrow>
     \<not> status_ok (status_from_i2c code why st) \<and> \<not> gives_up (status_from_i2c code why st)"
  by (cases st; auto simp: failure_def status_ok_def gives_up_def)+

subsection \<open>The retry loop outlasts the faults\<close>

text \<open>
  \<open>P k\<close> is what holds after \<open>k\<close> failed attempts. If an attempt succeeds with \<open>Q\<close> or fails in a way that is
  retried, and there cannot be as many failures as attempts, then the operation succeeds.
\<close>

lemma retry_loop_succeeds:
  assumes step: "\<And>k s. P k s \<Longrightarrow> \<exists>st s'. fn s = (st, s') \<and> (if status_ok st then st = success \<and> Q s' else \<not> gives_up st \<and> P (Suc k) s')"
    and stop: "\<And>s. \<not> P N s"
  shows "P k s \<Longrightarrow> k < N \<Longrightarrow>
    \<exists>j s'. retry_loop (int N) fn (int k + 1) prev s = (success\<lparr>st_attempts := j\<rparr>, s') \<and> Q s'"
proof (induction "N - k" arbitrary: k s prev rule: less_induct)
  case less
  obtain st s' where f: "fn s = (st, s')" "if status_ok st then st = success \<and> Q s' else \<not> gives_up st \<and> P (Suc k) s'"
    using step [OF less.prems(1)] by blast
  show ?case
  proof (cases "status_ok st")
    case True
    with f less.prems(2) show ?thesis
      by (subst retry_loop.simps) (auto simp: Let_def status_ok_def success_def)
  next
    case False
    then have p: "P (Suc k) s'" "\<not> gives_up st" using f(2) by simp_all
    then have "Suc k < N" using stop less.prems(2) by (metis Suc_lessI)
    then have "N - Suc k < N - k" by simp
    from less.hyps [OF this p(1) \<open>Suc k < N\<close>, of "st\<lparr>st_attempts := int k + 1\<rparr>"] obtain j s'' where
      "retry_loop (int N) fn (int k + 1 + 1) (st\<lparr>st_attempts := int k + 1\<rparr>) s' = (success\<lparr>st_attempts := j\<rparr>, s'')" "Q s''"
      by (auto simp: add.commute)
    with f(1) False p(2) \<open>Suc k < N\<close> show ?thesis
      by (subst retry_loop.simps) (auto simp: Let_def status_ok_def gives_up_def)
  qed
qed

lemma execute_with_retry_succeeds:
  assumes "\<And>k s. P k s \<Longrightarrow> \<exists>st s'. fn s = (st, s') \<and> (if status_ok st then st = success \<and> Q s' else \<not> gives_up st \<and> P (Suc k) s')"
    and "\<And>s. \<not> P N s" "P 0 s" "max_attempts opts = int N"
  shows "\<exists>j s'. execute_with_retry opts op fn s = (success\<lparr>st_attempts := j\<rparr>, s') \<and> Q s'"
proof -
  have "0 < N" using assms(2,3) by (cases N) auto
  from retry_loop_succeeds [where P = P and Q = Q and fn = fn and N = N and k = 0, OF assms(1-3) this]
  show ?thesis using assms(4) by (simp add: execute_with_retry_def)
qed

subsection \<open>Sends and queries over a flaky bus\<close>

text \<open>
  A bus whose devices stage a reply anew when they are asked for it twice. \<open>reach\<close> says where the bus is after
  some attempts: \<open>k\<close> of its operations since the \<open>i\<close>-th have failed, among at most \<open>2 * k\<close>.
\<close>

definition reach ::
  "(nat \<Rightarrow> i2c_status option) \<Rightarrow> nat \<Rightarrow> 'b set \<Rightarrow> nat \<Rightarrow> ('b \<times> nat) crumbs_transport \<Rightarrow> bool" where
  "reach plan i bs k t \<longleftrightarrow> ct_open t \<and>
     (\<exists>b p. ct_bus t = Some (b, p) \<and> b \<in> bs \<and> i \<le> p \<and> p \<le> i + 2 * k \<and> k \<le> faults plan i p)"

definition at_bus :: "'b \<Rightarrow> ('b \<times> nat) crumbs_transport \<Rightarrow> bool" where
  "at_bus b t \<longleftrightarrow> ct_open t \<and> map_option fst (ct_bus t) = Some b"

lemma at_bus_start: "at_bus b t \<Longrightarrow> b \<in> bs \<Longrightarrow> \<exists>i. reach plan i bs 0 t"
  by (auto simp: reach_def at_bus_def)

lemma reach_stops: "rare n plan \<Longrightarrow> \<not> reach plan i bs (n + 1) t"
  using rare_bound [of n plan i] by (fastforce simp: reach_def)

locale restaging_bus = framed_bus +
  assumes restage: "accept a (populate_message (query_frame p)) (accept a (populate_message (query_frame p)) b) =
    accept a (populate_message (query_frame p)) b"
begin

lemma flaky_send:
  assumes "rare n plan" "codec_ok ct" "up b" "ct_open t" "ct_bus t = Some (b, p)" "length (fr_payload f) \<le> 27"
  shows "transport_send ct (flaky_bus plan sys steady bus) a f t =
    (case plan p of
       Some st \<Rightarrow> (status_from_i2c WriteFailed (''failed to send CRUMBS frame to '' @ format_i2c_address (uint a)) st,
           t\<lparr>ct_bus := Some (b, p + 1)\<rparr>)
     | None \<Rightarrow> (success, t\<lparr>ct_bus := Some (accept a (populate_message f) b, p + 1)\<rparr>))"
  using assms(2-) codec_okD [OF assms(2), of "populate_message f"] write_accept [of b "populate_message f" a]
    transient_status(1) [OF rare_transient [OF assms(1)]]
  by (simp add: transport_send_def validate_frame_def populate_message_def flaky_bus_def Let_def split: option.splits)

lemma flaky_read:
  assumes "rare n plan" "codec_ok ct" "up b" "ct_open t" "ct_bus t = Some (b, p)" "answer a b = Some (m, b')"
  shows "transport_read ct (flaky_bus plan sys steady bus) a timeout g t =
    (case plan p of
       Some st \<Rightarrow> (status_from_i2c (if is_timeout st then Timeout else ReadFailed)
           (''failed to read CRUMBS frame from '' @ format_i2c_address (uint a)) st, g, t\<lparr>ct_bus := Some (b, p + 1)\<rparr>)
     | None \<Rightarrow> (success, to_raw_frame m, t\<lparr>ct_bus := Some (b', p + 1)\<rparr>))"
proof -
  obtain pad where "bus_read bus a (num_of ct CRUMBS_MESSAGE_MAX_SIZE) timeout b = (I2cOk, crumbs_encode_message ct m @ pad, b')"
    using read_answer assms(2,3,6) by blast
  with assms(4,5) transient_status(1) [OF rare_transient [OF assms(1)]] show ?thesis
    by (auto simp: transport_read_def flaky_bus_def decode_received_padded [OF assms(2) answer_fits [OF assms(6)]]
        split: option.splits)
qed

text \<open>One attempt at a send, and one at a query.\<close>

lemma send_attempt:
  assumes "rare n plan" "codec_ok ct" "up b" "length (fr_payload f) \<le> 27" "reach plan i {b} k t"
  shows "\<exists>st t'. transport_send ct (flaky_bus plan sys steady bus) a f t = (st, t') \<and>
    (if status_ok st then st = success \<and> at_bus (accept a (populate_message f) b) t'
     else \<not> gives_up st \<and> reach plan i {b} (Suc k) t')"
proof -
  obtain p where t: "ct_open t" "ct_bus t = Some (b, p)" "i \<le> p" "p \<le> i + 2 * k" "k \<le> faults plan i p"
    using assms(5) by (auto simp: reach_def)
  note send = flaky_send [OF assms(1-3) t(1,2) assms(4), of sys steady a]
  show ?thesis
  proof (cases "plan p")
    case None
    with t(1) show ?thesis unfolding send by (simp add: at_bus_def status_ok_def success_def)
  next
    case (Some st)
    note tr = transient_status [OF rare_transient [OF assms(1) Some]]
    have "reach plan i {b} (Suc k) (t\<lparr>ct_bus := Some (b, p + 1)\<rparr>)"
      using t Some by (simp add: reach_def faults_Suc)
    with tr Some show ?thesis unfolding send by simp
  qed
qed

lemma query_attempt_flaky:
  assumes "rare n plan" "codec_ok ct" "up b" "answer a (accept a (populate_message (query_frame q)) b) = Some (m, b')"
    and "reach plan i {b, accept a (populate_message (query_frame q)) b} k t"
  shows "\<exists>st g' t'. query_attempt (crumbs_over_i2c ct (flaky_bus plan sys steady bus) scan) opts a q (g, t) = (st, g', t') \<and>
    (if status_ok st then st = success \<and> g' = to_raw_frame m \<and> at_bus b' t'
     else \<not> gives_up st \<and> reach plan i {b, accept a (populate_message (query_frame q)) b} (Suc k) t')"
proof -
  let ?b = "accept a (populate_message (query_frame q)) b" and ?bus = "flaky_bus plan sys steady bus"
  obtain b0 p where t: "ct_open t" "ct_bus t = Some (b0, p)" "i \<le> p" "p \<le> i + 2 * k" "k \<le> faults plan i p"
    and b0: "b0 = b \<or> b0 = ?b" using assms(5) by (auto simp: reach_def)
  have up: "up b0" "up ?b" using b0 assms(3) accept_up by auto
  have staged: "accept a (populate_message (query_frame q)) b0 = ?b" using b0 restage by auto
  have len: "length (fr_payload (query_frame q)) \<le> 27" by (simp add: query_frame_def)
  note send = flaky_send [OF assms(1,2) up(1) t(1,2) len, of sys steady a, unfolded staged]
  show ?thesis
  proof (cases "plan p")
    case (Some st)
    note tr = transient_status [OF rare_transient [OF assms(1) Some]]
    have "reach plan i {b, ?b} (Suc k) (t\<lparr>ct_bus := Some (b0, p + 1)\<rparr>)"
      using t b0 Some by (auto simp: reach_def faults_Suc)
    with tr Some show ?thesis by (simp add: query_attempt_def send)
  next
    case None
    let ?t = "t\<lparr>ct_bus := Some (?b, p + 1)\<rparr>"
    have delay: "transport_delay_us ?bus u ?t = ?t" for u
      by (simp add: transport_delay_us_def flaky_bus_def delay_up)
    have "ct_open ?t" "ct_bus ?t = Some (?b, p + 1)" using t(1) by simp_all
    note read = flaky_read [OF assms(1,2) up(2) this assms(4), of sys steady "read_timeout_us opts" g]
    have attempt: "query_attempt (crumbs_over_i2c ct ?bus scan) opts a q (g, t) = transport_read ct ?bus a (read_timeout_us opts) g ?t"
      using None by (simp add: query_attempt_def send delay [simplified] status_ok_def success_def)
    show ?thesis
    proof (cases "plan (p + 1)")
      case none: None
      with t(1) show ?thesis unfolding attempt read by (simp add: at_bus_def status_ok_def success_def)
    next
      case (Some st)
      note tr = transient_status [OF rare_transient [OF assms(1) Some]]
      have "reach plan i {b, ?b} (Suc k) (?t\<lparr>ct_bus := Some (?b, p + 1 + 1)\<rparr>)"
        using t None Some faults_Suc [of i p plan] faults_Suc [of i "p + 1" plan] by (auto simp: reach_def)
      with tr Some show ?thesis unfolding attempt read by simp
    qed
  qed
qed

text \<open>Whole session operations: they succeed, after some number of attempts, and leave the bus as on one attempt that meets no fault.\<close>

lemma flaky_session_send:
  assumes "rare n plan" "max_attempts (s_options ss) = int n + 1" "codec_ok ct" "at_bus b (s_transport ss)" "up b"
    and "status_ok (validate_address a)" "length (fr_payload f) \<le> 27"
  shows "\<exists>j t'. session_send (crumbs_over_i2c ct (flaky_bus plan sys steady bus) scan) a f ss =
      (success\<lparr>st_attempts := j\<rparr>,
       record_outcome (crumbs_over_i2c ct (flaky_bus plan sys steady bus) scan) a (success\<lparr>st_attempts := j\<rparr>) (ss\<lparr>s_transport := t'\<rparr>)) \<and>
    at_bus (accept a (populate_message f) b) t'"
proof -
  obtain i where "reach plan i {b} 0 (s_transport ss)" using at_bus_start [OF assms(4)] by blast
  with execute_with_retry_succeeds [where P = "reach plan i {b}" and N = "n + 1" and s = "s_transport ss" and opts = "s_options ss"
      and op = "''send''" and fn = "transport_send ct (flaky_bus plan sys steady bus) a f" and Q = "at_bus (accept a (populate_message f) b)",
      OF send_attempt [OF assms(1,3,5,7)] reach_stops [OF assms(1)]] assms(2)
  obtain j t' where "execute_with_retry (s_options ss) ''send'' (transport_send ct (flaky_bus plan sys steady bus) a f) (s_transport ss) =
      (success\<lparr>st_attempts := j\<rparr>, t')" "at_bus (accept a (populate_message f) b) t'" by auto
  then show ?thesis
    using assms(4,6,7) by (auto simp: session_send_def session_validate_frame_def kMaxPayloadBytes_def at_bus_def)
qed

lemma flaky_query_read:
  assumes "rare n plan" "max_attempts (s_options ss) = int n + 1" "codec_ok ct" "at_bus b (s_transport ss)" "up b"
    and "status_ok (validate_address a)" "answer a (accept a (populate_message (query_frame q)) b) = Some (m, b')"
  shows "\<exists>j t'. query_read (crumbs_over_i2c ct (flaky_bus plan sys steady bus) scan) a q g ss =
      (success\<lparr>st_attempts := j\<rparr>, to_raw_frame m,
       record_outcome (crumbs_over_i2c ct (flaky_bus plan sys steady bus) scan) a (success\<lparr>st_attempts := j\<rparr>) (ss\<lparr>s_transport := t'\<rparr>)) \<and>
    at_bus b' t'"
proof -
  let ?tr = "crumbs_over_i2c ct (flaky_bus plan sys steady bus) scan" and ?b = "accept a (populate_message (query_frame q)) b"
  obtain i where start: "reach plan i {b, ?b} 0 (s_transport ss)" using at_bus_start [OF assms(4)] by blast
  have step: "\<exists>st s'. query_attempt ?tr (s_options ss) a q s = (st, s') \<and>
      (if status_ok st then st = success \<and> (fst s' = to_raw_frame m \<and> at_bus b' (snd s'))
       else \<not> gives_up st \<and> reach plan i {b, ?b} (Suc k) (snd s'))" if "reach plan i {b, ?b} k (snd s)" for k s
    using query_attempt_flaky [OF assms(1,3,5,7) that, of sys steady scan "s_options ss" "fst s"] by (force split: if_splits)
  from execute_with_retry_succeeds [where P = "\<lambda>k s. reach plan i {b, ?b} k (snd s)" and N = "n + 1" and
      s = "(g, s_transport ss)" and opts = "s_options ss" and op = "''query_read''" and fn = "query_attempt ?tr (s_options ss) a q" and
      Q = "\<lambda>s'. fst s' = to_raw_frame m \<and> at_bus b' (snd s')", OF step reach_stops [OF assms(1)]] start assms(2)
  obtain j t' where "execute_with_retry (s_options ss) ''query_read'' (query_attempt ?tr (s_options ss) a q) (g, s_transport ss) =
      (success\<lparr>st_attempts := j\<rparr>, to_raw_frame m, t')" "at_bus b' t'" by auto
  then show ?thesis using assms(4,6) by (auto simp: query_read_def at_bus_def)
qed

end

interpretation canned_restage: restaging_bus "canned_i2c ct sys steady" ct cb_opened "canned_answer ct" "canned_accept ct"
  by unfold_locales (simp add: canned_accept_def apply_message_def populate_message_def query_frame_def split: option.splits)

subsection \<open>The session with and without the faults\<close>

abbreviation faulty_transport ::
  "contracts \<Rightarrow> (nat \<Rightarrow> i2c_status option) \<Rightarrow> canned_bus i2c_bus \<Rightarrow> (canned_bus \<times> nat \<Rightarrow> int) \<Rightarrow> (canned_bus \<times> nat \<Rightarrow> int) \<Rightarrow>
   (canned_bus \<times> nat) controller_scan \<Rightarrow> (canned_bus \<times> nat) crumbs_transport transport" where
  "faulty_transport ct plan bus sys steady scan \<equiv> crumbs_over_i2c ct (flaky_bus plan sys steady bus) scan"

text \<open>What is in the books apart from the retries and the time.\<close>

definition plain_counters :: "address_stats \<Rightarrow> u64 \<times> u64 \<times> u64 \<times> bool" where
  "plain_counters st = (n_ok st, n_failed st, n_rejected st, has_success st)"

text \<open>
  The same bus, with boards that have nothing injected, the same books for them up to the retries, and no
  failure or recovery noted at any of them.
\<close>

definition unnoticed ::
  "contracts \<Rightarrow> inventory_device set \<Rightarrow> int \<Rightarrow> (canned_bus \<times> nat) crumbs_transport session \<Rightarrow> canned_bus crumbs_transport session \<Rightarrow> bool" where
  "unnoticed ct ds r s t \<longleftrightarrow> s_options s = s_options t \<and> max_attempts (s_options t) = r \<and>
     (\<exists>cb. at_bus cb (s_transport s) \<and> on_bus t cb \<and> cb_opened cb \<and>
        (\<forall>d \<in> ds. \<exists>x. cb_devices cb (device_byte d) = Some x \<and> fresh ct d x)) \<and>
     (\<forall>d \<in> ds. status_ok (validate_address (device_byte d)) \<and> \<not> flagged (device_byte d) s \<and> \<not> flagged (device_byte d) t \<and>
        plain_counters (stats_of s (device_byte d)) = plain_counters (stats_of t (device_byte d)))"

text \<open>Both sides note a success, after however many attempts.\<close>

lemma unnoticed_outcome:
  assumes "unnoticed ct ds r s t" "status_ok st" "status_ok st'" "at_bus cb v" "on_bus (t\<lparr>s_transport := w\<rparr>) cb" "cb_opened cb"
    and "\<forall>d \<in> ds. \<exists>x. cb_devices cb (device_byte d) = Some x \<and> fresh ct d x"
  shows "unnoticed ct ds r (record_outcome tr1 a st (s\<lparr>s_transport := v\<rparr>)) (record_outcome tr2 a st' (t\<lparr>s_transport := w\<rparr>))"
  using assms
  by (auto simp: unnoticed_def plain_counters_def stats_of_def record_outcome_def on_bus_def flagged_def last_op_failed_def Let_def)

lemma fresh_put:
  assumes "\<forall>d \<in> ds. \<exists>x. cb_devices cb (device_byte d) = Some x \<and> fresh ct d x" "d \<in> ds" "fresh ct d y"
    and "inj_on device_byte ds" "e \<in> ds"
  shows "\<exists>x. cb_devices (put_device (device_byte d) y cb) (device_byte e) = Some x \<and> fresh ct e x"
  using assms by (cases "e = d") (auto dest: inj_onD)

text \<open>On the side without faults a success is noted too.\<close>

lemma clean_send:
  assumes "codec_ok ct" "on_bus t cb" "cb_opened cb" "status_ok (validate_address a)" "length (fr_payload f) \<le> 27"
  obtains w where "session_send (canned_transport ct sys steady scan) a f t =
      (ok_once, record_outcome (canned_transport ct sys steady scan) a ok_once (t\<lparr>s_transport := w\<rparr>))"
    "on_bus (t\<lparr>s_transport := w\<rparr>) (canned_accept ct a (populate_message f) cb)"
proof -
  obtain t' where t': "session_send (canned_transport ct sys steady scan) a f t = (ok_once, t')"
    "on_bus t' (canned_accept ct a (populate_message f) cb)" using canned.session_send_accept [OF assms] by blast
  from session_send_cases [OF t'(1)] not_io_fails [of ok_once] that t' show ?thesis by auto
qed

lemma clean_query:
  assumes "codec_ok ct" "on_bus t cb" "cb_opened cb" "status_ok (validate_address a)"
    and "canned_answer ct a (canned_accept ct a (populate_message (query_frame p)) cb) = Some (m, cb')"
  obtains w where "query_read (canned_transport ct sys steady scan) a p g t =
      (ok_once, to_raw_frame m, record_outcome (canned_transport ct sys steady scan) a ok_once (t\<lparr>s_transport := w\<rparr>))"
    "on_bus (t\<lparr>s_transport := w\<rparr>) cb'"
proof -
  obtain t' where t': "query_read (canned_transport ct sys steady scan) a p g t = (ok_once, to_raw_frame m, t')" "on_bus t' cb'"
    using canned.query_read_answer [OF assms] by blast
  from query_read_cases [OF t'(1)] not_io_fails [of ok_once] that t' show ?thesis by auto
qed

lemma same_status_success: "same_status (success\<lparr>st_attempts := j\<rparr>) ok_once" "status_ok (success\<lparr>st_attempts := j\<rparr>)"
  by (simp_all add: same_status_def ok_once_def success_def status_ok_def)

text \<open>The sends and queries of an operation on one of the boards go unnoticed.\<close>

lemma unnoticed_send:
  assumes "rare n plan" "codec_ok ct" "inj_on device_byte ds" "d \<in> ds" "unnoticed ct ds (int n + 1) s t"
  shows "rel_prod same_status (unnoticed ct ds (int n + 1))
    (session_send (faulty_transport ct plan (canned_i2c ct sys steady) sys' steady' scan') (device_byte d) f s)
    (session_send (canned_transport ct sys steady scan) (device_byte d) f t)"
proof -
  let ?tr = "faulty_transport ct plan (canned_i2c ct sys steady) sys' steady' scan'"
  obtain cb where cb: "at_bus cb (s_transport s)" "on_bus t cb" "cb_opened cb"
    and x: "\<forall>d \<in> ds. \<exists>x. cb_devices cb (device_byte d) = Some x \<and> fresh ct d x"
    and opts: "max_attempts (s_options s) = int n + 1" and a: "status_ok (validate_address (device_byte d))"
    using assms(4,5) by (auto simp: unnoticed_def)
  show ?thesis
  proof (cases "length (fr_payload f) \<le> 27")
    case True
    let ?cb = "canned_accept ct (device_byte d) (populate_message f) cb"
    obtain j v where 1: "session_send ?tr (device_byte d) f s =
        (success\<lparr>st_attempts := j\<rparr>, record_outcome ?tr (device_byte d) (success\<lparr>st_attempts := j\<rparr>) (s\<lparr>s_transport := v\<rparr>))"
      "at_bus ?cb v"
      using canned_restage.flaky_session_send [OF assms(1) opts assms(2) cb(1,3) a True] by blast
    obtain w where 2: "session_send (canned_transport ct sys steady scan) (device_byte d) f t =
        (ok_once, record_outcome (canned_transport ct sys steady scan) (device_byte d) ok_once (t\<lparr>s_transport := w\<rparr>))"
      "on_bus (t\<lparr>s_transport := w\<rparr>) ?cb" by (rule clean_send [OF assms(2) cb(2,3) a True])
    obtain y where y: "cb_devices cb (device_byte d) = Some y" "fresh ct d y" using x assms(4) by auto
    then have accept: "?cb = put_device (device_byte d) (apply_message ct (populate_message f) y) cb"
      by (simp add: canned_accept_def)
    have "\<forall>e \<in> ds. \<exists>x. cb_devices ?cb (device_byte e) = Some x \<and> fresh ct e x"
      unfolding accept using fresh_put [OF x assms(4) _ assms(3)] y(2) by simp
    with unnoticed_outcome [OF assms(5) _ _ 1(2) 2(2), of "success\<lparr>st_attempts := j\<rparr>" ok_once ?tr "device_byte d"
        "canned_transport ct sys steady scan"] cb(3) same_status_success show ?thesis by (simp add: 1 2 accept)
  next
    case False
    with assms(5) a show ?thesis
      by (simp add: session_send_def session_validate_frame_def kMaxPayloadBytes_def status_ok_def failure_def)
  qed
qed

lemma unnoticed_query:
  assumes "rare n plan" "codec_ok ct" "inj_on device_byte ds" "d \<in> ds" "unnoticed ct ds (int n + 1) s t"
    and "p \<in> byte_of ct ` {CRUMBS_CMD_GET_ACK, BREAD_OP_GET_WATCHDOG, state_query (dev_type d)}"
  shows "rel_prod same_status (rel_prod (=) (unnoticed ct ds (int n + 1)))
    (query_read (faulty_transport ct plan (canned_i2c ct sys steady) sys' steady' scan') (device_byte d) p g s)
    (query_read (canned_transport ct sys steady scan) (device_byte d) p g t)"
proof -
  let ?tr = "faulty_transport ct plan (canned_i2c ct sys steady) sys' steady' scan'"
  obtain cb where cb: "at_bus cb (s_transport s)" "on_bus t cb" "cb_opened cb"
    and x: "\<forall>d \<in> ds. \<exists>x. cb_devices cb (device_byte d) = Some x \<and> fresh ct d x"
    and opts: "max_attempts (s_options s) = int n + 1" and a: "status_ok (validate_address (device_byte d))"
    using assms(4,5) by (auto simp: unnoticed_def)
  obtain y where y: "cb_devices cb (device_byte d) = Some y" "fresh ct d y" using x assms(4) by auto
  obtain payload z where r: "reply_payload ct (staged p y) = (Inr payload, z)" using calm_replies [OF y(2) assms(6)] by blast
  have "fresh ct d (staged p y)" using y(2) by (simp add: calm_def)
  from calm_reply_payload [OF this r] have z: "fresh ct d z" .
  let ?m = "reply_message (staged p y) payload" and ?cb = "put_device (device_byte d) z cb"
  have answer: "canned_answer ct (device_byte d) (canned_accept ct (device_byte d) (populate_message (query_frame p)) cb) = Some (?m, ?cb)"
    using r by (simp add: accept_query [OF y(1)] canned_answer_def) (simp add: staged_def)
  obtain j v where 1: "query_read ?tr (device_byte d) p g s = (success\<lparr>st_attempts := j\<rparr>, to_raw_frame ?m,
      record_outcome ?tr (device_byte d) (success\<lparr>st_attempts := j\<rparr>) (s\<lparr>s_transport := v\<rparr>))" "at_bus ?cb v"
    using canned_restage.flaky_query_read [OF assms(1) opts assms(2) cb(1,3) a answer] by blast
  obtain w where 2: "query_read (canned_transport ct sys steady scan) (device_byte d) p g t = (ok_once, to_raw_frame ?m,
      record_outcome (canned_transport ct sys steady scan) (device_byte d) ok_once (t\<lparr>s_transport := w\<rparr>))"
    "on_bus (t\<lparr>s_transport := w\<rparr>) ?cb" by (rule clean_query [OF assms(2) cb(2,3) a answer])
  from unnoticed_outcome [OF assms(5) _ _ 1(2) 2(2), of "success\<lparr>st_attempts := j\<rparr>" ok_once ?tr "device_byte d"
      "canned_transport ct sys steady scan"] cb(3) same_status_success fresh_put [OF x assms(4) z assms(3)]
  show ?thesis by (simp add: 1 2)
qed

text \<open>What health prints, without the retried attempts and the time of the last success.\<close>

definition unretried :: "device_health_extra \<Rightarrow> device_health_extra" where
  "unretried h = h\<lparr>dh_metrics := (dh_metrics h)(''io_retried_attempts'' := None),
     dh_last_seen := map_option (\<lambda>_. (0, 0)) (dh_last_seen h)\<rparr>"

lemma unretried_io:
  "plain_counters st = plain_counters st' \<Longrightarrow> unretried (io_metrics st x) = unretried (io_metrics st' x)"
  by (simp add: unretried_def io_metrics_def plain_counters_def fun_upd_twist)

lemma unretried_watchdog: "unretried (watchdog_metrics wd x) = watchdog_metrics wd (unretried x)"
  by (simp add: unretried_def watchdog_metrics_def fun_upd_twist)

lemma unnoticed_relation:
  assumes "rare n plan" "codec_ok ct" "inj_on device_byte ds" "d \<in> ds"
  shows "health_relation ct (faulty_transport ct plan (canned_i2c ct sys steady) sys' steady' scan') (canned_transport ct sys steady scan)
    d (unnoticed ct ds (int n + 1)) (\<lambda>x y. unretried x = unretried y)"
proof
  let ?a = "word_of_int (dev_address d) :: u8" and ?S = "unnoticed ct ds (int n + 1)"
  fix s t
  assume st: "?S s t"
  then show "last_op_failed s ?a = last_op_failed t ?a" using assms(4) by (auto simp: unnoticed_def flagged_def)
  show "rel_prod (=) ?S (take_recovery ?a s) (take_recovery ?a t)"
    using st assms(4) by (auto simp: unnoticed_def take_recovery_def flagged_def last_op_failed_def stats_of_def on_bus_def)
  show "unretried (io_metrics (stats_for s ?a) x) = unretried (io_metrics (stats_for t ?a) x)" for x
    using st assms(4) by (intro unretried_io) (auto simp: unnoticed_def stats_for_def)
next
  show "rel_fun (unnoticed ct ds (int n + 1)) (unnoticed ct ds (int n + 1)) (record_rejection (word_of_int (dev_address d)))
      (record_rejection (word_of_int (dev_address d)))"
    by (rule rel_funI)
       (auto simp: unnoticed_def record_rejection_def plain_counters_def stats_of_def on_bus_def flagged_def last_op_failed_def)
qed (auto intro!: rel_funI unnoticed_send [OF assms] unnoticed_query [OF assms] simp: unretried_watchdog)

text \<open>The same as an interpretation, with what it rests on as part of the relation.\<close>

definition masks ::
  "contracts \<Rightarrow> (nat \<Rightarrow> i2c_status option) \<Rightarrow> nat \<Rightarrow> inventory_device set \<Rightarrow> inventory_device \<Rightarrow>
   (canned_bus \<times> nat) crumbs_transport session \<Rightarrow> canned_bus crumbs_transport session \<Rightarrow> bool" where
  "masks ct plan n ds d s t \<longleftrightarrow> rare n plan \<and> codec_ok ct \<and> inj_on device_byte ds \<and> d \<in> ds \<and> unnoticed ct ds (int n + 1) s t"

lemma masks_eq:
  "rare n plan \<Longrightarrow> codec_ok ct \<Longrightarrow> inj_on device_byte ds \<Longrightarrow> d \<in> ds \<Longrightarrow> masks ct plan n ds d = unnoticed ct ds (int n + 1)"
  by (simp add: masks_def fun_eq_iff)

interpretation masked: health_relation ct "faulty_transport ct plan (canned_i2c ct sys steady) sys' steady' scan'"
  "canned_transport ct sys steady scan" d "masks ct plan n ds d" "\<lambda>x y. unretried x = unretried y"
  for ct plan sys steady sys' steady' scan' scan n ds d
proof (cases "rare n plan \<and> codec_ok ct \<and> inj_on device_byte ds \<and> d \<in> ds")
  case True
  then show "health_relation ct (faulty_transport ct plan (canned_i2c ct sys steady) sys' steady' scan')
      (canned_transport ct sys steady scan) d (masks ct plan n ds d) (\<lambda>x y. unretried x = unretried y)"
    using masks_eq unnoticed_relation by auto
next
  case False
  then have "masks ct plan n ds d = (\<lambda>s t. False)" by (auto simp: masks_def fun_eq_iff)
  then show "health_relation ct (faulty_transport ct plan (canned_i2c ct sys steady) sys' steady' scan')
      (canned_transport ct sys steady scan) d (masks ct plan n ds d) (\<lambda>x y. unretried x = unretried y)"
    by unfold_locales (simp_all add: rel_fun_def unretried_watchdog)
qed

subsection \<open>Activities\<close>

fun without_retries :: "answer \<Rightarrow> answer" where
  "without_retries (HealthAnswer h) = HealthAnswer (unretried h)"
| "without_retries a = a"

lemma perform_in_service:
  assumes "boards_ok ct" "in_service ct g" "perform ct (canned_transport ct sys steady scan) act g = (a, g')"
  shows "in_service ct g'" "g_state g' = g_state g"
proof -
  have ok: "codec_ok ct" "opcodes_ok ct" "labels_distinct ct" "parsers_ok ct" using assms(1) by (simp_all add: boards_ok_def)
  have "in_service ct g' \<and> g_state g' = g_state g"
  proof (cases act)
    case (Calls j fid args)
    then have "runtime_call ct (canned_transport ct sys steady scan) j fid args g =
      (fst (runtime_call ct (canned_transport ct sys steady scan) j fid args g), g')" using assms(3) by (auto simp: apfst_def prod_eq_iff)
    from call_in_service(1,2) [OF ok(1) assms(2) this] show ?thesis by simp
  next
    case (Reads j ids)
    then have "runtime_read ct (canned_transport ct sys steady scan) j ids g =
      (fst (runtime_read ct (canned_transport ct sys steady scan) j ids g), g')" using assms(3) by (auto simp: apfst_def prod_eq_iff)
    from read_undisturbed [OF ok(1,3) assms(2) this] show ?thesis by (simp add: undisturbed_def)
  next
    case (AsksHealth j)
    then have "device_health ct (canned_transport ct sys steady scan) j g =
      (fst (device_health ct (canned_transport ct sys steady scan) j g), g')" using assms(3) by (auto simp: apfst_def prod_eq_iff)
    from health_undisturbed [OF ok(1,2,4) assms(2) this] show ?thesis by (simp add: undisturbed_def)
  next
    case (Wakes now)
    then have "g' = feed_globals ct (canned_transport ct sys steady scan) now g" using assms(3) by simp
    with wake_undisturbed [OF ok(1,2,4) assms(2), of sys steady scan now] show ?thesis by (simp add: undisturbed_def Let_def)
  qed
  then show "in_service ct g'" "g_state g' = g_state g" by simp_all
qed

lemma perform_all_state:
  assumes "boards_ok ct"
  shows "in_service ct g \<Longrightarrow> g_state (snd (perform_all ct (canned_transport ct sys steady scan) acts g)) = g_state g"
proof (induction acts arbitrary: g)
  case (Cons act acts)
  obtain a g1 where p: "perform ct (canned_transport ct sys steady scan) act g = (a, g1)" by fastforce
  from Cons.IH perform_in_service [OF assms Cons.prems p] show ?case by (simp add: p split_def Let_def)
qed simp

text \<open>The boards of a process that serves them.\<close>

abbreviation boards :: "('q, 'w) globals \<Rightarrow> inventory_device set" where
  "boards g \<equiv> set (rs_devices (g_state g))"

lemma in_service_boards:
  assumes "in_service ct g"
  shows "inj_on device_byte (boards g)" "g_keepalive g = Some ka \<Longrightarrow> fed_device ` set (ka_fed ka) \<subseteq> boards g"
  using assms by (auto simp: in_service_def placed_def distinct_map Let_def)

lemma perform_unnoticed:
  assumes "rare n plan" "boards_ok ct" "in_service ct g" "same_globals (unnoticed ct (boards g) (int n + 1)) h g"
  shows "rel_prod (\<lambda>a b. without_retries a = without_retries b) (same_globals (unnoticed ct (boards g) (int n + 1)))
    (perform ct (faulty_transport ct plan (canned_i2c ct sys steady) sys' steady' scan') act h)
    (perform ct (canned_transport ct sys steady scan) act g)"
proof -
  let ?S = "unnoticed ct (boards g) (int n + 1)"
  let ?tr1 = "faulty_transport ct plan (canned_i2c ct sys steady) sys' steady' scan'" and ?tr2 = "canned_transport ct sys steady scan"
  have masks: "masks ct plan n (boards g) d = ?S" if "d \<in> boards g" for d
    using assms(1,2) in_service_boards(1) [OF assms(3)] that by (simp add: masks_eq boards_ok_def)
  have h: "g_state h = g_state g" "g_keepalive h = g_keepalive g" using assms(4) by (simp_all add: same_globals_def)
  have known: "d \<in> boards g" "find_device (rs_devices (g_state h)) j = Some d" if "find_device (rs_devices (g_state g)) j = Some d" for j d
    using find_device_Some [OF that] that by (simp_all add: h)
  have requests: "rel_prod (=) (same_globals ?S) (runtime_call ct ?tr1 j fid args h) (runtime_call ct ?tr2 j fid args g)"
    "rel_prod (=) (same_globals ?S) (runtime_read ct ?tr1 j ids h) (runtime_read ct ?tr2 j ids g)"
    "rel_prod (\<lambda>x y. unretried x = unretried y) (same_globals ?S) (device_health ct ?tr1 j h) (device_health ct ?tr2 j g)"
    if "find_device (rs_devices (g_state g)) j = Some d" for j d fid args ids
  proof -
    note eq = masks [OF known(1) [OF that]]
    note on = assms(4) [folded eq] known(2) [OF that]
    show "rel_prod (=) (same_globals ?S) (runtime_call ct ?tr1 j fid args h) (runtime_call ct ?tr2 j fid args g)"
      by (rule masked.runtime_call_rel [OF on, unfolded eq])
    show "rel_prod (=) (same_globals ?S) (runtime_read ct ?tr1 j ids h) (runtime_read ct ?tr2 j ids g)"
      by (rule masked.runtime_read_rel [OF on, unfolded eq])
    show "rel_prod (\<lambda>x y. unretried x = unretried y) (same_globals ?S) (device_health ct ?tr1 j h) (device_health ct ?tr2 j g)"
      by (rule masked.device_health_rel [OF on, unfolded eq])
  qed
  show ?thesis
  proof (cases act)
    case (Calls j fid args)
    have "rel_prod (=) (same_globals ?S) (runtime_call ct ?tr1 j fid args h) (runtime_call ct ?tr2 j fid args g)"
      using requests(1) assms(4) h
      by (cases "find_device (rs_devices (g_state g)) j") (auto simp: runtime_call_defs snapshot_def)
    then show ?thesis by (auto simp: Calls apfst_def rel_prod_conv split: prod.splits)
  next
    case (Reads j ids)
    have "rel_prod (=) (same_globals ?S) (runtime_read ct ?tr1 j ids h) (runtime_read ct ?tr2 j ids g)"
      using requests(2) assms(4) h
      by (cases "find_device (rs_devices (g_state g)) j") (auto simp: runtime_read_defs snapshot_def)
    then show ?thesis by (auto simp: Reads apfst_def rel_prod_conv split: prod.splits)
  next
    case (AsksHealth j)
    have "rel_prod (\<lambda>x y. unretried x = unretried y) (same_globals ?S) (device_health ct ?tr1 j h) (device_health ct ?tr2 j g)"
      using requests(3) assms(4) h
      by (cases "find_device (rs_devices (g_state g)) j") (auto simp: device_health_def snapshot_def)
    then show ?thesis by (auto simp: AsksHealth apfst_def rel_prod_conv split: prod.splits)
  next
    case (Wakes now)
    have fed: "d \<in> boards g" if "g_keepalive h = Some ka" "d \<in> fed_device ` set (ka_fed ka)" for ka d
      using in_service_boards(2) [OF assms(3), of ka] that h(2) by auto
    have "device_relation ct ?tr1 ?tr2 d ?S" if "d \<in> boards g" for d
      unfolding masks [OF that, symmetric] by (rule masked.device_relation_axioms)
    from feed_globals_rel [OF this [OF fed] assms(4)]
    have "same_globals ?S (feed_globals ct ?tr1 now h) (feed_globals ct ?tr2 now g)" by simp
    then show ?thesis by (simp add: Wakes)
  qed
qed

lemma perform_all_unnoticed:
  assumes "rare n plan" "boards_ok ct"
  shows "in_service ct g \<Longrightarrow> same_globals (unnoticed ct (boards g) (int n + 1)) h g \<Longrightarrow>
    rel_prod (\<lambda>as bs. map without_retries as = map without_retries bs) (same_globals (unnoticed ct (boards g) (int n + 1)))
      (perform_all ct (faulty_transport ct plan (canned_i2c ct sys steady) sys' steady' scan') acts h)
      (perform_all ct (canned_transport ct sys steady scan) acts g)"
proof (induction acts arbitrary: g h)
  case (Cons act acts)
  let ?tr1 = "faulty_transport ct plan (canned_i2c ct sys steady) sys' steady' scan'" and ?tr2 = "canned_transport ct sys steady scan"
  obtain a h1 where 1: "perform ct ?tr1 act h = (a, h1)" by fastforce
  obtain b g1 where 2: "perform ct ?tr2 act g = (b, g1)" by fastforce
  have one: "without_retries a = without_retries b" "same_globals (unnoticed ct (boards g) (int n + 1)) h1 g1"
    using perform_unnoticed [OF assms Cons.prems, where sys = sys and steady = steady and sys' = sys' and steady' = steady' and scan' = scan' and scan = scan and act = act] by (simp_all add: 1 2)
  note g1 = perform_in_service [OF assms(2) Cons.prems(1) 2]
  from Cons.IH [OF g1(1), of h1] one show ?case by (auto simp: 1 2 g1(2) rel_prod_conv split: prod.splits)
qed simp

subsection \<open>Start-up\<close>

text \<open>A platform with the faults of a plan on its buses; only its monotonic clock is kept, by which the keepalive is scheduled.\<close>

definition with_faults ::
  "(nat \<Rightarrow> i2c_status option) \<Rightarrow> (canned_bus \<times> nat \<Rightarrow> int) \<Rightarrow> (canned_bus \<times> nat) controller_scan \<Rightarrow> ('q, 'f, canned_bus) platform \<Rightarrow>
   ('q, 'f, canned_bus \<times> nat) platform" where
  "with_faults plan sys scan pf =
     \<lparr>pf_bus = flaky_bus plan sys (\<lambda>(b, n). bus_steady_now (pf_bus pf) b) (pf_bus pf), pf_scan = scan,
      pf_linux_bus = (\<lambda>path r. (pf_linux_bus pf path r, 0)), pf_canned_bus = (\<lambda>cb. (pf_canned_bus pf cb, 0)),
      pf_fault_bus = (\<lambda>cb fs. (pf_fault_bus pf cb fs, 0)), pf_split_bus_query = pf_split_bus_query pf,
      pf_parse_faults = pf_parse_faults pf, pf_any_fault = pf_any_fault pf, pf_check_host = pf_check_host pf,
      pf_exit_code = pf_exit_code pf, pf_readiness_diagnostics = pf_readiness_diagnostics pf\<rparr>"

lemma initialize_mock_opened:
  assumes "is_mock_mode c" "pf_split_bus_query pf (bus_path c) = (path, query)" "pf_parse_faults pf query = Inr fs" "\<not> pf_any_fault pf fs"
    and "session_open (platform_transport ct pf) (new_session (new_crumbs_transport
      (Some (pf_canned_bus pf (seeded_bus ct path (build_seed_inventory ct ck c))))) (make_session_options c)) = (st, ss)"
    and "status_ok st" "bring_up ct (platform_transport ct pf) c (build_seed_inventory ct ck c) ss = (m, ka, ss')"
  shows "initialize ct ck pf c budget clk g0 = publish_ready ((started_state c (at_start clk))
      \<lparr>rs_devices := build_seed_inventory ct ck c, rs_inventory_mode := inventory_source_to_string ConfigSeeded,
       rs_unsupported_probe_count := 0, rs_ready := True, rs_ready_at := at_ready clk,
       rs_startup_message := ''config-seeded inventory (mock mode)'', rs_safe_outputs := m\<rparr>) ss' ka"
  using assms by (simp add: initialize_def initialize_until_def initialize_mock_def Let_def)

lemma faulty_mock_opens:
  assumes "pf_bus pf = canned_i2c ct sys steady" "is_mock_mode c" "0 \<le> retry_count c"
  shows "session_open (platform_transport ct (with_faults plan sys' scan pf))
      (new_session (new_crumbs_transport (Some (cb, n))) (make_session_options c)) =
    (success\<lparr>st_attempts := 1\<rparr>, new_session \<lparr>ct_bus = Some (cb\<lparr>cb_opened := True\<rparr>, n),
       ct_scan_timeout_us = scan_probe_timeout_us (make_session_options c), ct_open = True\<rparr> (make_session_options c))"
proof -
  have "bus_path c \<noteq> []" using assms(2) by (auto simp: is_mock_mode_def starts_with_def)
  with assms(1,3) show ?thesis
    by (simp add: session_open_def new_session_def new_crumbs_transport_def validate_open_options_def
        make_session_options_def transport_open_def with_faults_def flaky_bus_def)
qed

lemma startup_unnoticed:
  assumes "boards_ok ct" "acks_seeded ct" "plain_mock ct pf (bus_path c)" "mock_config c" "retry_count c < INT_MAX"
    and "rare (nat (retry_count c)) plan"
  shows "same_globals (unnoticed ct (set (build_seed_inventory ct ck c)) (int (nat (retry_count c)) + 1))
    (initialize ct ck (with_faults plan sys' scan pf) c budget clk h0) (initialize ct ck pf c budget clk g0)"
proof -
  let ?ds = "build_seed_inventory ct ck c" and ?pf = "with_faults plan sys' scan pf" and ?o = "make_session_options c"
  let ?S = "unnoticed ct (set ?ds) (int (nat (retry_count c)) + 1)"
  obtain sys steady where bus: "pf_bus pf = canned_i2c ct sys steady" using assms(3) by (auto simp: plain_mock_def)
  obtain path query where q: "pf_split_bus_query pf (bus_path c) = (path, query)" by fastforce
  obtain fs where f: "pf_parse_faults pf query = Inr fs" "\<not> pf_any_fault pf fs" "\<And>cb. pf_canned_bus pf cb = cb"
    using assms(3) q by (auto simp: plain_mock_def)
  have mock: "is_mock_mode c" "0 \<le> retry_count c" using assms(4) by (simp_all add: mock_config_def)
  have codec: "codec_ok ct" using assms(1) by (simp add: boards_ok_def)
  have placed: "placed ct ?ds" using seed_inventory_placed [OF _ assms(4,2)] assms(1) by (simp add: boards_ok_def)
  then have inj: "inj_on device_byte (set ?ds)" by (simp add: placed_def distinct_map)
  let ?cb = "(seeded_bus ct path ?ds)\<lparr>cb_opened := True\<rparr>" and ?u = "scan_probe_timeout_us ?o"
  let ?s = "new_session \<lparr>ct_bus = Some (?cb, 0::nat), ct_scan_timeout_us = ?u, ct_open = True\<rparr> ?o"
    and ?t = "new_session \<lparr>ct_bus = Some ?cb, ct_scan_timeout_us = ?u, ct_open = True\<rparr> ?o"
  have "max_attempts ?o = retry_count c + 1"
    using mock(2) assms(5) by (simp add: max_attempts_def make_session_options_def int32_of_id)
  then have start: "?S ?s ?t"
    using mock(2) seeded_bus_fresh [of ?ds] placed calm_new_device
    by (auto simp: unnoticed_def new_session_def at_bus_def on_bus_def flagged_def last_op_failed_def stats_of_def placed_def)
  have tr: "platform_transport ct ?pf = faulty_transport ct plan (canned_i2c ct sys steady) sys' (\<lambda>(b, n). steady b) scan"
    "platform_transport ct pf = canned_transport ct sys steady (pf_scan pf)"
    by (simp_all add: with_faults_def bus canned_i2c_def)
  have rel: "device_relation ct (platform_transport ct ?pf) (platform_transport ct pf) d ?S" if "d \<in> set ?ds" for d
    unfolding tr
    by (rule request_relation.axioms(1) [OF health_relation.axioms(1) [OF unnoticed_relation [OF assms(6) codec inj that]]])
  have "steady_now (platform_transport ct ?pf) (s_transport s) = steady_now (platform_transport ct pf) (s_transport t)" if "?S s t" for s t
    using that unfolding tr
    by (auto simp: unnoticed_def at_bus_def on_bus_def crumbs_over_i2c_def flaky_bus_def canned_i2c_def)
  from bring_up_rel [where ds = ?ds and c = c, OF rel start this] obtain m ka s' t' where
    up: "bring_up ct (platform_transport ct ?pf) c ?ds ?s = (m, ka, s')" "bring_up ct (platform_transport ct pf) c ?ds ?t = (m, ka, t')" "?S s' t'"
    by (auto simp: rel_prod_conv split: prod.splits)
  have pf: "pf_split_bus_query ?pf (bus_path c) = (path, query)" "pf_parse_faults ?pf query = Inr fs" "\<not> pf_any_fault ?pf fs"
    "pf_canned_bus ?pf cb = (cb, 0)" for cb using q f by (simp_all add: with_faults_def)
  have ok: "status_ok (success\<lparr>st_attempts := 1\<rparr>)" by (simp add: status_ok_def success_def)
  note clean = initialize_mock_opened [OF mock(1) q f(1,2) _ ok up(2), unfolded f(3), OF plain_mock_opens [OF bus mock]]
    and faulty = initialize_mock_opened [OF mock(1) pf(1-3) _ ok up(1), unfolded pf(4), OF faulty_mock_opens [OF bus mock]]
  show ?thesis unfolding clean faulty using up(3) by (simp add: same_globals_def publish_ready_def start_def)
qed

subsection \<open>The provider on a bus that fails now and then\<close>

text \<open>The same boards behind the two sessions, and none of them noted as failed or recovered.\<close>

definition same_boards ::
  "inventory_device set \<Rightarrow> (canned_bus \<times> nat) crumbs_transport session \<Rightarrow> canned_bus crumbs_transport session \<Rightarrow> bool" where
  "same_boards ds s t \<longleftrightarrow> map_option fst (ct_bus (s_transport s)) = ct_bus (s_transport t) \<and>
     (\<forall>d \<in> ds. \<not> flagged (device_byte d) s)"

lemma same_globals_mono: "S \<le> T \<Longrightarrow> same_globals S g h \<Longrightarrow> same_globals T g h"
  by (auto simp: same_globals_def intro: option.rel_mono_strong)

text \<open>
  C4: the retries mask transient faults, from start-up on. On a simulated bus where at most \<open>retry_count\<close> of any
  \<open>2 * (retry_count + 1)\<close> bus operations in a row fail, at whatever operations of start-up, calls, reads, health
  requests and the keepalive's feeding, none with an errno of ETIMEDOUT, every call and every read has the
  same answer as on the bus without faults, health differs only in the retried attempts and the time last seen, the
  provider publishes the same state, and the boards are in the same state: no command is lost or applied twice, no board is
  noted as failed, and none is driven safe as recovered.
\<close>

theorem retries_mask_transient_faults:
  assumes "boards_ok ct" "acks_seeded ct" "plain_mock ct pf (bus_path c)" "mock_config c" "outputs_policy c = Safe"
    and "distinct (map spec_id (config_devices c))" "retry_count c < INT_MAX" "rare (nat (retry_count c)) plan"
  shows "let pf' = with_faults plan sys scan pf;
      (as, g) = perform_all ct (platform_transport ct pf) acts (initialize ct ck pf c budget clk g0);
      (bs, h) = perform_all ct (platform_transport ct pf') acts (initialize ct ck pf' c budget clk h0) in
    map without_retries bs = map without_retries as \<and>
    same_globals (same_boards (set (rs_devices (g_state g)))) h g"
proof -
  let ?pf = "with_faults plan sys scan pf" and ?ds = "set (build_seed_inventory ct ck c)"
  let ?g = "initialize ct ck pf c budget clk g0" and ?S = "unnoticed ct ?ds (int (nat (retry_count c)) + 1)"
  obtain sys2 steady where bus: "pf_bus pf = canned_i2c ct sys2 steady" using assms(3) by (auto simp: plain_mock_def)
  have tr: "platform_transport ct ?pf = faulty_transport ct plan (canned_i2c ct sys2 steady) sys (\<lambda>(b, n). steady b) scan"
    "platform_transport ct pf = canned_transport ct sys2 steady (pf_scan pf)"
    by (simp_all add: with_faults_def bus canned_i2c_def)
  note up = mock_startup_in_service(1,2) [OF assms(1-6), where ck = ck and budget = budget and clk = clk and ?g0.0 = g0]
  obtain bs h where 1: "perform_all ct (platform_transport ct ?pf) acts (initialize ct ck ?pf c budget clk h0) = (bs, h)" by fastforce
  obtain as g where 2: "perform_all ct (platform_transport ct pf) acts ?g = (as, g)" by fastforce
  note start = startup_unnoticed [OF assms(1-4,7,8), where ck = ck and sys' = sys and scan = scan and budget = budget and clk = clk
    and ?h0.0 = h0 and ?g0.0 = g0]
  note all = perform_all_unnoticed [OF assms(8,1) up(1), unfolded up(2), OF start, where acts = acts and scan = "pf_scan pf" and
    sys = sys2 and steady = steady and sys' = sys and steady' = "\<lambda>(b, n). steady b" and scan' = scan]
  have "map without_retries bs = map without_retries as" "same_globals ?S h g"
    using all [folded tr, unfolded 1 2] by simp_all
  moreover have "rs_devices (g_state g) = build_seed_inventory ct ck c"
    using perform_all_state [OF assms(1) up(1), of sys2 steady "pf_scan pf" acts, folded tr, unfolded 2] up(2) by simp
  moreover have "?S \<le> same_boards ?ds" by (auto simp: unnoticed_def same_boards_def at_bus_def on_bus_def)
  ultimately show ?thesis using 1 2 same_globals_mono [of ?S "same_boards ?ds" h g] by simp
qed

text \<open>Every third operation fails, on a bench with two retries.\<close>

definition every_third :: "nat \<Rightarrow> i2c_status option" where
  "every_third k = (if k mod 3 = 0 then Some (I2cFailure I2cBusError ''no acknowledge'' 121) else None)"

lemma every_third_rare: "rare 2 every_third"
proof -
  have "faults every_third i (i + 6) \<le> 2" for i
  proof -
    have "i mod 3 = 0 \<or> i mod 3 = 1 \<or> i mod 3 = 2" by linarith
    then have "faults every_third i (Suc (Suc (Suc (Suc (Suc (Suc i)))))) \<le> 2"
      by (elim disjE) (simp_all add: faults_Suc every_third_def mod_Suc)
    moreover have "Suc (Suc (Suc (Suc (Suc (Suc i))))) = i + 6" by simp
    ultimately show ?thesis by metis
  qed
  then show ?thesis by (simp add: rare_def every_third_def ETIMEDOUT_def)
qed

theorem retries_mask_transient_faults_witness:
  "let pf = sample_platform; pf' = with_faults every_third (\<lambda>_. 0) (\<lambda>_ _ _ _ _ _ _ b. (0, [], [], b)) pf;
     clk = \<lparr>at_entry = 0, at_start = 0, at_ready = 0, at_failure = 0, at_probe = \<lambda>_. 0\<rparr>;
     args = [''setpoint1_c'' \<mapsto> make_double_val (int_div_10 375), ''setpoint2_c'' \<mapsto> make_double_val (int_div_10 0)];
     acts = [Calls ''heat'' 2 args, Reads ''heat'' [''setpoint1_c''], Wakes 80000000, AsksHealth ''pump''];
     (as, g) = perform_all sample_contracts (platform_transport sample_contracts pf) acts bench_start;
     (bs, h) = perform_all sample_contracts (platform_transport sample_contracts pf') acts
       (initialize sample_contracts (\<lambda>_ _. []) pf' bench_config 0 clk new_globals) in
   map without_retries bs = map without_retries as \<and> same_globals (same_boards (set (rs_devices (g_state g)))) h g"
proof -
  have "distinct (map spec_id (config_devices bench_config))" "retry_count bench_config < INT_MAX"
    "rare (nat (retry_count bench_config)) every_third" using every_third_rare
    by (simp_all add: bench_config_def sample_config_def sample_spec_def default_provider_config_def)
  note masked = retries_mask_transient_faults [OF sample_boards_ok bench_ok(4,1-3) this]
  show ?thesis unfolding Let_def by (rule masked [unfolded Let_def])
qed

end
