(* ===== verification/Spec2Isabelle.thy ===== *)
theory Spec2Isabelle
  imports Command_Line Config_Schema Logging Interleaving Heater_Spec Driver_Spec Transient_Faults
begin

text \<open>
  A verification library for the BREAD device provider.

  \<^bold>\<open>The program.\<close> The provider serves BREAD boards (RLHT heaters, DCMT motor drivers) on an I2C bus
  to the anolis runtime. It reads a configuration (\<open>src/config\<close>), talks to the boards in CRUMBS
  frames through a session with retries and per-address accounting (\<open>src/crumbs\<close>), probes the bus
  and builds an inventory of devices with their capabilities (\<open>src/devices/common\<close>), reads
  signals and makes control calls through one adapter per board type (\<open>src/devices/rlht\<close>,
  \<open>src/devices/dcmt\<close>), confirms each control call from the board's acknowledgement record, arms the
  boards' command watchdogs, and answers the runtime's requests (\<open>src/core\<close>).

  \<^bold>\<open>The theories\<close>, in the order of the program's layers:

  \<^item> \<open>Prelude\<close>: machine types, text formatting, little-endian byte order, the rule collections.
  \<^item> \<open>Contracts\<close>: the third-party CRUMBS library and the BREAD contracts as one record \<open>contracts\<close>
    of constants and functions, the documented laws as named hypotheses, and a concrete instance
    \<open>sample_contracts\<close> that satisfies all of them.
  \<^item> \<open>Doubles\<close>: IEEE double arithmetic as far as setpoints need it (rounding to nearest even).
  \<^item> \<open>Provider_Config\<close>: \<open>src/config/provider_config.cpp\<close>. The YAML library and the schema validator
    are the record \<open>config_toolkit\<close>. \<open>Config_Schema\<close>: \<open>src/config/config_schema.cpp\<close>, the declared
    schema as data.
  \<^item> \<open>Crumbs_Session\<close>: \<open>src/crumbs/session.cpp\<close>, over any transport. The ghost transport \<open>traced\<close>
    records the traffic; the locale \<open>transport_contract\<close> is what the session asks of a transport.
    \<open>Logging\<close>: \<open>src/logging/logger.cpp\<close> and the lines the session writes through it.
  \<^item> \<open>Crumbs_Transport\<close>: \<open>src/crumbs/crumbs_transport.cpp\<close>, over any I2C bus. It discharges
    \<open>transport_contract\<close>; the locales \<open>i2c_bus_contract\<close> and \<open>framed_bus\<close> are what end-to-end
    statements ask of a bus.
  \<^item> \<open>Canned_Bus\<close>: \<open>src/crumbs/crumbs_canned_bus.cpp\<close>, the simulated bus and its boards. It
    discharges \<open>framed_bus\<close>.
  \<^item> \<open>Adapter_Helpers\<close>, \<open>Compatibility\<close>, \<open>Inventory\<close>, \<open>Set_Confirm\<close>: the files of the same names
    in \<open>src/devices/common\<close>.
  \<^item> \<open>Rlht_Adapter\<close>, \<open>Dcmt_Adapter\<close>: the two adapters. \<open>Device_Adapter\<close>: the dispatch between them
    and \<open>call\<close>; the locale \<open>adapter_contract\<close> is interpreted on both.
  \<^item> \<open>Safe_Outputs\<close>: driving a board's outputs to safe values. \<open>Watchdog\<close>: arming, re-arming and the
    status query. \<open>Keepalive\<close>: \<open>watchdog_keepalive.cpp\<close>, the feeding thread as a step relation that
    interleaves with the requests and the passing of time.
  \<^item> \<open>Startup\<close>: \<open>src/core/startup.cpp\<close>, probing an address and the discovery pass.
  \<^item> \<open>Operation_Frames\<close>: what an operation leaves alone. The locales \<open>transport_frame\<close> and
    \<open>device_frame\<close> carry a property that sends, reads and delays at one address keep up to the
    adapters, the safe outputs and the watchdog; three interpretations give the frames the
    runtime rests on. \<open>Device_Relations\<close>: the same for relations between two runs, by parametricity;
    \<open>session_invariant\<close> is the case of one transport, \<open>device_sim\<close> that of two transports which look
    the same from the device's address.
  \<^item> \<open>Runtime_State\<close>: \<open>src/core/runtime_state.cpp\<close> and \<open>host_check.cpp\<close>, the process state and
    start-up; what the SDK provides is the record \<open>platform\<close>. \<open>Mock_Startup\<close>: start-up on a
    \<open>mock://\<close> bus followed down to the simulated boards.
  \<^item> \<open>Provider_Runtime\<close>: \<open>src/core/bread_provider_runtime.cpp\<close>, the requests, and the reachable states
    of the process. \<open>Request_Effects\<close>: what the requests do to the boards. \<open>Request_Relations\<close>: the relations of
    \<open>Device_Relations\<close> carried up to whole requests, start-up and the keepalive's thread, in the locales
    \<open>request_relation\<close> and \<open>health_relation\<close>. \<open>Interleaving\<close>: requests with
    the keepalive's thread waking inside them; the locale \<open>addressed_bus\<close> is what is asked of the bus.
  \<^item> \<open>Board_Steps\<close>, \<open>Board_Spec\<close>: the effect of every activity of the provider on the simulated boards,
    and the locale \<open>board_machine\<close>, an abstract machine for a board with the laws of one exchange,
    in which the run of the whole provider is shown to implement it. \<open>Heater_Spec\<close> and \<open>Driver_Spec\<close>
    interpret it on the RLHT and the DCMT. \<open>Transient_Faults\<close>: the provider on a bus that fails now and then;
    the locale \<open>restaging_bus\<close> is what a retried query asks of the boards.
  \<^item> \<open>Command_Line\<close>: \<open>src/core/main.cpp\<close>.

  \<^bold>\<open>State and errors.\<close> An object is a record, a method a function from the record to its result and
  the new record; a session carries the state of its transport, which carries the state of its
  bus. Errors are values: \<open>session_status\<close>, \<open>adapter_call_result\<close> and \<open>adapter_read_result\<close> as in the
  code, a sum where the code throws. Bytes and counters are words of their width, C++ \<open>int\<close> is
  \<open>int\<close> with the bounds written out. In one place an \<open>int\<close> can overflow, which C++ leaves undefined: \<open>retry_count + 1\<close> at
  the largest accepted count, where \<open>max_attempts\<close> wraps around and no property rests on it.
  Every loop of the sources but one is bounded by its data: a structural recursion, or for the retry
  loop a recursion with a termination measure, so no fuel is needed. The keepalive's thread is the
  exception; it is a step relation, and its end is a theorem. Time points are integers in
  nanoseconds, read from the state of the transport or given as arguments; discovery is given one reading of the
  clock for each address.

  \<^bold>\<open>Concurrency.\<close> A session operation holds the session's mutex, a tick and a contact the keepalive's, and
  an update of the globals \<open>g_mutex\<close>: each is one step. The keepalive's thread interleaves with
  everything in \<open>Keepalive\<close>; in \<open>Provider_Runtime\<close> and \<open>Board_Spec\<close> it runs between whole requests, and
  \<open>Interleaving\<close> shows that this loses nothing: a request during which the thread wakes on the process's keepalive, even between
  two operations of the transport, is the request without it. The two parts of a request, \<open>begin_request\<close> that tells
  the keepalive of the contact and the rest with the session operations, are definitions of \<open>Provider_Runtime\<close>.

  \<^bold>\<open>What is shown.\<close> The whole provider on simulated boards: from start-up through any calls, reads, health
  requests and wakes of the keepalive, each board follows the calls accepted on it and reads return what
  they gave, as the abstract heater and driver do; and as long as the bus fails no more often than the
  retries allow for, all of this is the same on a bus with faults. Every start-up leaves each configured device either served or
  reported missing. The session: the retry loop returns the first decisive attempt, every operation is
  refused without effect or counted once, the recovery flag is a function of the history, and
  the traffic of a query is whole attempts; its log has one line per failed attempt. The wire: frames survive encoding, padding and
  decoding, so a session over the canned bus behaves as the board does. The inventory: every
  probe and every configured device is accounted for, in order, with distinct ids, and a DCMT
  without encoders offers no closed loop. The adapters: what is published is what is accepted,
  reads return what is asked for, refused commands stay off the bus. The
  confirmed SET: its traffic, that it succeeds exactly when the record read after a send shows the frame applied, and that the
  frame is acted on exactly once though copies of it are lost. Safe outputs: after the sequence the
  board's outputs are the safe ones, step by step. The watchdog: arming writes one kind of frame and
  reads back, the keepalive puts every board's watchdog query on the bus in time until the runtime calls and its thread ends.
  Start-up: a probed address is supported exactly when it answers with a module this build can drive,
  discovery only asks and accounts for every address, before and after its deadline, and on a mock bus
  every board is safe and armed before the provider is ready. The runtime: an invariant of every
  reachable state, what a health request may write, that only what is listed is served, and that a
  call which ends a spell of failures is undone by the recovery it triggers. The schema: a document
  that satisfies the published table loads with every field as the table documents it.

  \<^bold>\<open>Not modelled.\<close> The log lines outside the session, which change no state; the wall-clock time
  stamps of signal values; thread scheduling below the level of the transport's operations. The SDK's run loop, protocol framing, validator, fault-injecting bus and
  host checks, the CRUMBS codec and the BREAD contracts' parsers are third-party code and are
  parameters. The build for systems other than Linux, which has the mock path alone, and the
  destruction of a replaced session, which only closes its own bus, are left out.
\<close>

end
